theory Spec2Isabelle
  imports
    Main
    "HOL-Library.Word"
    "HOL-Library.Sublist"
    "HOL-Library.Char_ord"
    "HOL-Library.List_Lexorder"
begin

unbundle bit_operations_syntax

section \<open>The packed ordinal field of a legacy symbol descriptor\<close>

text \<open>
  \<^verbatim>\<open>get_library_ordinal\<close> and \<^verbatim>\<open>set_library_ordinal\<close> of
  \<^verbatim>\<open>dylibify-lief-cpp.cpp\<close> (lines 23-29). The operands of \<^verbatim>\<open>&\<close>,
  \<^verbatim>\<open>|\<close> and \<^verbatim>\<open><<\<close> are promoted to 32-bit \<^verbatim>\<open>int\<close>; the
  result is converted back to \<^verbatim>\<open>uint16_t\<close> on assignment and to
  \<^verbatim>\<open>uint8_t\<close> on return.
\<close>

definition get_library_ordinal :: "16 word \<Rightarrow> 8 word" where
  "get_library_ordinal n_desc = ucast (drop_bit 8 (ucast n_desc :: 32 word))"

definition set_library_ordinal :: "16 word \<Rightarrow> 8 word \<Rightarrow> 16 word" where
  "set_library_ordinal n_desc ordinal =
     ucast (((ucast n_desc :: 32 word) AND 0x00FF) OR push_bit 8 (ucast ordinal :: 32 word))"

section \<open>Containers of the C++ standard library\<close>

text \<open>
  \<^verbatim>\<open>std::set<K>\<close> and \<^verbatim>\<open>std::map<K, V>\<close> hold each key once and are
  iterated in increasing key order; they are lists kept sorted by key. Strings
  compare as \<^verbatim>\<open>std::string\<close> does: lexicographically, byte by byte.
  \<^verbatim>\<open>emplace\<close> leaves the container as it is when the key is present,
  \<^verbatim>\<open>contains\<close> and \<^verbatim>\<open>at\<close> are \<^const>\<open>map_of\<close>, and
  \<^verbatim>\<open>operator[]\<close> inserts a value-initialised entry for a missing key before
  it returns it.
\<close>

definition set_emplace :: "'a::linorder \<Rightarrow> 'a list \<Rightarrow> 'a list" where
  "set_emplace x s = (if x \<in> set s then s else insort x s)"

definition map_contains :: "('k \<times> 'v) list \<Rightarrow> 'k \<Rightarrow> bool" where
  "map_contains m k = (map_of m k \<noteq> None)"

definition map_emplace :: "'k::linorder \<Rightarrow> 'v \<Rightarrow> ('k \<times> 'v) list \<Rightarrow> ('k \<times> 'v) list" where
  "map_emplace k v m = (if map_contains m k then m else insort_key fst (k, v) m)"

definition map_index :: "('k::linorder \<times> int) list \<Rightarrow> 'k \<Rightarrow> int \<times> ('k \<times> int) list" where
  "map_index m k =
     (case map_of m k of
        Some v \<Rightarrow> (v, m)
      | None \<Rightarrow> (0, insort_key fst (k, 0) m))"

section \<open>The image as the object model exposes it\<close>

text \<open>
  The program reads and edits the image through LIEF; only the parts it touches
  are kept. Ordinals are \<^verbatim>\<open>int32_t\<close> in the source. The only arithmetic on
  them is the increment of the position counter, which counts load commands of
  one image and stays far below \<open>2 ^ 31\<close>, so they are integers here and the
  one narrowing conversion (to \<^verbatim>\<open>uint8_t\<close>) is written out where it
  happens.
\<close>

datatype LOAD_COMMAND_TYPES =
    LC_ID_DYLIB
  | LC_LOAD_DYLIB
  | LC_LOAD_WEAK_DYLIB
  | LC_REEXPORT_DYLIB
  | LC_LAZY_LOAD_DYLIB
  | LC_LOAD_UPWARD_DYLIB

datatype FILE_TYPES = MH_OBJECT | MH_EXECUTE | MH_DYLIB | MH_BUNDLE | MH_OTHER

datatype CPU_TYPES =
    CPU_TYPE_X86
  | CPU_TYPE_X86_64
  | CPU_TYPE_ARM
  | CPU_TYPE_ARM64
  | CPU_TYPE_OTHER

datatype SYMBOL_ORIGINS =
    SYM_ORIGIN_UNKNOWN
  | SYM_ORIGIN_DYLD_EXPORT
  | SYM_ORIGIN_DYLD_BIND
  | SYM_ORIGIN_LC_SYMTAB

record DylibCommand =
  command :: LOAD_COMMAND_TYPES
  name :: string

text \<open>
  A binding record carries its ordinal and, when the parser resolved it, the
  dependency entry it points to (\<^verbatim>\<open>has_library\<close>, \<^verbatim>\<open>library\<close>). The program
  reads that entry only before it edits the table.
\<close>

record BindingInfo =
  library_ordinal :: int
  library :: "DylibCommand option"

text \<open>
  A symbol points to a binding record owned by the binding table
  (\<^verbatim>\<open>has_binding_info\<close>, \<^verbatim>\<open>binding_info\<close>); the pointer is an index into
  that table, so that a rewrite of the table is seen through the symbol.
\<close>

record Symbol =
  symbol_name :: string
  origin :: SYMBOL_ORIGINS
  description :: "16 word"
  binding_info :: "nat option"

record Binary =
  file_type :: FILE_TYPES
  cpu_type :: CPU_TYPES
  libraries :: "DylibCommand list"
  dyld_info :: "BindingInfo list option"
  symbols :: "Symbol list"

text \<open>
  Modelled from the spec: the sentinel ordinals of the legacy encoding. The
  enumeration \<^verbatim>\<open>SYMBOL_DESCRIPTIONS\<close> is declared by LIEF, not by this
  repository; its three values are those of the Mach-O format (self-reference,
  dynamic lookup, resolved by the executable).
\<close>

definition SELF_LIBRARY_ORDINAL :: "8 word" where
  "SELF_LIBRARY_ORDINAL = 0x0"

definition DYNAMIC_LOOKUP_ORDINAL :: "8 word" where
  "DYNAMIC_LOOKUP_ORDINAL = 0xfe"

definition EXECUTABLE_ORDINAL :: "8 word" where
  "EXECUTABLE_ORDINAL = 0xff"

text \<open>
  Modelled from the spec: the sentinel ordinals of a binding record (self,
  resolved by the executable, dynamic lookup), which the Mach-O format writes as
  \<open>0\<close>, \<open>-1\<close> and \<open>-2\<close>. The program never names them.
\<close>

definition binding_sentinel :: "int \<Rightarrow> bool" where
  "binding_sentinel ord = (ord = 0 \<or> ord = - 1 \<or> ord = - 2)"

definition symtab_sentinel :: "8 word \<Rightarrow> bool" where
  "symtab_sentinel ord =
     (ord = SELF_LIBRARY_ORDINAL \<or> ord = DYNAMIC_LOOKUP_ORDINAL \<or> ord = EXECUTABLE_ORDINAL)"

text \<open>
  Modelled from the spec: the operations of the object model on the dependency
  table. \<^verbatim>\<open>binary.libraries()\<close> is the list of dependency entries in
  declaration order, \<^verbatim>\<open>binary.add\<close> appends an entry and
  \<^verbatim>\<open>binary.remove\<close> deletes the entry it is given.
\<close>

definition id_dylib :: "string \<Rightarrow> DylibCommand" where
  "id_dylib path = \<lparr>command = LC_ID_DYLIB, name = path\<rparr>"

definition load_dylib :: "string \<Rightarrow> DylibCommand" where
  "load_dylib path = \<lparr>command = LC_LOAD_DYLIB, name = path\<rparr>"

definition binary_add :: "DylibCommand \<Rightarrow> Binary \<Rightarrow> Binary" where
  "binary_add cmd binary = binary\<lparr>libraries := libraries binary @ [cmd]\<rparr>"

definition binary_remove :: "DylibCommand \<Rightarrow> Binary \<Rightarrow> Binary" where
  "binary_remove cmd binary = binary\<lparr>libraries := remove1 cmd (libraries binary)\<rparr>"

text \<open>
  \<^verbatim>\<open>sym.binding_info()\<close>: the record the symbol points to. An index outside
  the table stands for no record.
\<close>

definition sym_binding_info :: "Binary \<Rightarrow> Symbol \<Rightarrow> BindingInfo option" where
  "sym_binding_info binary symb =
     (case binding_info symb of
        None \<Rightarrow> None
      | Some i \<Rightarrow>
          (case dyld_info binary of
             None \<Rightarrow> None
           | Some bindings \<Rightarrow> if i < length bindings then Some (bindings ! i) else None))"

section \<open>Failures and effects\<close>

text \<open>
  Every way the program stops early is a value: \<^verbatim>\<open>return false\<close>
  (\<open>ToolchainFailure\<close>), a failed \<^verbatim>\<open>assert\<close>
  (\<open>InvalidInput\<close> for the file type, \<open>AssertionFailed\<close>,
  \<open>UnclassifiableSymbol\<close>, \<open>IOError\<close>), an uncaught
  \<^verbatim>\<open>std::out_of_range\<close> (\<open>OrdinalOutOfRange\<close> from the ordinal map,
  \<open>UnknownArchitecture\<close> from the architecture table), an uncaught
  \<^verbatim>\<open>fmt::format_error\<close> (\<open>FormatError\<close>) and a null pointer
  (\<open>NullDereference\<close>). No exception of these is caught by \<^verbatim>\<open>dylibify\<close>
  or by \<^verbatim>\<open>main\<close>.
\<close>

datatype error =
    InvalidInput
  | FormatError
  | AssertionFailed
  | OrdinalOutOfRange
  | NullDereference
  | UnclassifiableSymbol
  | UnknownArchitecture
  | IOError
  | ToolchainFailure

text \<open>
  What the program leaves behind, in order: a file written by
  \<^verbatim>\<open>write_string_to_file\<close> (file, content), an external process that ran
  (its arguments) and the serialisation of the images by
  \<^verbatim>\<open>binaries->write(out_path)\<close>.
\<close>

datatype event =
    WroteFile string string
  | Ran "string list"
  | WroteImage "Binary list"

text \<open>
  The host the program runs on: whether \<^verbatim>\<open>dlopen\<close> finds a library,
  whether the three asserted calls of \<^verbatim>\<open>write_string_to_file\<close> succeed,
  and what \<^verbatim>\<open>subprocess::call\<close> returns for an argument vector and for a
  command line (\<open>None\<close> when it throws \<^verbatim>\<open>std::runtime_error\<close>).
\<close>

record environment =
  dylib_exists :: "string \<Rightarrow> bool"
  file_writable :: "string \<Rightarrow> bool"
  subprocess_call :: "string list \<Rightarrow> int option"
  subprocess_call_cmd :: "string \<Rightarrow> int option"

text \<open>
  The arguments of \<^verbatim>\<open>dylibify\<close> that the dependency bookkeeping uses. The
  three paths are computed by \<^verbatim>\<open>std::filesystem\<close> from the command line
  and are the same for every image of the input: \<open>new_dylib_path\<close> (lines
  221-227), \<open>new_stub_path\<close> for
  \<^verbatim>\<open>new_dylib_path.parent_path() / fat_stub_filename\<close> (line 346) and
  \<open>out_dir\<close> for \<^verbatim>\<open>out_path.parent_path()\<close>.
\<close>

record arguments =
  remove_dylibs :: "string list"
  auto_remove_dylibs :: bool
  new_dylib_path :: string
  new_stub_path :: string
  out_dir :: string

section \<open>Stub source\<close>

text \<open>\<^verbatim>\<open>create_stub_objc\<close> (lines 47-81), with its three raw string literals.\<close>

definition objc_class_prefix :: string where
  "objc_class_prefix = ''_OBJC_CLASS_$_''"

definition plain_prefix :: string where
  "plain_prefix = ''_''"

definition objc_header :: string where
  "objc_header =
     ''\<newline>#undef NDEBUG\<newline>#include <assert.h>\<newline>#import <Foundation/Foundation.h>\<newline>''"

definition objc_class_stub :: "string \<Rightarrow> string" where
  "objc_class_stub objc_class_name =
     ''\<newline>@interface '' @ objc_class_name @ '' : NSObject\<newline>@end\<newline>@implementation ''
       @ objc_class_name @ ''\<newline>@end\<newline>''"

definition objc_function_stub :: "string \<Rightarrow> string" where
  "objc_function_stub sym_name =
     ''\<newline>void '' @ sym_name @ ''(void) {\<newline>    assert(!'' @ [CHR 0x22]
       @ ''unimplemented symbols '' @ [CHR 0x27] @ sym_name @ [CHR 0x27, CHR 0x22]
       @ '');\<newline>}\<newline>''"

fun stub_objc_loop :: "string list \<Rightarrow> string \<Rightarrow> error + string" where
  "stub_objc_loop [] objc = Inr objc"
| "stub_objc_loop (symb # stub_syms) objc =
     (if prefix objc_class_prefix symb then
        stub_objc_loop stub_syms
          (objc @ objc_class_stub (drop (length objc_class_prefix) symb))
      else if prefix plain_prefix symb then
        stub_objc_loop stub_syms
          (objc @ objc_function_stub (drop (length plain_prefix) symb))
      else Inl UnclassifiableSymbol)"

definition create_stub_objc :: "string list \<Rightarrow> error + string" where
  "create_stub_objc stub_syms = stub_objc_loop stub_syms objc_header"

section \<open>Building the stub libraries\<close>

text \<open>The table \<^verbatim>\<open>arch_map\<close> (lines 83-88); \<^verbatim>\<open>at\<close> throws outside it.\<close>

fun arch_map :: "CPU_TYPES \<Rightarrow> string option" where
  "arch_map CPU_TYPE_X86 = Some ''i386''"
| "arch_map CPU_TYPE_X86_64 = Some ''x86_64''"
| "arch_map CPU_TYPE_ARM = Some ''armv7''"
| "arch_map CPU_TYPE_ARM64 = Some ''arm64''"
| "arch_map CPU_TYPE_OTHER = None"

text \<open>
  \<^verbatim>\<open>operator/\<close> of \<^verbatim>\<open>std::filesystem::path\<close> for a relative right-hand
  side: a separator is put in unless the left-hand side is empty or ends in one.
\<close>

definition path_append :: "string \<Rightarrow> string \<Rightarrow> string" where
  "path_append p q = (if p = [] \<or> last p = CHR ''/'' then p @ q else p @ ''/'' @ q)"

definition fat_stub_stem :: string where
  "fat_stub_stem = ''dylibify-stubs''"

definition fat_stub_extension :: string where
  "fat_stub_extension = ''.dylib''"

definition fat_stub_filename :: string where
  "fat_stub_filename = fat_stub_stem @ fat_stub_extension"

text \<open>
  \<^verbatim>\<open>create_thin_stub_dylib\<close> (lines 90-125). \<open>Inr None\<close> is
  \<^verbatim>\<open>std::nullopt\<close>: the compiler could not be run or returned non-zero.
\<close>

definition create_thin_stub_dylib ::
  "environment \<Rightarrow> string \<Rightarrow> string \<Rightarrow> string list \<Rightarrow> CPU_TYPES
    \<Rightarrow> event list \<times> (error + string option)" where
  "create_thin_stub_dylib env out_directory stub_dylib_path stub_syms cpu =
     (case create_stub_objc stub_syms of
        Inl e \<Rightarrow> ([], Inl e)
      | Inr objc \<Rightarrow>
          (case arch_map cpu of
             None \<Rightarrow> ([], Inl UnknownArchitecture)
           | Some arch \<Rightarrow>
               let thin_stub_src_filename = fat_stub_stem @ ''.'' @ arch @ ''.m'';
                   thin_sub_dylib_filename = fat_stub_stem @ ''.'' @ arch @ fat_stub_extension;
                   thin_stub_dylib_path = path_append out_directory thin_sub_dylib_filename;
                   install_name_opt = ''-Wl,-install_name,'' @ stub_dylib_path;
                   argv = [''clang'', ''-arch'', arch, ''-o'', thin_stub_dylib_path,
                           thin_stub_src_filename, ''-shared'', ''-fobjc-arc'', ''-framework'',
                           ''Foundation'', install_name_opt]
               in if \<not> file_writable env thin_stub_src_filename then ([], Inl IOError)
                  else
                    (case subprocess_call env argv of
                       None \<Rightarrow> ([WroteFile thin_stub_src_filename objc, Ran argv], Inr None)
                     | Some res \<Rightarrow>
                         if res \<noteq> 0 then
                           ([WroteFile thin_stub_src_filename objc, Ran argv], Inr None)
                         else
                           ([WroteFile thin_stub_src_filename objc, Ran argv],
                            Inr (Some thin_stub_dylib_path)))))"

text \<open>\<^verbatim>\<open>fmt::join\<close> with a separator.\<close>

fun join_with :: "string \<Rightarrow> string list \<Rightarrow> string" where
  "join_with sep [] = []"
| "join_with sep [x] = x"
| "join_with sep (x # y # ys) = x @ sep @ join_with sep (y # ys)"

text \<open>\<^verbatim>\<open>create_fat_stub_dylib\<close> (lines 127-150).\<close>

definition create_fat_stub_dylib ::
  "environment \<Rightarrow> string \<Rightarrow> string list \<Rightarrow> event list \<times> bool" where
  "create_fat_stub_dylib env out_directory thin_stubs =
     (let fat_stub_path = path_append out_directory fat_stub_filename;
          cmd = ''lipo -create -output '' @ fat_stub_path @ '' '' @ join_with '' '' thin_stubs
      in case subprocess_call_cmd env cmd of
           None \<Rightarrow> ([Ran [cmd]], False)
         | Some res \<Rightarrow> if res \<noteq> 0 then ([Ran [cmd]], False) else ([Ran [cmd]], True))"

section \<open>The ordinal tables\<close>

text \<open>
  Lines 170-176: the first entry of each name, the self-identity entry left out.
\<close>

fun orig_libraries_loop ::
  "DylibCommand list \<Rightarrow> (string \<times> DylibCommand) list \<Rightarrow> (string \<times> DylibCommand) list" where
  "orig_libraries_loop [] m = m"
| "orig_libraries_loop (dylib_cmd # rest) m =
     (if command dylib_cmd = LC_ID_DYLIB then orig_libraries_loop rest m
      else orig_libraries_loop rest (map_emplace (name dylib_cmd) dylib_cmd m))"

text \<open>
  Lines 178-186 for the original table and, word for word, lines 355-363 for
  the new one: the counter starts at 1 and advances for every entry that is not
  the self-identity entry, whether or not \<^verbatim>\<open>emplace\<close> stored it.
\<close>

fun ordinal_map_loop ::
  "DylibCommand list \<Rightarrow> (string \<times> int) list \<Rightarrow> int \<Rightarrow> (string \<times> int) list" where
  "ordinal_map_loop [] m idx = m"
| "ordinal_map_loop (dylib_cmd # rest) m idx =
     (if command dylib_cmd = LC_ID_DYLIB then ordinal_map_loop rest m idx
      else ordinal_map_loop rest (map_emplace (name dylib_cmd) idx m) (idx + 1))"

definition ordinal_map :: "DylibCommand list \<Rightarrow> (string \<times> int) list" where
  "ordinal_map libs = ordinal_map_loop libs [] 1"

text \<open>Lines 188-194: the dependency each bound symbol name comes from.\<close>

fun syms_to_libs_loop ::
  "Binary \<Rightarrow> Symbol list \<Rightarrow> (string \<times> string) list \<Rightarrow> (string \<times> string) list" where
  "syms_to_libs_loop binary [] m = m"
| "syms_to_libs_loop binary (symb # rest) m =
     (case sym_binding_info binary symb of
        None \<Rightarrow> syms_to_libs_loop binary rest m
      | Some info \<Rightarrow>
          (case library info of
             None \<Rightarrow> syms_to_libs_loop binary rest m
           | Some lib \<Rightarrow>
               syms_to_libs_loop binary rest (map_emplace (symbol_name symb) (name lib) m)))"

section \<open>What to remove\<close>

text \<open>
  Lines 304-311. For a requested name that is not in the table the program
  calls \<^verbatim>\<open>fmt::print\<close> with a format string that has the placeholder
  \<^verbatim>\<open>{:s}\<close> and with no argument (line 307). The format string is
  checked when it is formatted, no argument is found for the placeholder, and
  \<^verbatim>\<open>fmt::format_error\<close> is thrown there: the \<^verbatim>\<open>return false\<close> of
  line 308 is not reached.
\<close>

fun remove_dylib_set_loop ::
  "(string \<times> DylibCommand) list \<Rightarrow> string list \<Rightarrow> string list \<Rightarrow> error + string list" where
  "remove_dylib_set_loop orig_libraries [] remove_dylib_set = Inr remove_dylib_set"
| "remove_dylib_set_loop orig_libraries (dylib # rest) remove_dylib_set =
     (if \<not> map_contains orig_libraries dylib then Inl FormatError
      else remove_dylib_set_loop orig_libraries rest (set_emplace dylib remove_dylib_set))"

text \<open>Lines 313-322: the dependencies the host cannot load.\<close>

fun auto_remove_loop ::
  "environment \<Rightarrow> (string \<times> DylibCommand) list \<Rightarrow> string list \<Rightarrow> string list" where
  "auto_remove_loop env [] remove_dylib_set = remove_dylib_set"
| "auto_remove_loop env (i # rest) remove_dylib_set =
     (if \<not> dylib_exists env (fst i)
      then auto_remove_loop env rest (set_emplace (fst i) remove_dylib_set)
      else auto_remove_loop env rest remove_dylib_set)"

definition remove_dylib_set_of ::
  "environment \<Rightarrow> arguments \<Rightarrow> (string \<times> DylibCommand) list \<Rightarrow> error + string list" where
  "remove_dylib_set_of env args orig_libraries =
     (case remove_dylib_set_loop orig_libraries (remove_dylibs args) [] of
        Inl e \<Rightarrow> Inl e
      | Inr remove_dylib_set \<Rightarrow>
          Inr (if auto_remove_dylibs args
               then auto_remove_loop env orig_libraries remove_dylib_set
               else remove_dylib_set))"

text \<open>Lines 324-333: the names of the symbols that come from a removed dependency.\<close>

fun remove_sym_set_loop ::
  "string list \<Rightarrow> (string \<times> string) list \<Rightarrow> string list \<Rightarrow> string list" where
  "remove_sym_set_loop remove_dylib_set [] remove_sym_set = remove_sym_set"
| "remove_sym_set_loop remove_dylib_set (sym_map # rest) remove_sym_set =
     (if snd sym_map \<in> set remove_dylib_set
      then remove_sym_set_loop remove_dylib_set rest (set_emplace (fst sym_map) remove_sym_set)
      else remove_sym_set_loop remove_dylib_set rest remove_sym_set)"

text \<open>
  Lines 335-343. \<^verbatim>\<open>orig_libraries[dylib]\<close> would store a null pointer for a
  missing name, which the next line dereferences. The set
  \<^verbatim>\<open>removed_ordinals\<close> filled here is never read and is left out.
\<close>

fun remove_loop ::
  "(string \<times> DylibCommand) list \<Rightarrow> string list \<Rightarrow> Binary \<Rightarrow> error + Binary" where
  "remove_loop orig_libraries [] binary = Inr binary"
| "remove_loop orig_libraries (dylib # rest) binary =
     (case map_of orig_libraries dylib of
        None \<Rightarrow> Inl NullDereference
      | Some dylib_cmd \<Rightarrow> remove_loop orig_libraries rest (binary_remove dylib_cmd binary))"

section \<open>Remapping\<close>

text \<open>
  Lines 365-377, over the entries of the original table in key order. The new
  table is passed along because \<^verbatim>\<open>new_ordinal_map[*stub_path]\<close> inserts the
  stub path with ordinal 0 when the new table does not hold it. The variable
  \<^verbatim>\<open>stub_path\<close> is a \<^verbatim>\<open>std::optional\<close> that the program only reads and
  writes through \<^verbatim>\<open>operator*\<close>, which accesses the contained path without
  looking at the engaged flag; it is the path it contains.
\<close>

fun orig_to_new_loop ::
  "(string \<times> int) list \<Rightarrow> string list \<Rightarrow> string \<Rightarrow> (string \<times> int) list
    \<Rightarrow> (int \<times> int) list \<Rightarrow> error + ((string \<times> int) list \<times> (int \<times> int) list)" where
  "orig_to_new_loop [] remove_dylib_set stub_path new_ordinal_map orig_to_new_ordinal_map =
     Inr (new_ordinal_map, orig_to_new_ordinal_map)"
| "orig_to_new_loop (old_it # rest) remove_dylib_set stub_path new_ordinal_map
      orig_to_new_ordinal_map =
     (let orig_lib = fst old_it; orig_ord = snd old_it
      in if map_contains new_ordinal_map orig_lib then
           (case map_index new_ordinal_map orig_lib of
              (new_ord, new_ordinal_map') \<Rightarrow>
                orig_to_new_loop rest remove_dylib_set stub_path new_ordinal_map'
                  (map_emplace orig_ord new_ord orig_to_new_ordinal_map))
         else if orig_lib \<notin> set remove_dylib_set then Inl AssertionFailed
         else
           (case map_index new_ordinal_map stub_path of
              (new_ord, new_ordinal_map') \<Rightarrow>
                orig_to_new_loop rest remove_dylib_set stub_path new_ordinal_map'
                  (map_emplace orig_ord new_ord orig_to_new_ordinal_map)))"

text \<open>
  Lines 382-385: every binding record is looked up with \<^verbatim>\<open>at\<close>, which
  throws for an ordinal that is not a key.
\<close>

fun update_bindings :: "(int \<times> int) list \<Rightarrow> BindingInfo list \<Rightarrow> error + BindingInfo list" where
  "update_bindings orig_to_new_ordinal_map [] = Inr []"
| "update_bindings orig_to_new_ordinal_map (info # rest) =
     (case map_of orig_to_new_ordinal_map (library_ordinal info) of
        None \<Rightarrow> Inl OrdinalOutOfRange
      | Some new_ord \<Rightarrow>
          (case update_bindings orig_to_new_ordinal_map rest of
             Inl e \<Rightarrow> Inl e
           | Inr rest' \<Rightarrow> Inr (info\<lparr>library_ordinal := new_ord\<rparr> # rest')))"

text \<open>
  Lines 390-404, the body of the loop for one symbol. The ordinal read from the
  descriptor is widened to look it up; the new ordinal is an \<^verbatim>\<open>int32_t\<close>
  and is narrowed to the \<^verbatim>\<open>uint8_t\<close> parameter of
  \<^verbatim>\<open>set_library_ordinal\<close>.
\<close>

definition update_symbol :: "(int \<times> int) list \<Rightarrow> Symbol \<Rightarrow> error + Symbol" where
  "update_symbol orig_to_new_ordinal_map symb =
     (if origin symb \<noteq> SYM_ORIGIN_LC_SYMTAB then Inr symb
      else
        let orig_ord = get_library_ordinal (description symb)
        in if orig_ord = SELF_LIBRARY_ORDINAL \<or> orig_ord = DYNAMIC_LOOKUP_ORDINAL
              \<or> orig_ord = EXECUTABLE_ORDINAL
           then Inr symb
           else
             (case map_of orig_to_new_ordinal_map (uint orig_ord) of
                None \<Rightarrow> Inl OrdinalOutOfRange
              | Some new_ord \<Rightarrow>
                  Inr (symb\<lparr>description :=
                         set_library_ordinal (description symb) (word_of_int new_ord)\<rparr>)))"

fun update_symtab :: "(int \<times> int) list \<Rightarrow> Symbol list \<Rightarrow> error + Symbol list" where
  "update_symtab orig_to_new_ordinal_map [] = Inr []"
| "update_symtab orig_to_new_ordinal_map (symb # rest) =
     (case update_symbol orig_to_new_ordinal_map symb of
        Inl e \<Rightarrow> Inl e
      | Inr symb' \<Rightarrow>
          (case update_symtab orig_to_new_ordinal_map rest of
             Inl e \<Rightarrow> Inl e
           | Inr rest' \<Rightarrow> Inr (symb' # rest')))"

section \<open>One image\<close>

text \<open>
  Lines 335-353: the table after the removals and, when a symbol lost its
  dependency, after the stub entry is added; with it the path that
  \<^verbatim>\<open>stub_path\<close> holds from then on.
\<close>

definition add_stub :: "arguments \<Rightarrow> string list \<Rightarrow> string \<Rightarrow> Binary \<Rightarrow> string \<times> Binary" where
  "add_stub args remove_sym_set stub_path binary =
     (if remove_sym_set \<noteq> []
      then (new_stub_path args, binary_add (load_dylib (new_stub_path args)) binary)
      else (stub_path, binary))"

text \<open>
  Lines 365-404 on the edited image: the map from old to new ordinals, then the
  binding records (a missing binding table is a null pointer), then the symbol
  table.
\<close>

definition rewrite_ordinals ::
  "(string \<times> int) list \<Rightarrow> string list \<Rightarrow> string \<Rightarrow> Binary \<Rightarrow> error + Binary" where
  "rewrite_ordinals orig_ordinal_map remove_dylib_set stub_path binary =
     (case orig_to_new_loop orig_ordinal_map remove_dylib_set stub_path
             (ordinal_map (libraries binary)) [] of
        Inl e \<Rightarrow> Inl e
      | Inr (new_ordinal_map, orig_to_new_ordinal_map) \<Rightarrow>
          (case dyld_info binary of
             None \<Rightarrow> Inl NullDereference
           | Some bindings \<Rightarrow>
               (case update_bindings orig_to_new_ordinal_map bindings of
                  Inl e \<Rightarrow> Inl e
                | Inr bindings' \<Rightarrow>
                    (case update_symtab orig_to_new_ordinal_map (symbols binary) of
                       Inl e \<Rightarrow> Inl e
                     | Inr symbols' \<Rightarrow>
                         Inr (binary\<lparr>dyld_info := Some bindings', symbols := symbols'\<rparr>)))))"

text \<open>
  Lines 170-404 for one image of the input: the rewritten image, the path held
  by \<^verbatim>\<open>stub_path\<close> and \<^verbatim>\<open>remove_sym_set\<close>. Of the header patches of
  lines 196-302 the file type (asserted, then set) and the new self-identity
  entry are kept; the others set a header flag or remove and add load commands,
  segments and sections that are neither dependency entries, binding records
  nor symbols, and the one assertion among them
  (\<^verbatim>\<open>assert(binary.remove_signature())\<close>) is on a result of the object
  model. The options that only guard these patches or the log output
  (\<^verbatim>\<open>remove_info_plist\<close>, \<^verbatim>\<open>ios\<close>, \<^verbatim>\<open>macos\<close>, \<^verbatim>\<open>verbose\<close>) are
  not arguments of the model.
\<close>

definition remap_binary ::
  "environment \<Rightarrow> arguments \<Rightarrow> string \<Rightarrow> Binary \<Rightarrow> error + (Binary \<times> string \<times> string list)" where
  "remap_binary env args stub_path binary =
     (let orig_libraries = orig_libraries_loop (libraries binary) [];
          orig_ordinal_map = ordinal_map (libraries binary);
          orig_syms_to_libs = syms_to_libs_loop binary (symbols binary) [];
          binary1 = binary_add (id_dylib (new_dylib_path args)) (binary\<lparr>file_type := MH_DYLIB\<rparr>)
      in if file_type binary \<noteq> MH_EXECUTE then Inl InvalidInput
         else
           (case remove_dylib_set_of env args orig_libraries of
              Inl e \<Rightarrow> Inl e
            | Inr remove_dylib_set \<Rightarrow>
                (case remove_loop orig_libraries remove_dylib_set binary1 of
                   Inl e \<Rightarrow> Inl e
                 | Inr binary2 \<Rightarrow>
                     (case add_stub args
                             (remove_sym_set_loop remove_dylib_set orig_syms_to_libs [])
                             stub_path binary2 of
                        (stub_path', binary3) \<Rightarrow>
                          (case rewrite_ordinals orig_ordinal_map remove_dylib_set
                                  stub_path' binary3 of
                             Inl e \<Rightarrow> Inl e
                           | Inr binary4 \<Rightarrow>
                               Inr (binary4, stub_path',
                                    remove_sym_set_loop remove_dylib_set
                                      orig_syms_to_libs []))))))"

text \<open>
  The body of the loop over the images (lines 169-421): the remapping, then the
  stub library of this image when a symbol lost its dependency.
\<close>

definition dylibify_binary ::
  "environment \<Rightarrow> arguments \<Rightarrow> string \<times> string list \<Rightarrow> Binary
    \<Rightarrow> event list \<times> (error + (Binary \<times> string \<times> string list))" where
  "dylibify_binary env args st binary =
     (case remap_binary env args (fst st) binary of
        Inl e \<Rightarrow> ([], Inl e)
      | Inr (binary', stub_path, remove_sym_set) \<Rightarrow>
          if remove_sym_set \<noteq> [] then
            (case create_thin_stub_dylib env (out_dir args) stub_path remove_sym_set
                    (cpu_type binary') of
               (evs, Inl e) \<Rightarrow> (evs, Inl e)
             | (evs, Inr None) \<Rightarrow> (evs, Inl ToolchainFailure)
             | (evs, Inr (Some thin_stub_path)) \<Rightarrow>
                 (evs, Inr (binary', stub_path, snd st @ [thin_stub_path])))
          else ([], Inr (binary', stub_path, snd st)))"

section \<open>The whole conversion\<close>

text \<open>
  The loop over the images of the input: \<^verbatim>\<open>stub_path\<close> and
  \<^verbatim>\<open>thin_stubs\<close> live across the iterations, the images are edited in place,
  and the first image that fails ends the run.
\<close>

fun dylibify_loop ::
  "environment \<Rightarrow> arguments \<Rightarrow> Binary list \<Rightarrow> string \<times> string list \<Rightarrow> Binary list
    \<Rightarrow> event list \<times> (error + (Binary list \<times> string \<times> string list))" where
  "dylibify_loop env args [] st processed = ([], Inr (processed, st))"
| "dylibify_loop env args (binary # rest) st processed =
     (case dylibify_binary env args st binary of
        (evs, Inl e) \<Rightarrow> (evs, Inl e)
      | (evs, Inr (binary', st')) \<Rightarrow>
          (case dylibify_loop env args rest st' (processed @ [binary']) of
             (evs', r) \<Rightarrow> (evs @ evs', r)))"

text \<open>
  \<^verbatim>\<open>dylibify\<close> (lines 152-435) on the images that
  \<^verbatim>\<open>Parser::parse\<close> returned; \<open>stub_path0\<close> is what \<^verbatim>\<open>stub_path\<close>
  holds before the first image. \<open>Inr ()\<close> is \<^verbatim>\<open>return true\<close>; the
  serialisation by \<^verbatim>\<open>binaries->write(out_path)\<close> is the last statement
  before it.
\<close>

definition dylibify ::
  "environment \<Rightarrow> arguments \<Rightarrow> string \<Rightarrow> Binary list \<Rightarrow> event list \<times> (error + unit)" where
  "dylibify env args stub_path0 binaries =
     (case dylibify_loop env args binaries (stub_path0, []) [] of
        (evs, Inl e) \<Rightarrow> (evs, Inl e)
      | (evs, Inr (binaries', stub_path, thin_stubs)) \<Rightarrow>
          if thin_stubs \<noteq> [] then
            (case create_fat_stub_dylib env (out_dir args) thin_stubs of
               (evs', False) \<Rightarrow> (evs @ evs', Inl ToolchainFailure)
             | (evs', True) \<Rightarrow> (evs @ evs' @ [WroteImage binaries'], Inr ()))
          else (evs @ [WroteImage binaries'], Inr ()))"

section \<open>Notions used to state the properties\<close>

text \<open>
  The names of the dependency entries that take part in the numbering, in
  declaration order: the entries the two numbering loops do not skip.
\<close>

definition dependency_names :: "DylibCommand list \<Rightarrow> string list" where
  "dependency_names libs = map name (filter (\<lambda>c. command c \<noteq> LC_ID_DYLIB) libs)"

text \<open>
  An ordinal resolves in a table when it is the position, counted from 1, of one
  of these entries.
\<close>

definition resolves :: "DylibCommand list \<Rightarrow> int \<Rightarrow> bool" where
  "resolves libs ord = (1 \<le> ord \<and> ord \<le> int (length (dependency_names libs)))"

text \<open>
  The new ordinal that the loop of lines 365-377 stores for an original name:
  the name's ordinal in the new table when it has one, otherwise what the new
  table holds for the stub path, and 0 when it holds nothing.
\<close>

definition assigned_ordinal :: "string \<Rightarrow> (string \<times> int) list \<Rightarrow> string \<Rightarrow> int" where
  "assigned_ordinal stub_path new_ordinal_map orig_lib =
     (case map_of new_ordinal_map orig_lib of
        Some new_ord \<Rightarrow> new_ord
      | None \<Rightarrow> (case map_of new_ordinal_map stub_path of Some new_ord \<Rightarrow> new_ord | None \<Rightarrow> 0))"

text \<open>
  The name of the dependency a symbol is bound to, as lines 188-194 read it: the
  name of the entry that the symbol's binding record points to, when the symbol
  has a binding record and the record has an entry.
\<close>

definition sym_library :: "Binary \<Rightarrow> Symbol \<Rightarrow> string option" where
  "sym_library binary symb =
     (case sym_binding_info binary symb of
        None \<Rightarrow> None
      | Some info \<Rightarrow> map_option name (library info))"

text \<open>
  An ordinal names a removed dependency when it is the ordinal that the
  original table gives to a name of the removal set.
\<close>

definition removed_ordinal :: "Binary \<Rightarrow> string list \<Rightarrow> int \<Rightarrow> bool" where
  "removed_ordinal binary remove_dylib_set ord =
     (\<exists>n \<in> set remove_dylib_set. map_of (ordinal_map (libraries binary)) n = Some ord)"

text \<open>
  A symbol is orphaned by a removal when one of its references names a removed
  dependency: the ordinal of its binding record, or the ordinal field of its
  legacy descriptor when the symbol comes from the symbol table and the field
  is not a sentinel. The orphan set of an image holds its orphaned symbols.
\<close>

definition orphaned :: "Binary \<Rightarrow> string list \<Rightarrow> Symbol \<Rightarrow> bool" where
  "orphaned binary remove_dylib_set symb =
     ((case sym_binding_info binary symb of
         None \<Rightarrow> False
       | Some info \<Rightarrow> removed_ordinal binary remove_dylib_set (library_ordinal info))
      \<or> (origin symb = SYM_ORIGIN_LC_SYMTAB
           \<and> \<not> symtab_sentinel (get_library_ordinal (description symb))
           \<and> removed_ordinal binary remove_dylib_set
                (uint (get_library_ordinal (description symb)))))"

definition orphan_set :: "Binary \<Rightarrow> string list \<Rightarrow> Symbol list" where
  "orphan_set binary remove_dylib_set =
     filter (orphaned binary remove_dylib_set) (symbols binary)"

text \<open>
  Three properties of an image as a parser delivers it. The entry that a
  symbol's binding record points to is the one its ordinal names: the record
  has an entry whose name the original table maps to the record's ordinal, or
  it has none and no name has that ordinal.
\<close>

definition library_resolved :: "Binary \<Rightarrow> Symbol \<Rightarrow> bool" where
  "library_resolved binary symb =
     (case sym_binding_info binary symb of
        None \<Rightarrow> True
      | Some info \<Rightarrow>
          (case library info of
             Some lib \<Rightarrow>
               map_of (ordinal_map (libraries binary)) (name lib) = Some (library_ordinal info)
           | None \<Rightarrow> library_ordinal info \<notin> snd ` set (ordinal_map (libraries binary))))"

text \<open>
  A symbol of the symbol table whose descriptor holds an ordinal that is not a
  sentinel has a binding record with that ordinal.
\<close>

definition descriptor_bound :: "Binary \<Rightarrow> Symbol \<Rightarrow> bool" where
  "descriptor_bound binary symb =
     (origin symb = SYM_ORIGIN_LC_SYMTAB
        \<and> \<not> symtab_sentinel (get_library_ordinal (description symb)) \<longrightarrow>
      (case sym_binding_info binary symb of
         None \<Rightarrow> False
       | Some info \<Rightarrow> library_ordinal info = uint (get_library_ordinal (description symb))))"

text \<open>Symbols of one name are bound to one dependency.\<close>

definition one_library_per_name :: "Binary \<Rightarrow> bool" where
  "one_library_per_name binary =
     (\<forall>s \<in> set (symbols binary). \<forall>t \<in> set (symbols binary).
        symbol_name s = symbol_name t \<and> sym_library binary s \<noteq> None
          \<and> sym_library binary t \<noteq> None \<longrightarrow>
        sym_library binary s = sym_library binary t)"

section \<open>Example inputs\<close>

text \<open>A legacy symbol whose descriptor holds ordinal 1 and flag bits \<open>0x10\<close>.\<close>

definition legacy_symbol :: Symbol where
  "legacy_symbol =
     \<lparr>symbol_name = ''_foo'', origin = SYM_ORIGIN_LC_SYMTAB, description = 0x0110,
      binding_info = None\<rparr>"

text \<open>A table of two dependencies, and one that declares the first name twice.\<close>

definition two_libs :: "DylibCommand list" where
  "two_libs = [load_dylib ''libA'', load_dylib ''libB'']"

definition dup_libs :: "DylibCommand list" where
  "dup_libs = [load_dylib ''libA'', load_dylib ''libA'', load_dylib ''libB'']"

text \<open>
  A host on which every library loads and every tool succeeds, one whose
  compiler returns 1 and one whose fusion tool returns 1; the arguments of
  three runs; the images of scenarios A
  and B with the images expected from them; an image with a binding record
  bound to the image itself.
\<close>

definition quiet_host :: environment where
  "quiet_host =
     \<lparr>dylib_exists = (\<lambda>path. True), file_writable = (\<lambda>file. True),
      subprocess_call = (\<lambda>argv. Some 0), subprocess_call_cmd = (\<lambda>cmd. Some 0)\<rparr>"

definition no_compiler_host :: environment where
  "no_compiler_host =
     \<lparr>dylib_exists = (\<lambda>path. True), file_writable = (\<lambda>file. True),
      subprocess_call = (\<lambda>argv. Some 1), subprocess_call_cmd = (\<lambda>cmd. Some 0)\<rparr>"

definition no_lipo_host :: environment where
  "no_lipo_host =
     \<lparr>dylib_exists = (\<lambda>path. True), file_writable = (\<lambda>file. True),
      subprocess_call = (\<lambda>argv. Some 0), subprocess_call_cmd = (\<lambda>cmd. Some 1)\<rparr>"

definition remove_none :: arguments where
  "remove_none =
     \<lparr>remove_dylibs = [], auto_remove_dylibs = False,
      new_dylib_path = ''@executable_path/out.dylib'',
      new_stub_path = ''@executable_path/dylibify-stubs.dylib'', out_dir = ''''\<rparr>"

definition remove_libA :: arguments where
  "remove_libA = remove_none\<lparr>remove_dylibs := [''libA'']\<rparr>"

definition remove_libC :: arguments where
  "remove_libC = remove_none\<lparr>remove_dylibs := [''libC'']\<rparr>"

definition scenario_A :: Binary where
  "scenario_A =
     \<lparr>file_type = MH_EXECUTE, cpu_type = CPU_TYPE_ARM64,
      libraries = [load_dylib ''libA'', load_dylib ''libB''],
      dyld_info = Some [\<lparr>library_ordinal = 2, library = Some (load_dylib ''libB'')\<rparr>],
      symbols = [\<lparr>symbol_name = ''_bar'', origin = SYM_ORIGIN_LC_SYMTAB,
                  description = 0x0200, binding_info = Some 0\<rparr>]\<rparr>"

definition scenario_A_out :: Binary where
  "scenario_A_out =
     \<lparr>file_type = MH_DYLIB, cpu_type = CPU_TYPE_ARM64,
      libraries = [load_dylib ''libB'', id_dylib ''@executable_path/out.dylib''],
      dyld_info = Some [\<lparr>library_ordinal = 1, library = Some (load_dylib ''libB'')\<rparr>],
      symbols = [\<lparr>symbol_name = ''_bar'', origin = SYM_ORIGIN_LC_SYMTAB,
                  description = 0x0100, binding_info = Some 0\<rparr>]\<rparr>"

definition scenario_B :: Binary where
  "scenario_B =
     \<lparr>file_type = MH_EXECUTE, cpu_type = CPU_TYPE_ARM64,
      libraries = [load_dylib ''libA''],
      dyld_info = Some [\<lparr>library_ordinal = 1, library = Some (load_dylib ''libA'')\<rparr>,
                        \<lparr>library_ordinal = 1, library = Some (load_dylib ''libA'')\<rparr>],
      symbols = [\<lparr>symbol_name = ''_foo'', origin = SYM_ORIGIN_LC_SYMTAB,
                  description = 0x0100, binding_info = Some 0\<rparr>,
                 \<lparr>symbol_name = ''_OBJC_CLASS_$_Bar'', origin = SYM_ORIGIN_DYLD_BIND,
                  description = 0, binding_info = Some 1\<rparr>]\<rparr>"

definition scenario_B_out :: Binary where
  "scenario_B_out =
     \<lparr>file_type = MH_DYLIB, cpu_type = CPU_TYPE_ARM64,
      libraries = [id_dylib ''@executable_path/out.dylib'',
                   load_dylib ''@executable_path/dylibify-stubs.dylib''],
      dyld_info = Some [\<lparr>library_ordinal = 1, library = Some (load_dylib ''libA'')\<rparr>,
                        \<lparr>library_ordinal = 1, library = Some (load_dylib ''libA'')\<rparr>],
      symbols = [\<lparr>symbol_name = ''_foo'', origin = SYM_ORIGIN_LC_SYMTAB,
                  description = 0x0100, binding_info = Some 0\<rparr>,
                 \<lparr>symbol_name = ''_OBJC_CLASS_$_Bar'', origin = SYM_ORIGIN_DYLD_BIND,
                  description = 0, binding_info = Some 1\<rparr>]\<rparr>"

definition self_bound :: Binary where
  "self_bound =
     \<lparr>file_type = MH_EXECUTE, cpu_type = CPU_TYPE_ARM64,
      libraries = [load_dylib ''libA''],
      dyld_info = Some [\<lparr>library_ordinal = 0, library = None\<rparr>],
      symbols = []\<rparr>"

text \<open>
  An image with a binding record whose ordinal is outside the table; an image
  with symbols from both of its dependencies, and the image expected from it
  when the first dependency is removed; an image that declares one name twice,
  and the image the program makes of it.
\<close>

definition wild_ordinal :: Binary where
  "wild_ordinal =
     \<lparr>file_type = MH_EXECUTE, cpu_type = CPU_TYPE_ARM64,
      libraries = [load_dylib ''libA'', load_dylib ''libB''],
      dyld_info = Some [\<lparr>library_ordinal = 5, library = None\<rparr>],
      symbols = []\<rparr>"

definition mixed :: Binary where
  "mixed =
     \<lparr>file_type = MH_EXECUTE, cpu_type = CPU_TYPE_ARM64,
      libraries = [load_dylib ''libA'', load_dylib ''libB''],
      dyld_info = Some [\<lparr>library_ordinal = 1, library = Some (load_dylib ''libA'')\<rparr>,
                        \<lparr>library_ordinal = 2, library = Some (load_dylib ''libB'')\<rparr>],
      symbols = [\<lparr>symbol_name = ''_foo'', origin = SYM_ORIGIN_LC_SYMTAB,
                  description = 0x0100, binding_info = Some 0\<rparr>,
                 \<lparr>symbol_name = ''_bar'', origin = SYM_ORIGIN_LC_SYMTAB,
                  description = 0x0200, binding_info = Some 1\<rparr>]\<rparr>"

definition mixed_out :: Binary where
  "mixed_out =
     \<lparr>file_type = MH_DYLIB, cpu_type = CPU_TYPE_ARM64,
      libraries = [load_dylib ''libB'', id_dylib ''@executable_path/out.dylib'',
                   load_dylib ''@executable_path/dylibify-stubs.dylib''],
      dyld_info = Some [\<lparr>library_ordinal = 2, library = Some (load_dylib ''libA'')\<rparr>,
                        \<lparr>library_ordinal = 1, library = Some (load_dylib ''libB'')\<rparr>],
      symbols = [\<lparr>symbol_name = ''_foo'', origin = SYM_ORIGIN_LC_SYMTAB,
                  description = 0x0200, binding_info = Some 0\<rparr>,
                 \<lparr>symbol_name = ''_bar'', origin = SYM_ORIGIN_LC_SYMTAB,
                  description = 0x0100, binding_info = Some 1\<rparr>]\<rparr>"

definition dup_image :: Binary where
  "dup_image =
     \<lparr>file_type = MH_EXECUTE, cpu_type = CPU_TYPE_ARM64,
      libraries = [load_dylib ''libA'', load_dylib ''libA''],
      dyld_info = Some [\<lparr>library_ordinal = 1, library = Some (load_dylib ''libA'')\<rparr>],
      symbols = [\<lparr>symbol_name = ''_foo'', origin = SYM_ORIGIN_DYLD_BIND,
                  description = 0, binding_info = Some 0\<rparr>]\<rparr>"

definition dup_image_out :: Binary where
  "dup_image_out =
     \<lparr>file_type = MH_DYLIB, cpu_type = CPU_TYPE_ARM64,
      libraries = [load_dylib ''libA'', id_dylib ''@executable_path/out.dylib'',
                   load_dylib ''@executable_path/dylibify-stubs.dylib''],
      dyld_info = Some [\<lparr>library_ordinal = 1, library = Some (load_dylib ''libA'')\<rparr>],
      symbols = [\<lparr>symbol_name = ''_foo'', origin = SYM_ORIGIN_DYLD_BIND,
                  description = 0, binding_info = Some 0\<rparr>]\<rparr>"

text \<open>
  An image with two symbols of one name, the first bound to \<open>libB\<close> and the
  second to \<open>libA\<close>, and an image whose only reference to \<open>libA\<close> is the
  descriptor of a symbol without a binding record; with each the image the
  program makes of it when \<open>libA\<close> is removed.
\<close>

definition shadowed :: Binary where
  "shadowed =
     \<lparr>file_type = MH_EXECUTE, cpu_type = CPU_TYPE_ARM64,
      libraries = [load_dylib ''libA'', load_dylib ''libB''],
      dyld_info = Some [\<lparr>library_ordinal = 2, library = Some (load_dylib ''libB'')\<rparr>,
                        \<lparr>library_ordinal = 1, library = Some (load_dylib ''libA'')\<rparr>],
      symbols = [\<lparr>symbol_name = ''_foo'', origin = SYM_ORIGIN_DYLD_BIND,
                  description = 0, binding_info = Some 0\<rparr>,
                 \<lparr>symbol_name = ''_foo'', origin = SYM_ORIGIN_DYLD_BIND,
                  description = 0, binding_info = Some 1\<rparr>]\<rparr>"

definition shadowed_out :: Binary where
  "shadowed_out =
     \<lparr>file_type = MH_DYLIB, cpu_type = CPU_TYPE_ARM64,
      libraries = [load_dylib ''libB'', id_dylib ''@executable_path/out.dylib''],
      dyld_info = Some [\<lparr>library_ordinal = 1, library = Some (load_dylib ''libB'')\<rparr>,
                        \<lparr>library_ordinal = 0, library = Some (load_dylib ''libA'')\<rparr>],
      symbols = [\<lparr>symbol_name = ''_foo'', origin = SYM_ORIGIN_DYLD_BIND,
                  description = 0, binding_info = Some 0\<rparr>,
                 \<lparr>symbol_name = ''_foo'', origin = SYM_ORIGIN_DYLD_BIND,
                  description = 0, binding_info = Some 1\<rparr>]\<rparr>"

definition legacy_only :: Binary where
  "legacy_only =
     \<lparr>file_type = MH_EXECUTE, cpu_type = CPU_TYPE_ARM64,
      libraries = [load_dylib ''libA'', load_dylib ''libB''],
      dyld_info = Some [],
      symbols = [\<lparr>symbol_name = ''_foo'', origin = SYM_ORIGIN_LC_SYMTAB,
                  description = 0x0100, binding_info = None\<rparr>]\<rparr>"

definition legacy_only_out :: Binary where
  "legacy_only_out =
     \<lparr>file_type = MH_DYLIB, cpu_type = CPU_TYPE_ARM64,
      libraries = [load_dylib ''libB'', id_dylib ''@executable_path/out.dylib''],
      dyld_info = Some [],
      symbols = [\<lparr>symbol_name = ''_foo'', origin = SYM_ORIGIN_LC_SYMTAB,
                  description = 0x0000, binding_info = None\<rparr>]\<rparr>"

section \<open>The descriptor accessors\<close>

lemma low_byte_mask32: "(0x00FF :: 32 word) = mask 8"
  by (simp add: mask_eq_exp_minus_1)

lemma low_byte_mask16: "(0x00FF :: 16 word) = mask 8"
  by (simp add: mask_eq_exp_minus_1)

lemma get_set_library_ordinal:
  "get_library_ordinal (set_library_ordinal n_desc ordinal) = ordinal"
  unfolding get_library_ordinal_def set_library_ordinal_def low_byte_mask32
  by (rule bit_word_eqI) (auto simp add: bit_simps)

lemma set_library_ordinal_low_byte:
  "set_library_ordinal n_desc ordinal AND 0x00FF = n_desc AND 0x00FF"
  unfolding set_library_ordinal_def low_byte_mask32 low_byte_mask16
  by (rule bit_word_eqI) (auto simp add: bit_simps)

text \<open>
  Claim C8. For every 16-bit descriptor and every 8-bit ordinal, reading the
  ordinal field after writing it returns the ordinal written, and the write
  leaves the low byte of the descriptor as it was.
\<close>

theorem library_ordinal_write_read:
  "get_library_ordinal (set_library_ordinal n_desc ordinal) = ordinal
   \<and> set_library_ordinal n_desc ordinal AND 0x00FF = n_desc AND 0x00FF"
  by (simp only: get_set_library_ordinal set_library_ordinal_low_byte)

text \<open>
  Claim C9. When a legacy symbol is rewritten, the new ordinal \<open>v\<close> found in
  the old-to-new map is narrowed to eight bits before it is packed: the rewrite
  succeeds for every \<open>v\<close>, the ordinal stored is \<open>v mod 256\<close>, and so it is at
  most 255; a larger new ordinal wraps, it is not rejected.
\<close>

theorem legacy_ordinal_narrowed:
  assumes "origin symb = SYM_ORIGIN_LC_SYMTAB"
    and "\<not> symtab_sentinel (get_library_ordinal (description symb))"
    and "map_of orig_to_new_ordinal_map (uint (get_library_ordinal (description symb))) = Some v"
  shows "update_symbol orig_to_new_ordinal_map symb =
           Inr (symb\<lparr>description := set_library_ordinal (description symb) (word_of_int v)\<rparr>)
         \<and> uint (get_library_ordinal (set_library_ordinal (description symb) (word_of_int v)))
             = v mod 256
         \<and> uint (get_library_ordinal (set_library_ordinal (description symb) (word_of_int v)))
             \<le> 255"
  using assms
  by (simp add: update_symbol_def symtab_sentinel_def get_set_library_ordinal uint_word_of_int)

theorem legacy_ordinal_narrowed_witness:
  "origin legacy_symbol = SYM_ORIGIN_LC_SYMTAB
   \<and> \<not> symtab_sentinel (get_library_ordinal (description legacy_symbol))
   \<and> map_of [(1, 300 :: int)] (uint (get_library_ordinal (description legacy_symbol)))
       = Some 300
   \<and> update_symbol [(1, 300)] legacy_symbol = Inr (legacy_symbol\<lparr>description := 0x2C10\<rparr>)
   \<and> uint (get_library_ordinal (0x2C10 :: 16 word)) = 44"
proof -
  have h1: "origin legacy_symbol = SYM_ORIGIN_LC_SYMTAB"
    by (simp add: legacy_symbol_def)
  have d: "get_library_ordinal (description legacy_symbol) = 1"
    by (simp add: legacy_symbol_def get_library_ordinal_def)
  have h2: "\<not> symtab_sentinel (get_library_ordinal (description legacy_symbol))"
    by (simp add: d symtab_sentinel_def SELF_LIBRARY_ORDINAL_def DYNAMIC_LOOKUP_ORDINAL_def
        EXECUTABLE_ORDINAL_def)
  have h3: "map_of [(1, 300)] (uint (get_library_ordinal (description legacy_symbol)))
              = Some (300 :: int)"
    by (simp add: d)
  have s: "set_library_ordinal (description legacy_symbol) (word_of_int 300) = 0x2C10"
    by (simp add: legacy_symbol_def set_library_ordinal_def)
  have g: "uint (get_library_ordinal (0x2C10 :: 16 word)) = 44"
    by (simp add: get_library_ordinal_def)
  from legacy_ordinal_narrowed [OF h1 h2 h3, unfolded s] h1 h2 h3 g
  show ?thesis by blast
qed

section \<open>The stub source\<close>

lemma class_prefix_plain: "prefix objc_class_prefix s \<Longrightarrow> prefix plain_prefix s"
  by (auto simp add: objc_class_prefix_def plain_prefix_def prefix_def)

lemma stub_objc_loop_ok:
  "\<forall>s \<in> set stub_syms. prefix plain_prefix s \<Longrightarrow>
   stub_objc_loop stub_syms objc =
     Inr (objc @ concat (map (\<lambda>s. if prefix objc_class_prefix s
                                  then objc_class_stub (drop (length objc_class_prefix) s)
                                  else objc_function_stub (drop (length plain_prefix) s))
                          stub_syms))"
  by (induction stub_syms arbitrary: objc) simp_all

lemma stub_objc_loop_unclassifiable:
  "\<exists>s \<in> set stub_syms. \<not> prefix objc_class_prefix s \<and> \<not> prefix plain_prefix s \<Longrightarrow>
   stub_objc_loop stub_syms objc = Inl UnclassifiableSymbol"
  by (induction stub_syms arbitrary: objc) (auto dest: class_prefix_plain)

lemma sublist_concat_member:
  "x \<in> set xs \<Longrightarrow> sublist (f x) (pre @ concat (map f xs))"
proof -
  assume "x \<in> set xs"
  then obtain ys zs where "xs = ys @ x # zs" by (auto simp add: in_set_conv_decomp)
  then have "pre @ concat (map f xs) = (pre @ concat (map f ys)) @ f x @ concat (map f zs)"
    by simp
  then show ?thesis unfolding sublist_def by blast
qed

lemma length_objc_class_prefix: "length objc_class_prefix = 14"
  by (simp add: objc_class_prefix_def)

lemma length_plain_prefix: "length plain_prefix = 1"
  by (simp add: plain_prefix_def)

text \<open>
  Claim C7. For every set of orphaned symbols all of which match one of the two
  naming conventions, the generator returns a source that starts by undefining
  \<^verbatim>\<open>NDEBUG\<close> and including \<^verbatim>\<open>assert.h\<close>, so that assertions are
  active, and that holds, for each symbol with the class prefix
  \<^verbatim>\<open>_OBJC_CLASS_$_\<close>, the interface and the implementation, both without
  members, of a class named by the rest of the name, and for each other symbol
  a function named by the name without its underscore, whose whole body is the
  assertion of the negation of a string literal, which always fails, and whose
  string quotes that name. A set with a symbol that matches neither convention
  makes the generator fail its assertion, whatever else the set holds. The
  texts are written out, character by character; the double quote is
  \<open>CHR 0x22\<close> and the single quote \<open>CHR 0x27\<close>.
\<close>

theorem stub_source_contents:
  "((\<forall>s \<in> set stub_syms. prefix ''_OBJC_CLASS_$_'' s \<or> prefix ''_'' s) \<longrightarrow>
      (\<exists>objc. create_stub_objc stub_syms = Inr objc
         \<and> prefix ''\<newline>#undef NDEBUG\<newline>#include <assert.h>\<newline>'' objc
         \<and> (\<forall>s \<in> set stub_syms.
               (prefix ''_OBJC_CLASS_$_'' s \<longrightarrow>
                  sublist (''\<newline>@interface '' @ drop 14 s @ '' : NSObject\<newline>@end\<newline>''
                           @ ''@implementation '' @ drop 14 s @ ''\<newline>@end\<newline>'') objc)
             \<and> (\<not> prefix ''_OBJC_CLASS_$_'' s \<longrightarrow>
                  sublist (''\<newline>void '' @ drop 1 s @ ''(void) {\<newline>    assert(!''
                           @ [CHR 0x22] @ ''unimplemented symbols '' @ [CHR 0x27] @ drop 1 s
                           @ [CHR 0x27, CHR 0x22] @ '');\<newline>}\<newline>'') objc))))
   \<and> ((\<exists>s \<in> set stub_syms. \<not> prefix ''_OBJC_CLASS_$_'' s \<and> \<not> prefix ''_'' s) \<longrightarrow>
        create_stub_objc stub_syms = Inl UnclassifiableSymbol)"
proof (intro conjI impI)
  assume a: "\<forall>s \<in> set stub_syms. prefix ''_OBJC_CLASS_$_'' s \<or> prefix ''_'' s"
  then have "\<forall>s \<in> set stub_syms. prefix objc_class_prefix s \<or> prefix plain_prefix s"
    by (simp only: objc_class_prefix_def plain_prefix_def)
  then have p: "\<forall>s \<in> set stub_syms. prefix plain_prefix s"
    by (auto dest: class_prefix_plain)
  let ?f = "\<lambda>s. if prefix objc_class_prefix s
                  then objc_class_stub (drop (length objc_class_prefix) s)
                  else objc_function_stub (drop (length plain_prefix) s)"
  define src where "src = objc_header @ concat (map ?f stub_syms)"
  have e: "create_stub_objc stub_syms = Inr src"
    unfolding create_stub_objc_def src_def by (rule stub_objc_loop_ok [OF p])
  have h: "prefix ''\<newline>#undef NDEBUG\<newline>#include <assert.h>\<newline>'' src"
    by (simp add: src_def objc_header_def)
  have m: "sublist (?f s) src" if "s \<in> set stub_syms" for s
    unfolding src_def using that by (rule sublist_concat_member [of s stub_syms ?f objc_header])
  have c: "sublist (''\<newline>@interface '' @ drop 14 s @ '' : NSObject\<newline>@end\<newline>''
                           @ ''@implementation '' @ drop 14 s @ ''\<newline>@end\<newline>'') src"
    if "s \<in> set stub_syms" "prefix ''_OBJC_CLASS_$_'' s" for s
  proof -
    from that(2) have "?f s = ''\<newline>@interface '' @ drop 14 s @ '' : NSObject\<newline>@end\<newline>''
                           @ ''@implementation '' @ drop 14 s @ ''\<newline>@end\<newline>''"
      by (simp add: objc_class_prefix_def [symmetric] objc_class_stub_def length_objc_class_prefix)
    with m [OF that(1)] show ?thesis by (simp only:)
  qed
  have f: "sublist (''\<newline>void '' @ drop 1 s @ ''(void) {\<newline>    assert(!''
                           @ [CHR 0x22] @ ''unimplemented symbols '' @ [CHR 0x27] @ drop 1 s
                           @ [CHR 0x27, CHR 0x22] @ '');\<newline>}\<newline>'') src"
    if "s \<in> set stub_syms" "\<not> prefix ''_OBJC_CLASS_$_'' s" for s
  proof -
    from that(2) have "?f s = ''\<newline>void '' @ drop 1 s @ ''(void) {\<newline>    assert(!''
                           @ [CHR 0x22] @ ''unimplemented symbols '' @ [CHR 0x27] @ drop 1 s
                           @ [CHR 0x27, CHR 0x22] @ '');\<newline>}\<newline>''"
      by (simp add: objc_class_prefix_def [symmetric] objc_function_stub_def length_plain_prefix)
    with m [OF that(1)] show ?thesis by (simp only:)
  qed
  from e h c f
  show "\<exists>objc. create_stub_objc stub_syms = Inr objc
         \<and> prefix ''\<newline>#undef NDEBUG\<newline>#include <assert.h>\<newline>'' objc
         \<and> (\<forall>s \<in> set stub_syms.
               (prefix ''_OBJC_CLASS_$_'' s \<longrightarrow>
                  sublist (''\<newline>@interface '' @ drop 14 s @ '' : NSObject\<newline>@end\<newline>''
                           @ ''@implementation '' @ drop 14 s @ ''\<newline>@end\<newline>'') objc)
             \<and> (\<not> prefix ''_OBJC_CLASS_$_'' s \<longrightarrow>
                  sublist (''\<newline>void '' @ drop 1 s @ ''(void) {\<newline>    assert(!''
                           @ [CHR 0x22] @ ''unimplemented symbols '' @ [CHR 0x27] @ drop 1 s
                           @ [CHR 0x27, CHR 0x22] @ '');\<newline>}\<newline>'') objc))"
    by blast
next
  assume "\<exists>s \<in> set stub_syms. \<not> prefix ''_OBJC_CLASS_$_'' s \<and> \<not> prefix ''_'' s"
  then have "\<exists>s \<in> set stub_syms. \<not> prefix objc_class_prefix s \<and> \<not> prefix plain_prefix s"
    by (simp only: objc_class_prefix_def plain_prefix_def)
  then show "create_stub_objc stub_syms = Inl UnclassifiableSymbol"
    unfolding create_stub_objc_def by (rule stub_objc_loop_unclassifiable)
qed


theorem stub_source_contents_witness:
  "create_stub_objc [''_OBJC_CLASS_$_Bar'', ''_foo'']
     = Inr (''\<newline>#undef NDEBUG\<newline>#include <assert.h>\<newline>#import <Foundation/Foundation.h>\<newline>''
            @ ''\<newline>@interface Bar : NSObject\<newline>@end\<newline>@implementation Bar\<newline>@end\<newline>''
            @ ''\<newline>void foo(void) {\<newline>    assert(!'' @ [CHR 0x22]
            @ ''unimplemented symbols '' @ [CHR 0x27] @ ''foo'' @ [CHR 0x27, CHR 0x22]
            @ '');\<newline>}\<newline>'')
   \<and> sublist ''\<newline>@interface Bar : NSObject\<newline>@end\<newline>@implementation Bar\<newline>@end\<newline>''
       (projr (create_stub_objc [''_OBJC_CLASS_$_Bar'', ''_foo'']))
   \<and> sublist (''\<newline>void foo(void) {\<newline>    assert(!'' @ [CHR 0x22]
               @ ''unimplemented symbols '' @ [CHR 0x27] @ ''foo'' @ [CHR 0x27, CHR 0x22]
               @ '');\<newline>}\<newline>'')
       (projr (create_stub_objc [''_OBJC_CLASS_$_Bar'', ''_foo'']))
   \<and> prefix ''\<newline>#undef NDEBUG\<newline>#include <assert.h>\<newline>''
       (projr (create_stub_objc [''_OBJC_CLASS_$_Bar'', ''_foo'']))
   \<and> create_stub_objc [''_foo'', ''bar''] = Inl UnclassifiableSymbol"
proof -
  note t1 = stub_source_contents [of "[''_OBJC_CLASS_$_Bar'', ''_foo'']", THEN conjunct1]
  note t2 = stub_source_contents [of "[''_foo'', ''bar'']", THEN conjunct2]
  have e: "create_stub_objc [''_OBJC_CLASS_$_Bar'', ''_foo'']
     = Inr (''\<newline>#undef NDEBUG\<newline>#include <assert.h>\<newline>#import <Foundation/Foundation.h>\<newline>''
            @ ''\<newline>@interface Bar : NSObject\<newline>@end\<newline>@implementation Bar\<newline>@end\<newline>''
            @ ''\<newline>void foo(void) {\<newline>    assert(!'' @ [CHR 0x22]
            @ ''unimplemented symbols '' @ [CHR 0x27] @ ''foo'' @ [CHR 0x27, CHR 0x22]
            @ '');\<newline>}\<newline>'')"
    by (simp add: create_stub_objc_def objc_class_prefix_def plain_prefix_def objc_header_def
        objc_class_stub_def objc_function_stub_def)
  have h1: "\<forall>s \<in> set [''_OBJC_CLASS_$_Bar'', ''_foo'']. prefix ''_OBJC_CLASS_$_'' s \<or> prefix ''_'' s"
    by simp
  have h2: "\<exists>s \<in> set [''_foo'', ''bar'']. \<not> prefix ''_OBJC_CLASS_$_'' s \<and> \<not> prefix ''_'' s"
    by simp
  from t1 h1 obtain objc where o: "create_stub_objc [''_OBJC_CLASS_$_Bar'', ''_foo''] = Inr objc"
    and h: "prefix ''\<newline>#undef NDEBUG\<newline>#include <assert.h>\<newline>'' objc"
    and r: "\<forall>s \<in> set [''_OBJC_CLASS_$_Bar'', ''_foo''].
               (prefix ''_OBJC_CLASS_$_'' s \<longrightarrow>
                  sublist (''\<newline>@interface '' @ drop 14 s @ '' : NSObject\<newline>@end\<newline>''
                           @ ''@implementation '' @ drop 14 s @ ''\<newline>@end\<newline>'') objc)
             \<and> (\<not> prefix ''_OBJC_CLASS_$_'' s \<longrightarrow>
                  sublist (''\<newline>void '' @ drop 1 s @ ''(void) {\<newline>    assert(!''
                           @ [CHR 0x22] @ ''unimplemented symbols '' @ [CHR 0x27] @ drop 1 s
                           @ [CHR 0x27, CHR 0x22] @ '');\<newline>}\<newline>'') objc)"
    by blast
  from r have c: "sublist ''\<newline>@interface Bar : NSObject\<newline>@end\<newline>@implementation Bar\<newline>@end\<newline>'' objc"
    and f: "sublist (''\<newline>void foo(void) {\<newline>    assert(!'' @ [CHR 0x22]
               @ ''unimplemented symbols '' @ [CHR 0x27] @ ''foo'' @ [CHR 0x27, CHR 0x22]
               @ '');\<newline>}\<newline>'') objc"
    by simp_all
  from t2 h2 have u: "create_stub_objc [''_foo'', ''bar''] = Inl UnclassifiableSymbol"
    by blast
  from o h c f have "sublist ''\<newline>@interface Bar : NSObject\<newline>@end\<newline>@implementation Bar\<newline>@end\<newline>''
       (projr (create_stub_objc [''_OBJC_CLASS_$_Bar'', ''_foo'']))
   \<and> sublist (''\<newline>void foo(void) {\<newline>    assert(!'' @ [CHR 0x22]
               @ ''unimplemented symbols '' @ [CHR 0x27] @ ''foo'' @ [CHR 0x27, CHR 0x22]
               @ '');\<newline>}\<newline>'')
       (projr (create_stub_objc [''_OBJC_CLASS_$_Bar'', ''_foo'']))
   \<and> prefix ''\<newline>#undef NDEBUG\<newline>#include <assert.h>\<newline>''
       (projr (create_stub_objc [''_OBJC_CLASS_$_Bar'', ''_foo'']))"
    by simp
  with e u show ?thesis by blast
qed


section \<open>Facts about the containers\<close>

lemma map_of_insort_key_fresh:
  "k \<notin> fst ` set m \<Longrightarrow> map_of (insort_key fst (k, v) m) = (map_of m)(k \<mapsto> v)"
proof (induction m)
  case Nil
  then show ?case by simp
next
  case (Cons a m)
  then have "fst a \<noteq> k" by auto
  with Cons show ?case by (cases a) (auto simp add: fun_upd_twist)
qed

lemma map_contains_iff: "map_contains m k \<longleftrightarrow> k \<in> fst ` set m"
  by (simp add: map_contains_def map_of_eq_None_iff)

lemma map_of_map_emplace:
  "map_of (map_emplace k v m) = (if map_of m k = None then (map_of m)(k \<mapsto> v) else map_of m)"
  by (simp add: map_emplace_def map_contains_def map_of_insort_key_fresh map_of_eq_None_iff)

lemma keys_map_emplace: "fst ` set (map_emplace k v m) = insert k (fst ` set m)"
  by (auto simp add: map_emplace_def map_contains_iff set_insort_key)

lemma set_set_emplace: "set (set_emplace x s) = insert x (set s)"
  by (auto simp add: set_emplace_def set_insort_key)

lemma map_of_map_index:
  "map_index m k = (v, m') \<Longrightarrow>
   v = (case map_of m k of Some w \<Rightarrow> w | None \<Rightarrow> 0)
   \<and> map_of m' = (if map_of m k = None then (map_of m)(k \<mapsto> 0) else map_of m)"
proof (cases "map_of m k")
  case None
  then have "k \<notin> fst ` set m" by (simp add: map_of_eq_None_iff)
  then have "map_of (insort_key fst (k, 0) m) = (map_of m)(k \<mapsto> 0)"
    by (rule map_of_insort_key_fresh)
  moreover assume "map_index m k = (v, m')"
  ultimately show ?thesis using None by (auto simp add: map_index_def)
next
  case (Some w)
  moreover assume "map_index m k = (v, m')"
  ultimately show ?thesis by (auto simp add: map_index_def)
qed

section \<open>Facts about the ordinal tables\<close>

lemma map_of_ordinal_map_loop:
  "map_of (ordinal_map_loop libs m idx) n =
     (case map_of m n of
        Some v \<Rightarrow> Some v
      | None \<Rightarrow>
          if n \<in> set (dependency_names libs)
          then Some (idx + int (length (takeWhile (\<lambda>x. x \<noteq> n) (dependency_names libs))))
          else None)"
proof (induction libs arbitrary: m idx)
  case Nil
  then show ?case by (simp add: dependency_names_def split: option.splits)
next
  case (Cons c libs)
  show ?case
  proof (cases "command c = LC_ID_DYLIB")
    case True
    then have d: "dependency_names (c # libs) = dependency_names libs"
      by (simp add: dependency_names_def)
    from True Cons show ?thesis by (simp add: d split: option.splits)
  next
    case False
    have d: "dependency_names (c # libs) = name c # dependency_names libs"
      using False by (simp add: dependency_names_def)
    show ?thesis
      using False Cons [of "map_emplace (name c) idx m" "idx + 1"]
      by (auto simp add: d map_of_map_emplace split: option.splits)
  qed
qed

lemma map_of_ordinal_map:
  "map_of (ordinal_map libs) n =
     (if n \<in> set (dependency_names libs)
      then Some (1 + int (length (takeWhile (\<lambda>x. x \<noteq> n) (dependency_names libs))))
      else None)"
  by (simp add: ordinal_map_def map_of_ordinal_map_loop)

lemma distinct_keys_insort_key:
  "k \<notin> fst ` set m \<Longrightarrow> distinct (map fst m) \<Longrightarrow> distinct (map fst (insort_key fst (k, v) m))"
  by (induction m) (auto simp add: set_insort_key)

lemma distinct_keys_map_emplace:
  "distinct (map fst m) \<Longrightarrow> distinct (map fst (map_emplace k v m))"
  by (simp add: map_emplace_def map_contains_iff distinct_keys_insort_key)

lemma distinct_keys_ordinal_map_loop:
  "distinct (map fst m) \<Longrightarrow> distinct (map fst (ordinal_map_loop libs m idx))"
  by (induction libs arbitrary: m idx) (simp_all add: distinct_keys_map_emplace)

lemma distinct_keys_ordinal_map: "distinct (map fst (ordinal_map libs))"
  by (simp add: ordinal_map_def distinct_keys_ordinal_map_loop)

lemma in_ordinal_map_iff:
  "(n, k) \<in> set (ordinal_map libs) \<longleftrightarrow>
     n \<in> set (dependency_names libs)
     \<and> k = 1 + int (length (takeWhile (\<lambda>x. x \<noteq> n) (dependency_names libs)))"
proof -
  have "(n, k) \<in> set (ordinal_map libs) \<longleftrightarrow> map_of (ordinal_map libs) n = Some k"
    by (simp add: distinct_keys_ordinal_map)
  then show ?thesis by (auto simp add: map_of_ordinal_map)
qed

lemma takeWhile_neq_nth:
  "distinct xs \<Longrightarrow> i < length xs \<Longrightarrow> length (takeWhile (\<lambda>x. x \<noteq> xs ! i) xs) = i"
proof (induction xs arbitrary: i)
  case Nil
  then show ?case by simp
next
  case (Cons a xs)
  then show ?case by (cases i) auto
qed

lemma length_takeWhile_neq_less:
  "n \<in> set xs \<Longrightarrow> length (takeWhile (\<lambda>x. x \<noteq> n) xs) < length xs"
  by (induction xs) auto

lemma nth_length_takeWhile_neq:
  "n \<in> set xs \<Longrightarrow> xs ! length (takeWhile (\<lambda>x. x \<noteq> n) xs) = n"
  by (induction xs) auto

lemma first_occurrence_le:
  "i < length xs \<Longrightarrow> length (takeWhile (\<lambda>x. x \<noteq> xs ! i) xs) \<le> i"
proof (induction xs arbitrary: i)
  case Nil
  then show ?case by simp
next
  case (Cons a xs)
  then show ?case by (cases i) auto
qed

lemma ordinal_map_values:
  "snd ` set (ordinal_map libs) \<subseteq> {1 .. int (length (dependency_names libs))}"
proof
  fix k assume "k \<in> snd ` set (ordinal_map libs)"
  then obtain n where "(n, k) \<in> set (ordinal_map libs)" by auto
  then have n: "n \<in> set (dependency_names libs)"
    and k: "k = 1 + int (length (takeWhile (\<lambda>x. x \<noteq> n) (dependency_names libs)))"
    by (simp_all add: in_ordinal_map_iff)
  from length_takeWhile_neq_less [OF n] k
  show "k \<in> {1 .. int (length (dependency_names libs))}" by simp
qed

lemma keys_orig_to_new_loop:
  "orig_to_new_loop entries remove_dylib_set stub_path new_ordinal_map acc = Inr (nm', o2n) \<Longrightarrow>
   fst ` set o2n = fst ` set acc \<union> snd ` set entries"
proof (induction entries arbitrary: new_ordinal_map acc)
  case Nil
  then show ?case by simp
next
  case (Cons e entries)
  then show ?case
    by (auto simp add: Let_def keys_map_emplace split: if_splits prod.splits)
qed

lemma keys_ordinal_map: "fst ` set (ordinal_map libs) = set (dependency_names libs)"
proof (rule set_eqI)
  fix n
  have "n \<in> fst ` set (ordinal_map libs) \<longleftrightarrow> map_of (ordinal_map libs) n \<noteq> None"
    by (metis map_of_eq_None_iff)
  also have "\<dots> \<longleftrightarrow> n \<in> set (dependency_names libs)"
    by (simp add: map_of_ordinal_map)
  finally show "n \<in> fst ` set (ordinal_map libs) \<longleftrightarrow> n \<in> set (dependency_names libs)" .
qed

text \<open>
  Claim C3. For every dependency table whose entries other than the
  self-identity entry have pairwise distinct names, the ordinal table gives the
  entry at position \<open>i\<close> (from 0, in declaration order) the ordinal \<open>i + 1\<close>,
  its keys are exactly these names, and it maps them one-to-one onto \<open>1..N\<close>.
  The table of the image before the edits and the table recomputed after them
  are both built by \<open>ordinal_map\<close>, so this holds for each of them.
\<close>

theorem ordinal_assignment_bijective:
  assumes "distinct (dependency_names libs)"
  shows "(\<forall>i < length (dependency_names libs).
            map_of (ordinal_map libs) (dependency_names libs ! i) = Some (int i + 1))
       \<and> fst ` set (ordinal_map libs) = set (dependency_names libs)
       \<and> bij_betw (\<lambda>n. the (map_of (ordinal_map libs) n))
            (set (dependency_names libs)) {1 .. int (length (dependency_names libs))}"
proof (intro conjI allI impI)
  fix i assume i: "i < length (dependency_names libs)"
  then show "map_of (ordinal_map libs) (dependency_names libs ! i) = Some (int i + 1)"
    by (simp add: map_of_ordinal_map takeWhile_neq_nth [OF assms])
next
  show "fst ` set (ordinal_map libs) = set (dependency_names libs)"
    by (rule keys_ordinal_map)
next
  let ?names = "dependency_names libs"
  let ?f = "\<lambda>n. the (map_of (ordinal_map libs) n)"
  have v: "?f (?names ! i) = int i + 1" if "i < length ?names" for i
    using that by (simp add: map_of_ordinal_map takeWhile_neq_nth [OF assms])
  have inj: "inj_on ?f (set ?names)"
  proof (rule inj_onI)
    fix x y assume "x \<in> set ?names" "y \<in> set ?names" and e: "?f x = ?f y"
    then obtain i j where "i < length ?names" "x = ?names ! i" "j < length ?names" "y = ?names ! j"
      by (auto simp add: in_set_conv_nth)
    with e v show "x = y" by auto
  qed
  have img: "?f ` set ?names = {1 .. int (length ?names)}"
  proof (rule set_eqI, rule iffI)
    fix k assume "k \<in> ?f ` set ?names"
    then obtain i where "i < length ?names" "k = ?f (?names ! i)"
      by (auto simp add: in_set_conv_nth)
    with v show "k \<in> {1 .. int (length ?names)}" by auto
  next
    fix k assume k: "k \<in> {1 .. int (length ?names)}"
    then have "nat (k - 1) < length ?names" by auto
    from v [OF this] k have "?f (?names ! nat (k - 1)) = k" by simp
    moreover have "?names ! nat (k - 1) \<in> set ?names"
      using \<open>nat (k - 1) < length ?names\<close> by simp
    ultimately show "k \<in> ?f ` set ?names" by (metis imageI)
  qed
  from inj img show "bij_betw ?f (set ?names) {1 .. int (length ?names)}"
    by (simp add: bij_betw_def)
qed

lemma later_duplicate_not_value:
  assumes "i < j" "j < length (dependency_names libs)"
    and "dependency_names libs ! i = dependency_names libs ! j"
  shows "int j + 1 \<notin> snd ` set (ordinal_map libs)"
proof
  let ?names = "dependency_names libs"
  assume "int j + 1 \<in> snd ` set (ordinal_map libs)"
  then obtain n where "(n, int j + 1) \<in> set (ordinal_map libs)" by auto
  then have n: "n \<in> set ?names" and j: "j = length (takeWhile (\<lambda>x. x \<noteq> n) ?names)"
    by (simp_all add: in_ordinal_map_iff)
  from nth_length_takeWhile_neq [OF n] j have nj: "?names ! j = n" by simp
  from assms have "i < length ?names" by simp
  from first_occurrence_le [OF this] assms(3) nj j have "j \<le> i" by simp
  with assms(1) show False by simp
qed

lemma values_onto_iff_distinct:
  "snd ` set (ordinal_map libs) = {1 .. int (length (dependency_names libs))}
   \<longleftrightarrow> distinct (dependency_names libs)"
proof
  let ?names = "dependency_names libs"
  assume onto: "snd ` set (ordinal_map libs) = {1 .. int (length ?names)}"
  show "distinct ?names"
  proof (rule ccontr)
    assume "\<not> distinct ?names"
    then obtain i j where ij: "i < j" "j < length ?names" "?names ! i = ?names ! j"
      by (auto simp add: distinct_conv_nth) (metis nat_neq_iff)
    from later_duplicate_not_value [OF ij] onto ij(2) show False by auto
  qed
next
  let ?names = "dependency_names libs"
  assume d: "distinct ?names"
  show "snd ` set (ordinal_map libs) = {1 .. int (length ?names)}"
  proof (rule equalityI [OF ordinal_map_values], rule subsetI)
    fix k assume k: "k \<in> {1 .. int (length ?names)}"
    then have l: "nat (k - 1) < length ?names" by auto
    then have "(?names ! nat (k - 1), k) \<in> set (ordinal_map libs)"
      using k by (simp add: in_ordinal_map_iff takeWhile_neq_nth [OF d])
    then show "k \<in> snd ` set (ordinal_map libs)" by force
  qed
qed

text \<open>
  Claim C10. The ordinal tables are keyed by name. When the entry at position
  \<open>j\<close> repeats the name of an earlier entry at position \<open>i\<close>, its positional
  ordinal \<open>j + 1\<close> is no value of the table, the name keeps the ordinal of an
  occurrence no later than \<open>i\<close>, every first occurrence still gets its
  positional ordinal (the counter advances for duplicates too), and \<open>j + 1\<close>
  is no key of the old-to-new map built from the table. The table covers
  \<open>1..N\<close> exactly when the names are pairwise distinct.
\<close>

theorem duplicate_name_ordinal_absent:
  assumes "i < j" "j < length (dependency_names libs)"
    and "dependency_names libs ! i = dependency_names libs ! j"
  shows "int j + 1 \<notin> snd ` set (ordinal_map libs)
       \<and> (\<exists>k. map_of (ordinal_map libs) (dependency_names libs ! j) = Some k \<and> k \<le> int i + 1)
       \<and> (\<forall>p < length (dependency_names libs).
             (\<forall>q < p. dependency_names libs ! q \<noteq> dependency_names libs ! p) \<longrightarrow>
             map_of (ordinal_map libs) (dependency_names libs ! p) = Some (int p + 1))
       \<and> (\<forall>remove_dylib_set stub_path new_ordinal_map new_ordinal_map' orig_to_new_ordinal_map.
             orig_to_new_loop (ordinal_map libs) remove_dylib_set stub_path new_ordinal_map []
               = Inr (new_ordinal_map', orig_to_new_ordinal_map) \<longrightarrow>
             map_of orig_to_new_ordinal_map (int j + 1) = None)
       \<and> (snd ` set (ordinal_map libs) = {1 .. int (length (dependency_names libs))}
            \<longleftrightarrow> distinct (dependency_names libs))"
proof (intro conjI allI impI)
  show "int j + 1 \<notin> snd ` set (ordinal_map libs)"
    by (rule later_duplicate_not_value [OF assms])
next
  let ?names = "dependency_names libs"
  from assms have "i < length ?names" by simp
  from first_occurrence_le [OF this] assms(3)
  have "length (takeWhile (\<lambda>x. x \<noteq> ?names ! j) ?names) \<le> i" by simp
  moreover have "?names ! j \<in> set ?names" using assms(2) by simp
  ultimately show "\<exists>k. map_of (ordinal_map libs) (?names ! j) = Some k \<and> k \<le> int i + 1"
    by (simp add: map_of_ordinal_map)
next
  let ?names = "dependency_names libs"
  fix p assume p: "p < length ?names" and f: "\<forall>q < p. ?names ! q \<noteq> ?names ! p"
  have "length (takeWhile (\<lambda>x. x \<noteq> ?names ! p) ?names) = p"
  proof (rule antisym [OF first_occurrence_le [OF p]], rule ccontr)
    let ?q = "length (takeWhile (\<lambda>x. x \<noteq> ?names ! p) ?names)"
    assume "\<not> p \<le> ?q"
    then have "?q < p" by simp
    moreover have "?names ! ?q = ?names ! p"
      by (rule nth_length_takeWhile_neq) (use p in simp)
    ultimately show False using f by blast
  qed
  with p show "map_of (ordinal_map libs) (?names ! p) = Some (int p + 1)"
    by (simp add: map_of_ordinal_map)
next
  fix remove_dylib_set stub_path new_ordinal_map new_ordinal_map' orig_to_new_ordinal_map
  assume "orig_to_new_loop (ordinal_map libs) remove_dylib_set stub_path new_ordinal_map []
            = Inr (new_ordinal_map', orig_to_new_ordinal_map)"
  from keys_orig_to_new_loop [OF this] later_duplicate_not_value [OF assms]
  show "map_of orig_to_new_ordinal_map (int j + 1) = None"
    by (simp add: map_of_eq_None_iff)
next
  show "snd ` set (ordinal_map libs) = {1 .. int (length (dependency_names libs))}
          \<longleftrightarrow> distinct (dependency_names libs)"
    by (rule values_onto_iff_distinct)
qed


lemma dependency_names_two_libs: "dependency_names two_libs = [''libA'', ''libB'']"
  by (simp add: dependency_names_def two_libs_def load_dylib_def)

lemma dependency_names_dup_libs: "dependency_names dup_libs = [''libA'', ''libA'', ''libB'']"
  by (simp add: dependency_names_def dup_libs_def load_dylib_def)

theorem ordinal_assignment_bijective_witness:
  "distinct (dependency_names two_libs)
   \<and> map_of (ordinal_map two_libs) ''libA'' = Some 1
   \<and> map_of (ordinal_map two_libs) ''libB'' = Some 2
   \<and> fst ` set (ordinal_map two_libs) = {''libA'', ''libB''}
   \<and> bij_betw (\<lambda>n. the (map_of (ordinal_map two_libs) n)) {''libA'', ''libB''} {1 .. 2}"
proof -
  have h: "distinct (dependency_names two_libs)"
    by (simp add: dependency_names_two_libs)
  note t = ordinal_assignment_bijective [OF h, unfolded dependency_names_two_libs]
  from t [THEN conjunct1, rule_format, of 0]
  have "map_of (ordinal_map two_libs) ''libA'' = Some 1"
    by simp
  moreover from t [THEN conjunct1, rule_format, of 1]
  have "map_of (ordinal_map two_libs) ''libB'' = Some 2"
    by simp
  moreover from t [THEN conjunct2, THEN conjunct1]
  have "fst ` set (ordinal_map two_libs) = {''libA'', ''libB''}"
    by auto
  moreover from t [THEN conjunct2, THEN conjunct2]
  have "bij_betw (\<lambda>n. the (map_of (ordinal_map two_libs) n)) {''libA'', ''libB''} {1 .. 2}"
    by (simp add: insert_commute)
  ultimately show ?thesis using h by simp
qed

theorem duplicate_name_ordinal_absent_witness:
  "(0 :: nat) < 1 \<and> 1 < length (dependency_names dup_libs)
   \<and> dependency_names dup_libs ! 0 = dependency_names dup_libs ! 1
   \<and> int 1 + 1 \<notin> snd ` set (ordinal_map dup_libs)
   \<and> ordinal_map dup_libs = [(''libA'', 1), (''libB'', 3)]
   \<and> \<not> distinct (dependency_names dup_libs)"
proof -
  have h1: "(0 :: nat) < 1" by simp
  have h2: "1 < length (dependency_names dup_libs)"
    by (simp add: dependency_names_dup_libs)
  have h3: "dependency_names dup_libs ! 0 = dependency_names dup_libs ! 1"
    by (simp add: dependency_names_dup_libs)
  have e: "ordinal_map dup_libs = [(''libA'', 1), (''libB'', 3)]"
    by (simp add: ordinal_map_def dup_libs_def load_dylib_def map_emplace_def map_contains_def)
  have d: "\<not> distinct (dependency_names dup_libs)"
    by (simp add: dependency_names_dup_libs)
  from duplicate_name_ordinal_absent [OF h1 h2 h3] h1 h2 h3 e d show ?thesis by blast
qed

section \<open>Facts about the remapping\<close>

lemma set_map_emplace_subset: "set (map_emplace k v m) \<subseteq> insert (k, v) (set m)"
  by (auto simp add: map_emplace_def set_insort_key)

lemma map_index_values:
  "map_index m k = (v, m') \<Longrightarrow> v \<in> insert 0 (snd ` set m) \<and> snd ` set m' \<subseteq> insert 0 (snd ` set m)"
  by (auto simp add: map_index_def set_insort_key split: option.splits dest!: map_of_SomeD)
    (metis snd_conv image_eqI)+

lemma values_orig_to_new_loop:
  "orig_to_new_loop entries remove_dylib_set stub_path new_ordinal_map acc = Inr (nm', o2n) \<Longrightarrow>
   snd ` set o2n \<subseteq> insert 0 (snd ` set acc \<union> snd ` set new_ordinal_map)"
proof (induction entries arbitrary: new_ordinal_map acc)
  case Nil
  then show ?case by auto
next
  case (Cons e entries)
  obtain orig_lib orig_ord where e: "e = (orig_lib, orig_ord)" by (cases e)
  from Cons.prems
  obtain k new_ord nm1 where
    mi: "map_index new_ordinal_map k = (new_ord, nm1)" and
    rest: "orig_to_new_loop entries remove_dylib_set stub_path nm1
             (map_emplace orig_ord new_ord acc) = Inr (nm', o2n)"
    by (auto simp add: e Let_def split: if_splits prod.splits)
  from map_index_values [OF mi]
  have v: "new_ord \<in> insert 0 (snd ` set new_ordinal_map)"
    and s: "snd ` set nm1 \<subseteq> insert 0 (snd ` set new_ordinal_map)" by simp_all
  have "snd ` set (map_emplace orig_ord new_ord acc) \<subseteq> insert new_ord (snd ` set acc)"
    using set_map_emplace_subset [of orig_ord new_ord acc] by force
  with Cons.IH [OF rest] v s show ?case by blast
qed

lemma update_bindings_Inr:
  "update_bindings o2n bindings = Inr bindings' \<Longrightarrow>
   (\<forall>info \<in> set bindings. map_of o2n (library_ordinal info) \<noteq> None)
   \<and> bindings' = map (\<lambda>info. info\<lparr>library_ordinal := the (map_of o2n (library_ordinal info))\<rparr>) bindings"
proof (induction bindings arbitrary: bindings')
  case Nil
  then show ?case by simp
next
  case (Cons info bindings)
  then show ?case by (auto split: option.splits sum.splits)
qed

lemma update_bindings_ok:
  "\<forall>info \<in> set bindings. map_of o2n (library_ordinal info) \<noteq> None \<Longrightarrow>
   update_bindings o2n bindings =
     Inr (map (\<lambda>info. info\<lparr>library_ordinal := the (map_of o2n (library_ordinal info))\<rparr>) bindings)"
  by (induction bindings) auto

lemma update_symtab_Inr:
  "update_symtab o2n syms = Inr syms' \<Longrightarrow>
   length syms' = length syms
   \<and> (\<forall>i < length syms. update_symbol o2n (syms ! i) = Inr (syms' ! i))"
proof (induction syms arbitrary: syms')
  case Nil
  then show ?case by simp
next
  case (Cons s syms)
  from Cons.prems obtain s' rest' where
    s: "update_symbol o2n s = Inr s'" and r: "update_symtab o2n syms = Inr rest'"
    and e: "syms' = s' # rest'"
    by (auto split: sum.splits)
  from Cons.IH [OF r] s e show ?case by (auto simp add: nth_Cons split: nat.splits)
qed

lemma update_symtab_ok:
  "\<forall>s \<in> set syms. \<exists>s'. update_symbol o2n s = Inr s' \<Longrightarrow>
   \<exists>syms'. update_symtab o2n syms = Inr syms'"
  by (induction syms) auto

lemma rewrite_ordinals_Inr:
  assumes "rewrite_ordinals orig_ordinal_map remove_dylib_set stub_path binary = Inr out"
  shows "\<exists>nm' o2n bindings bindings' syms'.
           orig_to_new_loop orig_ordinal_map remove_dylib_set stub_path
             (ordinal_map (libraries binary)) [] = Inr (nm', o2n)
           \<and> dyld_info binary = Some bindings
           \<and> update_bindings o2n bindings = Inr bindings'
           \<and> update_symtab o2n (symbols binary) = Inr syms'
           \<and> out = binary\<lparr>dyld_info := Some bindings', symbols := syms'\<rparr>"
  using assms unfolding rewrite_ordinals_def
  by (auto split: sum.splits option.splits prod.splits)

lemma remap_binary_Inr:
  assumes "remap_binary env args stub_path binary = Inr (out, stub_path', remove_sym_set)"
  shows "\<exists>remove_dylib_set binary2 binary3.
           file_type binary = MH_EXECUTE
           \<and> remove_dylib_set_of env args (orig_libraries_loop (libraries binary) []) = Inr remove_dylib_set
           \<and> remove_sym_set =
               remove_sym_set_loop remove_dylib_set (syms_to_libs_loop binary (symbols binary) []) []
           \<and> remove_loop (orig_libraries_loop (libraries binary) []) remove_dylib_set
                (binary_add (id_dylib (new_dylib_path args)) (binary\<lparr>file_type := MH_DYLIB\<rparr>))
               = Inr binary2
           \<and> add_stub args remove_sym_set stub_path binary2 = (stub_path', binary3)
           \<and> rewrite_ordinals (ordinal_map (libraries binary)) remove_dylib_set stub_path' binary3
               = Inr out"
  using assms unfolding remap_binary_def Let_def
  by (auto split: sum.splits prod.splits if_splits)


lemma narrowed_ordinal_in_range:
  assumes "0 \<le> v" "v \<le> M"
  shows "(word_of_int v :: 8 word) = 0
         \<or> (1 \<le> uint (word_of_int v :: 8 word) \<and> uint (word_of_int v :: 8 word) \<le> M)"
proof (cases "(word_of_int v :: 8 word) = 0")
  case True
  then show ?thesis by simp
next
  case False
  then have "uint (word_of_int v :: 8 word) \<noteq> 0"
    by (simp add: uint_0_iff)
  moreover have "0 \<le> uint (word_of_int v :: 8 word)" by simp
  ultimately have "1 \<le> uint (word_of_int v :: 8 word)" by linarith
  moreover have "uint (word_of_int v :: 8 word) = v mod 256"
    by (simp add: uint_word_of_int)
  moreover have "v mod 256 \<le> v"
    using assms(1) by (simp add: zmod_le_nonneg_dividend)
  ultimately show ?thesis using assms(2) by simp
qed

lemma update_symbol_unchanged:
  "origin s \<noteq> SYM_ORIGIN_LC_SYMTAB \<or> symtab_sentinel (get_library_ordinal (description s)) \<Longrightarrow>
   update_symbol o2n s = Inr s"
  by (auto simp add: update_symbol_def symtab_sentinel_def Let_def)

lemma update_symbol_rewrite:
  "origin s = SYM_ORIGIN_LC_SYMTAB \<Longrightarrow>
   \<not> symtab_sentinel (get_library_ordinal (description s)) \<Longrightarrow>
   update_symbol o2n s =
     (case map_of o2n (uint (get_library_ordinal (description s))) of
        None \<Rightarrow> Inl OrdinalOutOfRange
      | Some new_ord \<Rightarrow>
          Inr (s\<lparr>description := set_library_ordinal (description s) (word_of_int new_ord)\<rparr>))"
  by (auto simp add: update_symbol_def symtab_sentinel_def Let_def)

lemma updated_symbol_resolves:
  assumes "update_symbol o2n s = Inr s'" and "origin s' = SYM_ORIGIN_LC_SYMTAB"
    and "snd ` set o2n \<subseteq> {0 .. M}"
  shows "symtab_sentinel (get_library_ordinal (description s'))
         \<or> (1 \<le> uint (get_library_ordinal (description s'))
            \<and> uint (get_library_ordinal (description s')) \<le> M)"
proof (cases "origin s \<noteq> SYM_ORIGIN_LC_SYMTAB \<or> symtab_sentinel (get_library_ordinal (description s))")
  case True
  from update_symbol_unchanged [OF this, of o2n] assms(1) have "s' = s" by simp
  with True assms(2) show ?thesis by auto
next
  case False
  then have "origin s = SYM_ORIGIN_LC_SYMTAB"
    and "\<not> symtab_sentinel (get_library_ordinal (description s))" by simp_all
  from update_symbol_rewrite [OF this, of o2n] assms(1) obtain v where
    m: "map_of o2n (uint (get_library_ordinal (description s))) = Some v" and
    s': "s' = s\<lparr>description := set_library_ordinal (description s) (word_of_int v)\<rparr>"
    by (auto split: option.splits)
  from map_of_SomeD [OF m] assms(3) have "0 \<le> v" "v \<le> M" by force+
  from narrowed_ordinal_in_range [OF this] show ?thesis
    by (auto simp add: s' get_set_library_ordinal symtab_sentinel_def SELF_LIBRARY_ORDINAL_def)
qed

lemma ordinal_map_values_upto:
  "snd ` set (ordinal_map libs) \<subseteq> {0 .. int (length (dependency_names libs))}"
  using ordinal_map_values [of libs] by auto

text \<open>
  Claim C1. For every image, removal set and symbols, when the remapping of the
  image completes, every binding record of the result carries a sentinel
  ordinal or an ordinal that resolves in the dependency table of the result, and
  so does the descriptor of every legacy symbol of the result.
\<close>

theorem no_dangling_ordinal:
  assumes "remap_binary env args stub_path binary = Inr (out, stub_path', remove_sym_set)"
  shows "(\<exists>bindings. dyld_info out = Some bindings
            \<and> (\<forall>info \<in> set bindings.
                  binding_sentinel (library_ordinal info)
                  \<or> resolves (libraries out) (library_ordinal info)))
       \<and> (\<forall>s \<in> set (symbols out).
             origin s = SYM_ORIGIN_LC_SYMTAB \<longrightarrow>
               symtab_sentinel (get_library_ordinal (description s))
               \<or> resolves (libraries out) (uint (get_library_ordinal (description s))))"
proof -
  from remap_binary_Inr [OF assms] obtain remove_dylib_set binary3 where
    rw: "rewrite_ordinals (ordinal_map (libraries binary)) remove_dylib_set stub_path' binary3
           = Inr out"
    by blast
  from rewrite_ordinals_Inr [OF rw] obtain nm' o2n bindings bindings' syms' where
    loop: "orig_to_new_loop (ordinal_map (libraries binary)) remove_dylib_set stub_path'
             (ordinal_map (libraries binary3)) [] = Inr (nm', o2n)" and
    ub: "update_bindings o2n bindings = Inr bindings'" and
    us: "update_symtab o2n (symbols binary3) = Inr syms'" and
    out: "out = binary3\<lparr>dyld_info := Some bindings', symbols := syms'\<rparr>"
    by blast
  let ?M = "int (length (dependency_names (libraries out)))"
  have libs: "libraries out = libraries binary3" by (simp add: out)
  have "snd ` set o2n \<subseteq> insert 0 (snd ` set (ordinal_map (libraries binary3)))"
    using values_orig_to_new_loop [OF loop] by simp
  moreover have "insert 0 (snd ` set (ordinal_map (libraries binary3))) \<subseteq> {0 .. ?M}"
    using ordinal_map_values_upto [of "libraries binary3"] by (simp add: libs)
  ultimately have vals: "snd ` set o2n \<subseteq> {0 .. ?M}" by (rule subset_trans)
  have b: "binding_sentinel (library_ordinal info) \<or> resolves (libraries out) (library_ordinal info)"
    if "info \<in> set bindings'" for info
  proof -
    from update_bindings_Inr [OF ub] that obtain i where
      i: "i \<in> set bindings" "map_of o2n (library_ordinal i) \<noteq> None"
         "library_ordinal info = the (map_of o2n (library_ordinal i))"
      by auto
    then obtain v where "map_of o2n (library_ordinal i) = Some v" by auto
    from map_of_SomeD [OF this] vals i(3) \<open>map_of o2n (library_ordinal i) = Some v\<close>
    have "0 \<le> library_ordinal info \<and> library_ordinal info \<le> ?M" by force
    then show ?thesis by (auto simp add: binding_sentinel_def resolves_def)
  qed
  have s: "symtab_sentinel (get_library_ordinal (description s))
           \<or> resolves (libraries out) (uint (get_library_ordinal (description s)))"
    if "s \<in> set syms'" "origin s = SYM_ORIGIN_LC_SYMTAB" for s
  proof -
    from that(1) obtain i where i: "i < length syms'" "s = syms' ! i"
      by (auto simp add: in_set_conv_nth)
    with update_symtab_Inr [OF us] have "update_symbol o2n (symbols binary3 ! i) = Inr s"
      by simp
    from updated_symbol_resolves [OF this that(2) vals] show ?thesis
      by (simp add: resolves_def)
  qed
  from b s show ?thesis by (simp add: out)
qed


lemmas remap_eval =
  remap_binary_def remove_dylib_set_of_def add_stub_def rewrite_ordinals_def
  ordinal_map_def map_emplace_def map_contains_def map_index_def set_emplace_def
  binary_add_def binary_remove_def id_dylib_def load_dylib_def sym_binding_info_def
  update_symbol_def get_library_ordinal_def set_library_ordinal_def
  SELF_LIBRARY_ORDINAL_def DYNAMIC_LOOKUP_ORDINAL_def EXECUTABLE_ORDINAL_def

lemma run_A: "remap_binary quiet_host remove_libA [] scenario_A = Inr (scenario_A_out, [], [])"
  by (simp add: remap_eval quiet_host_def remove_libA_def remove_none_def scenario_A_def scenario_A_out_def)

lemma run_B:
  "remap_binary quiet_host remove_libA [] scenario_B =
     Inr (scenario_B_out, ''@executable_path/dylibify-stubs.dylib'', [''_OBJC_CLASS_$_Bar'', ''_foo''])"
  by (simp add: remap_eval quiet_host_def remove_libA_def remove_none_def scenario_B_def scenario_B_out_def)

lemma run_self: "remap_binary env remove_none stub_path self_bound = Inl OrdinalOutOfRange"
  by (simp add: remap_eval remove_none_def self_bound_def)


theorem no_dangling_ordinal_witness:
  "remap_binary quiet_host remove_libA [] scenario_B =
     Inr (scenario_B_out, ''@executable_path/dylibify-stubs.dylib'', [''_OBJC_CLASS_$_Bar'', ''_foo''])
   \<and> \<not> binding_sentinel 1
   \<and> resolves (libraries scenario_B_out) 1
   \<and> \<not> symtab_sentinel (get_library_ordinal 0x0100)
   \<and> resolves (libraries scenario_B_out) (uint (get_library_ordinal 0x0100))"
proof -
  note t = no_dangling_ordinal [OF run_B]
  let ?info = "\<lparr>library_ordinal = 1, library = Some (load_dylib ''libA'')\<rparr>"
  let ?s = "\<lparr>symbol_name = ''_foo'', origin = SYM_ORIGIN_LC_SYMTAB, description = 0x0100,
            binding_info = Some 0\<rparr>"
  have nb: "\<not> binding_sentinel 1" by (simp add: binding_sentinel_def)
  have ns: "\<not> symtab_sentinel (get_library_ordinal 0x0100)"
    by (simp add: symtab_sentinel_def get_library_ordinal_def SELF_LIBRARY_ORDINAL_def
        DYNAMIC_LOOKUP_ORDINAL_def EXECUTABLE_ORDINAL_def)
  from t have "\<forall>info \<in> set [?info, ?info].
      binding_sentinel (library_ordinal info) \<or> resolves (libraries scenario_B_out) (library_ordinal info)"
    by (simp add: scenario_B_out_def)
  with nb have rb: "resolves (libraries scenario_B_out) 1" by simp
  have "?s \<in> set (symbols scenario_B_out)" by (simp add: scenario_B_out_def)
  with t have "symtab_sentinel (get_library_ordinal (description ?s))
      \<or> resolves (libraries scenario_B_out) (uint (get_library_ordinal (description ?s)))"
    by (metis (no_types, lifting) Symbol.select_convs(2))
  with ns have rs: "resolves (libraries scenario_B_out) (uint (get_library_ordinal 0x0100))"
    by simp
  from run_B nb rb ns rs show ?thesis by simp
qed

section \<open>Events and failures of the whole conversion\<close>

lemma thin_stub_no_image:
  "WroteImage imgs \<notin> set (fst (create_thin_stub_dylib env od sp syms cpu))"
  by (simp add: create_thin_stub_dylib_def Let_def split: sum.splits option.splits)

lemma fat_stub_no_image:
  "WroteImage imgs \<notin> set (fst (create_fat_stub_dylib env od thin_stubs))"
  by (simp add: create_fat_stub_dylib_def Let_def split: option.splits)

lemma dylibify_binary_no_image:
  "WroteImage imgs \<notin> set (fst (dylibify_binary env args st binary))"
proof (cases "remap_binary env args (fst st) binary")
  case (Inl e)
  then show ?thesis by (simp add: dylibify_binary_def)
next
  case (Inr r)
  obtain binary' stub_path remove_sym_set where r: "r = (binary', stub_path, remove_sym_set)"
    by (cases r)
  show ?thesis
  proof (cases "remove_sym_set = []")
    case True
    with Inr r show ?thesis by (simp add: dylibify_binary_def)
  next
    case False
    obtain evs res where
      c: "create_thin_stub_dylib env (out_dir args) stub_path remove_sym_set (cpu_type binary')
            = (evs, res)"
      by (cases "create_thin_stub_dylib env (out_dir args) stub_path remove_sym_set (cpu_type binary')")
    from thin_stub_no_image [of imgs env "out_dir args" stub_path remove_sym_set "cpu_type binary'"] c
    have "WroteImage imgs \<notin> set evs" by simp
    with Inr r False c show ?thesis
      by (simp add: dylibify_binary_def split: sum.splits option.splits)
  qed
qed

lemma dylibify_loop_no_image:
  "WroteImage imgs \<notin> set (fst (dylibify_loop env args binaries st processed))"
proof (induction binaries arbitrary: st processed)
  case Nil
  then show ?case by simp
next
  case (Cons binary rest)
  obtain evs res where b: "dylibify_binary env args st binary = (evs, res)"
    by (cases "dylibify_binary env args st binary")
  from dylibify_binary_no_image [of imgs env args st binary] b
  have e: "WroteImage imgs \<notin> set evs" by simp
  show ?case
  proof (cases res)
    case (Inl err)
    with b e show ?thesis by simp
  next
    case (Inr r)
    obtain binary' st' where r: "r = (binary', st')" by (cases r)
    obtain evs' res' where
      l: "dylibify_loop env args rest st' (processed @ [binary']) = (evs', res')"
      by (cases "dylibify_loop env args rest st' (processed @ [binary'])")
    from Cons.IH [of st' "processed @ [binary']"] l have "WroteImage imgs \<notin> set evs'" by simp
    with b e Inr r l show ?thesis by simp
  qed
qed

text \<open>
  What holds of every run: a run that does not return success has written no
  image, and a run that returns success has written the images once, as its
  last effect.
\<close>

lemma dylibify_failure_no_image:
  assumes "snd (dylibify env args stub_path0 binaries) \<noteq> Inr ()"
  shows "WroteImage imgs \<notin> set (fst (dylibify env args stub_path0 binaries))"
proof -
  obtain evs res where l: "dylibify_loop env args binaries (stub_path0, []) [] = (evs, res)"
    by (cases "dylibify_loop env args binaries (stub_path0, []) []")
  from dylibify_loop_no_image [of imgs env args binaries "(stub_path0, [])" "[]"] l
  have e: "WroteImage imgs \<notin> set evs" by simp
  show ?thesis
  proof (cases res)
    case (Inl err)
    with l e show ?thesis by (simp add: dylibify_def)
  next
    case (Inr r)
    obtain binaries' stub_path thin_stubs where r: "r = (binaries', stub_path, thin_stubs)"
      by (cases r)
    obtain evs' ok where f: "create_fat_stub_dylib env (out_dir args) thin_stubs = (evs', ok)"
      by (cases "create_fat_stub_dylib env (out_dir args) thin_stubs")
    from fat_stub_no_image [of imgs env "out_dir args" thin_stubs] f
    have "WroteImage imgs \<notin> set evs'" by simp
    with assms l e Inr r f show ?thesis
      by (auto simp add: dylibify_def split: if_splits bool.splits)
  qed
qed

lemma dylibify_success_one_image:
  assumes "snd (dylibify env args stub_path0 binaries) = Inr ()"
  shows "\<exists>evs imgs. fst (dylibify env args stub_path0 binaries) = evs @ [WroteImage imgs]
           \<and> (\<forall>imgs'. WroteImage imgs' \<notin> set evs)"
proof -
  obtain evs res where l: "dylibify_loop env args binaries (stub_path0, []) [] = (evs, res)"
    by (cases "dylibify_loop env args binaries (stub_path0, []) []")
  from dylibify_loop_no_image [of _ env args binaries "(stub_path0, [])" "[]"] l
  have e: "\<And>imgs'. WroteImage imgs' \<notin> set evs" by simp
  from assms l obtain binaries' stub_path thin_stubs where
    r: "res = Inr (binaries', stub_path, thin_stubs)"
    by (cases res) (auto simp add: dylibify_def)
  obtain evs' ok where f: "create_fat_stub_dylib env (out_dir args) thin_stubs = (evs', ok)"
    by (cases "create_fat_stub_dylib env (out_dir args) thin_stubs")
  from fat_stub_no_image [of _ env "out_dir args" thin_stubs] f
  have e': "\<And>imgs'. WroteImage imgs' \<notin> set evs'" by simp
  show ?thesis
  proof (cases "thin_stubs = []")
    case True
    with l r e show ?thesis by (auto simp add: dylibify_def)
  next
    case False
    with assms l r f have "ok" by (auto simp add: dylibify_def split: bool.splits)
    with False l r f have "fst (dylibify env args stub_path0 binaries)
        = (evs @ evs') @ [WroteImage binaries']"
      by (simp add: dylibify_def)
    moreover from e e' have "\<forall>imgs'. WroteImage imgs' \<notin> set (evs @ evs')" by simp
    ultimately show ?thesis by blast
  qed
qed

lemma dylibify_loop_first_failure:
  assumes "dylibify_loop env args pre st0 processed0 = (evs, Inr (processed, st))"
    and "dylibify_binary env args st binary = (evs', Inl e)"
  shows "dylibify_loop env args (pre @ binary # post) st0 processed0 = (evs @ evs', Inl e)"
  using assms
proof (induction pre arbitrary: st0 processed0 evs)
  case Nil
  then show ?case by simp
next
  case (Cons p pre)
  from Cons.prems(1) obtain evs1 p' st1 evs2 where
    p: "dylibify_binary env args st0 p = (evs1, Inr (p', st1))" and
    r: "dylibify_loop env args pre st1 (processed0 @ [p']) = (evs2, Inr (processed, st))" and
    e: "evs = evs1 @ evs2"
    by (auto split: prod.splits sum.splits)
  from Cons.IH [OF r Cons.prems(2)] p e show ?case by simp
qed


lemma keys_orig_libraries_loop:
  "fst ` set (orig_libraries_loop libs m) = fst ` set m \<union> set (dependency_names libs)"
proof (induction libs arbitrary: m)
  case Nil
  then show ?case by (simp add: dependency_names_def)
next
  case (Cons c libs)
  show ?case
  proof (cases "command c = LC_ID_DYLIB")
    case True
    then have "dependency_names (c # libs) = dependency_names libs"
      by (simp add: dependency_names_def)
    with True Cons show ?thesis by simp
  next
    case False
    then have "dependency_names (c # libs) = name c # dependency_names libs"
      by (simp add: dependency_names_def)
    with False Cons [of "map_emplace (name c) c m"] show ?thesis
      by (simp add: keys_map_emplace)
  qed
qed

lemma keys_orig_libraries:
  "fst ` set (orig_libraries_loop libs []) = set (dependency_names libs)"
  by (simp add: keys_orig_libraries_loop)

lemma remove_dylib_set_loop_absent:
  "d \<in> set ds \<Longrightarrow> \<not> map_contains orig_libraries d \<Longrightarrow>
   remove_dylib_set_loop orig_libraries ds acc = Inl FormatError"
  by (induction ds arbitrary: acc) auto

lemma remap_binary_absent:
  assumes "file_type binary = MH_EXECUTE" and "d \<in> set (remove_dylibs args)"
    and "d \<notin> set (dependency_names (libraries binary))"
  shows "remap_binary env args stub_path binary = Inl FormatError"
proof -
  from assms(3) have "\<not> map_contains (orig_libraries_loop (libraries binary) []) d"
    by (simp add: map_contains_iff keys_orig_libraries)
  from remove_dylib_set_loop_absent [OF assms(2) this]
  have "remove_dylib_set_of env args (orig_libraries_loop (libraries binary) [])
          = Inl FormatError"
    by (simp add: remove_dylib_set_of_def)
  with assms(1) show ?thesis by (simp add: remap_binary_def)
qed

lemma thin_stub_compiler_fails:
  assumes "create_stub_objc syms = Inr objc" and "arch_map cpu = Some arch"
    and "file_writable env (fat_stub_stem @ ''.'' @ arch @ ''.m'')"
    and "\<forall>argv. subprocess_call env argv \<noteq> Some 0"
  shows "snd (create_thin_stub_dylib env od sp syms cpu) = Inr None"
  using assms
  by (auto simp add: create_thin_stub_dylib_def Let_def split: option.splits)

text \<open>
  The failure of an image after images that succeeded is the result of the run,
  whatever images follow.
\<close>

lemma first_failing_image_decides:
  assumes "dylibify_loop env args pre (stub_path0, []) [] = (evs0, Inr (processed, st))"
    and "dylibify_binary env args st binary = (evs1, Inl e)"
  shows "dylibify env args stub_path0 (pre @ binary # post) = (evs0 @ evs1, Inl e)"
proof -
  from assms
  have "dylibify_loop env args (pre @ binary # post) (stub_path0, []) []
          = (evs0 @ evs1, Inl e)"
    by (rule dylibify_loop_first_failure)
  then show ?thesis by (simp add: dylibify_def)
qed

text \<open>
  A compiler that cannot be run or returns non-zero fails the image with
  \<open>ToolchainFailure\<close>.
\<close>

lemma compiler_failure_fails:
  assumes "remap_binary env args (fst st) binary = Inr (binary', stub_path, remove_sym_set)"
    and "remove_sym_set \<noteq> []" and "create_stub_objc remove_sym_set = Inr objc"
    and "arch_map (cpu_type binary') = Some arch"
    and "file_writable env (fat_stub_stem @ ''.'' @ arch @ ''.m'')"
    and "\<forall>argv. subprocess_call env argv \<noteq> Some 0"
  shows "snd (dylibify_binary env args st binary) = Inl ToolchainFailure"
proof -
  from assms(3-6)
  have "snd (create_thin_stub_dylib env (out_dir args) stub_path remove_sym_set
                    (cpu_type binary')) = Inr None"
    by (rule thin_stub_compiler_fails)
  with assms(1,2) show ?thesis
    by (cases "create_thin_stub_dylib env (out_dir args) stub_path remove_sym_set (cpu_type binary')")
      (simp add: dylibify_binary_def)
qed

text \<open>
  When every image succeeded and a thin stub was built, a fusion tool that
  cannot be run or returns non-zero fails the run with \<open>ToolchainFailure\<close>,
  after the command and before any image is written.
\<close>

lemma fat_stub_fails:
  assumes "\<forall>cmd. subprocess_call_cmd env cmd \<noteq> Some 0"
  shows "snd (create_fat_stub_dylib env od thin_stubs) = False"
  using assms by (auto simp add: create_fat_stub_dylib_def Let_def split: option.splits)

lemma fusion_failure_fails:
  assumes "dylibify_loop env args binaries (stub_path0, []) []
             = (evs, Inr (binaries', stub_path, thin_stubs))"
    and "thin_stubs \<noteq> []"
    and "\<forall>cmd. subprocess_call_cmd env cmd \<noteq> Some 0"
  shows "dylibify env args stub_path0 binaries
           = (evs @ fst (create_fat_stub_dylib env (out_dir args) thin_stubs), Inl ToolchainFailure)
       \<and> WroteImage imgs \<notin> set (fst (dylibify env args stub_path0 binaries))"
proof -
  obtain evs' ok where f: "create_fat_stub_dylib env (out_dir args) thin_stubs = (evs', ok)"
    by (cases "create_fat_stub_dylib env (out_dir args) thin_stubs")
  with fat_stub_fails [OF assms(3), of "out_dir args" thin_stubs] have "\<not> ok" by simp
  with f assms(1,2) have d: "dylibify env args stub_path0 binaries
           = (evs @ fst (create_fat_stub_dylib env (out_dir args) thin_stubs), Inl ToolchainFailure)"
    by (simp add: dylibify_def)
  then have "snd (dylibify env args stub_path0 binaries) \<noteq> Inr ()" by simp
  from dylibify_failure_no_image [OF this] d show ?thesis by blast
qed

lemma run_A_whole:
  "dylibify quiet_host remove_libA [] [scenario_A] = ([WroteImage [scenario_A_out]], Inr ())"
  by (simp add: dylibify_def dylibify_binary_def run_A)

lemma run_B_no_compiler:
  "remap_binary no_compiler_host remove_libA [] scenario_B =
     Inr (scenario_B_out, ''@executable_path/dylibify-stubs.dylib'',
          [''_OBJC_CLASS_$_Bar'', ''_foo''])
   \<and> snd (dylibify no_compiler_host remove_libA [] [scenario_B]) = Inl ToolchainFailure
   \<and> WroteImage imgs \<notin> set (fst (dylibify no_compiler_host remove_libA [] [scenario_B]))"
proof -
  have rB: "remap_binary no_compiler_host remove_libA [] scenario_B =
     Inr (scenario_B_out, ''@executable_path/dylibify-stubs.dylib'', [''_OBJC_CLASS_$_Bar'', ''_foo''])"
    by (simp add: remap_eval no_compiler_host_def remove_libA_def remove_none_def scenario_B_def
        scenario_B_out_def)
  have oB: "create_stub_objc [''_OBJC_CLASS_$_Bar'', ''_foo'']
       = Inr (objc_header @ objc_class_stub ''Bar'' @ objc_function_stub ''foo'')"
    by (simp add: create_stub_objc_def objc_class_prefix_def plain_prefix_def)
  have cB: "arch_map (cpu_type scenario_B_out) = Some ''arm64''"
    by (simp add: scenario_B_out_def)
  have fB: "file_writable no_compiler_host (fat_stub_stem @ ''.'' @ ''arm64'' @ ''.m'')"
    by (simp add: no_compiler_host_def)
  have sB: "\<forall>argv. subprocess_call no_compiler_host argv \<noteq> Some 0"
    by (simp add: no_compiler_host_def)
  have "snd (dylibify_binary no_compiler_host remove_libA ([], []) scenario_B)
          = Inl ToolchainFailure"
    by (rule compiler_failure_fails [OF _ _ oB cB fB sB]) (simp_all add: rB)
  then have w2: "snd (dylibify no_compiler_host remove_libA [] [scenario_B]) = Inl ToolchainFailure"
    by (cases "dylibify_binary no_compiler_host remove_libA ([], []) scenario_B")
      (simp add: dylibify_def)
  then have "snd (dylibify no_compiler_host remove_libA [] [scenario_B]) \<noteq> Inr ()" by simp
  from dylibify_failure_no_image [OF this] rB w2 show ?thesis by blast
qed

lemma run_B_no_lipo:
  "dylibify no_lipo_host remove_libA [] [scenario_B]
     = ([WroteFile ''dylibify-stubs.arm64.m''
           (objc_header @ objc_class_stub ''Bar'' @ objc_function_stub ''foo''),
         Ran [''clang'', ''-arch'', ''arm64'', ''-o'', ''dylibify-stubs.arm64.dylib'',
              ''dylibify-stubs.arm64.m'', ''-shared'', ''-fobjc-arc'', ''-framework'',
              ''Foundation'', ''-Wl,-install_name,@executable_path/dylibify-stubs.dylib''],
         Ran [''lipo -create -output dylibify-stubs.dylib dylibify-stubs.arm64.dylib'']],
        Inl ToolchainFailure)"
proof -
  have rB: "remap_binary no_lipo_host remove_libA [] scenario_B =
     Inr (scenario_B_out, ''@executable_path/dylibify-stubs.dylib'', [''_OBJC_CLASS_$_Bar'', ''_foo''])"
    by (simp add: remap_eval no_lipo_host_def remove_libA_def remove_none_def scenario_B_def
        scenario_B_out_def)
  have oB: "create_stub_objc [''_OBJC_CLASS_$_Bar'', ''_foo'']
       = Inr (objc_header @ objc_class_stub ''Bar'' @ objc_function_stub ''foo'')"
    by (simp add: create_stub_objc_def objc_class_prefix_def plain_prefix_def)
  have t: "create_thin_stub_dylib no_lipo_host (out_dir remove_libA)
             ''@executable_path/dylibify-stubs.dylib'' [''_OBJC_CLASS_$_Bar'', ''_foo'']
             (cpu_type scenario_B_out)
           = ([WroteFile ''dylibify-stubs.arm64.m''
                 (objc_header @ objc_class_stub ''Bar'' @ objc_function_stub ''foo''),
               Ran [''clang'', ''-arch'', ''arm64'', ''-o'', ''dylibify-stubs.arm64.dylib'',
                    ''dylibify-stubs.arm64.m'', ''-shared'', ''-fobjc-arc'', ''-framework'',
                    ''Foundation'', ''-Wl,-install_name,@executable_path/dylibify-stubs.dylib'']],
              Inr (Some ''dylibify-stubs.arm64.dylib''))"
    by (simp add: create_thin_stub_dylib_def Let_def oB scenario_B_out_def no_lipo_host_def
        remove_libA_def remove_none_def fat_stub_stem_def fat_stub_extension_def path_append_def)
  have f: "create_fat_stub_dylib no_lipo_host (out_dir remove_libA) [''dylibify-stubs.arm64.dylib'']
           = ([Ran [''lipo -create -output dylibify-stubs.dylib dylibify-stubs.arm64.dylib'']],
              False)"
    by (simp add: create_fat_stub_dylib_def no_lipo_host_def remove_libA_def remove_none_def
        fat_stub_filename_def fat_stub_stem_def fat_stub_extension_def path_append_def)
  show ?thesis
    by (simp add: dylibify_def dylibify_binary_def rB t f)
qed

text \<open>
  Claim C6. The lemmas of this section show that a run that fails writes no
  image, that a run that succeeds writes the images once and last, that the
  first failing image decides the run, and that a failing compiler or fusion
  tool gives \<open>ToolchainFailure\<close>. A requested name that is not in the table
  does not end the run that way (\<open>remap_binary_absent\<close>, for every executable
  image). The image of scenario A has the dependencies
  \<open>libA\<close> and \<open>libB\<close>; asked to remove \<open>libC\<close>, the program reaches the
  message of line 307, whose format string has a placeholder and no argument,
  and the run ends there with the uncaught \<^verbatim>\<open>fmt::format_error\<close>: it
  does not print the message and does not return \<^verbatim>\<open>false\<close>. Nothing is
  written on the way.
\<close>

theorem absent_name_throws:
  "file_type scenario_A = MH_EXECUTE
   \<and> ''libC'' \<in> set (remove_dylibs remove_libC)
   \<and> ''libC'' \<notin> set (dependency_names (libraries scenario_A))
   \<and> remap_binary env remove_libC stub_path scenario_A = Inl FormatError
   \<and> dylibify env remove_libC stub_path [scenario_A] = ([], Inl FormatError)"
proof -
  have a: "file_type scenario_A = MH_EXECUTE" "''libC'' \<in> set (remove_dylibs remove_libC)"
    "''libC'' \<notin> set (dependency_names (libraries scenario_A))"
    by (simp_all add: scenario_A_def remove_libC_def remove_none_def dependency_names_def
        load_dylib_def)
  from a have r: "remap_binary env remove_libC stub_path scenario_A = Inl FormatError"
    by (rule remap_binary_absent)
  then have "dylibify env remove_libC stub_path [scenario_A] = ([], Inl FormatError)"
    by (simp add: dylibify_def dylibify_binary_def)
  with a r show ?thesis by simp
qed


section \<open>Facts about the removal\<close>

lemma dependency_names_Cons:
  "dependency_names (c # libs) =
     (if command c = LC_ID_DYLIB then dependency_names libs else name c # dependency_names libs)"
  by (simp add: dependency_names_def)

lemma dependency_names_Nil: "dependency_names [] = []"
  by (simp add: dependency_names_def)

lemma name_in_dependency_names:
  "x \<in> set libs \<Longrightarrow> command x \<noteq> LC_ID_DYLIB \<Longrightarrow> name x \<in> set (dependency_names libs)"
  by (simp add: dependency_names_def)

lemma dependency_names_append:
  "dependency_names (xs @ ys) = dependency_names xs @ dependency_names ys"
  by (simp add: dependency_names_def)

lemma dependency_names_id_dylib: "dependency_names [id_dylib p] = []"
  by (simp add: dependency_names_def id_dylib_def)

lemma dependency_names_load_dylib: "dependency_names [load_dylib p] = [p]"
  by (simp add: dependency_names_def load_dylib_def)

lemma dependency_names_filter:
  "dependency_names (filter (\<lambda>x. command x = LC_ID_DYLIB \<or> name x \<notin> R) libs)
     = filter (\<lambda>n. n \<notin> R) (dependency_names libs)"
  by (induction libs) (auto simp add: dependency_names_Cons dependency_names_Nil)

lemma map_of_orig_libraries_loop:
  "map_of (orig_libraries_loop libs m) n =
     (case map_of m n of
        Some c \<Rightarrow> Some c
      | None \<Rightarrow> List.find (\<lambda>c. command c \<noteq> LC_ID_DYLIB \<and> name c = n) libs)"
proof (induction libs arbitrary: m)
  case Nil
  then show ?case by (simp split: option.splits)
next
  case (Cons c libs)
  show ?case
    using Cons [of m] Cons [of "map_emplace (name c) c m"]
    by (auto simp add: map_of_map_emplace split: option.splits)
qed

lemma orig_libraries_entry:
  assumes "map_of (orig_libraries_loop libs []) d = Some c"
  shows "c \<in> set libs \<and> command c \<noteq> LC_ID_DYLIB \<and> name c = d"
proof -
  from assms have "List.find (\<lambda>c. command c \<noteq> LC_ID_DYLIB \<and> name c = d) libs = Some c"
    by (simp add: map_of_orig_libraries_loop)
  then show ?thesis by (auto simp add: find_Some_iff)
qed

lemma unique_entry_of_name:
  assumes "distinct (dependency_names libs)"
    and "x \<in> set libs" "command x \<noteq> LC_ID_DYLIB"
    and "y \<in> set libs" "command y \<noteq> LC_ID_DYLIB"
    and "name x = name y"
  shows "x = y"
proof -
  from assms(1) have "inj_on name (set (filter (\<lambda>c. command c \<noteq> LC_ID_DYLIB) libs))"
    by (simp add: dependency_names_def distinct_map)
  with assms(2-6) show ?thesis by (auto dest: inj_onD)
qed

lemma remove1_unique_entry:
  assumes "command c \<noteq> LC_ID_DYLIB"
    and "\<forall>x \<in> set libs. command x \<noteq> LC_ID_DYLIB \<and> name x = name c \<longrightarrow> x = c"
    and "distinct (dependency_names libs)"
  shows "remove1 c libs = filter (\<lambda>x. command x = LC_ID_DYLIB \<or> name x \<noteq> name c) libs"
  using assms(2,3)
proof (induction libs)
  case Nil
  then show ?case by simp
next
  case (Cons x libs)
  show ?case
  proof (cases "x = c")
    case True
    with Cons.prems(2) assms(1) have "name c \<notin> set (dependency_names libs)"
      by (simp add: dependency_names_Cons)
    then have "\<forall>y \<in> set libs. command y = LC_ID_DYLIB \<or> name y \<noteq> name c"
      by (metis name_in_dependency_names)
    then have "filter (\<lambda>x. command x = LC_ID_DYLIB \<or> name x \<noteq> name c) libs = libs"
      by (simp add: filter_id_conv)
    with True assms(1) show ?thesis by simp
  next
    case False
    with Cons.prems(1) have k: "command x = LC_ID_DYLIB \<or> name x \<noteq> name c" by auto
    from Cons.prems(2) have "distinct (dependency_names libs)"
      by (simp add: dependency_names_Cons split: if_splits)
    with Cons.IH Cons.prems(1)
    have "remove1 c libs = filter (\<lambda>x. command x = LC_ID_DYLIB \<or> name x \<noteq> name c) libs"
      by simp
    with False k show ?thesis by simp
  qed
qed

lemma remove_loop_libraries:
  assumes "distinct (dependency_names (libraries binary))"
    and "\<forall>d \<in> set ds. \<exists>c. map_of ol d = Some c \<and> command c \<noteq> LC_ID_DYLIB \<and> name c = d
           \<and> (\<forall>x \<in> set (libraries binary). command x \<noteq> LC_ID_DYLIB \<and> name x = d \<longrightarrow> x = c)"
  shows "remove_loop ol ds binary =
           Inr (binary\<lparr>libraries :=
                  filter (\<lambda>x. command x = LC_ID_DYLIB \<or> name x \<notin> set ds) (libraries binary)\<rparr>)"
  using assms
proof (induction ds arbitrary: binary)
  case Nil
  then show ?case by simp
next
  case (Cons d ds)
  from Cons.prems(2) obtain c where
    c: "map_of ol d = Some c" "command c \<noteq> LC_ID_DYLIB" "name c = d"
       "\<forall>x \<in> set (libraries binary). command x \<noteq> LC_ID_DYLIB \<and> name x = name c \<longrightarrow> x = c"
    by auto
  let ?libs1 = "filter (\<lambda>x. command x = LC_ID_DYLIB \<or> name x \<noteq> d) (libraries binary)"
  from remove1_unique_entry [OF c(2) c(4) Cons.prems(1)] c(3)
  have r: "binary_remove c binary = binary\<lparr>libraries := ?libs1\<rparr>"
    by (simp add: binary_remove_def)
  have d1: "distinct (dependency_names (libraries (binary\<lparr>libraries := ?libs1\<rparr>)))"
    using Cons.prems(1) dependency_names_filter [of "{d}" "libraries binary"] by simp
  have u1: "\<forall>d' \<in> set ds. \<exists>c. map_of ol d' = Some c \<and> command c \<noteq> LC_ID_DYLIB \<and> name c = d'
           \<and> (\<forall>x \<in> set (libraries (binary\<lparr>libraries := ?libs1\<rparr>)).
                 command x \<noteq> LC_ID_DYLIB \<and> name x = d' \<longrightarrow> x = c)"
    using Cons.prems(2) by fastforce
  have "filter (\<lambda>x. command x = LC_ID_DYLIB \<or> name x \<notin> set ds) ?libs1
        = filter (\<lambda>x. command x = LC_ID_DYLIB \<or> name x \<notin> set (d # ds)) (libraries binary)"
    by (auto intro: filter_cong)
  with Cons.IH [OF d1 u1] c(1) r show ?case by simp
qed

lemma remove_loop_preserves:
  "remove_loop ol ds binary = Inr binary2 \<Longrightarrow>
   dyld_info binary2 = dyld_info binary \<and> symbols binary2 = symbols binary
   \<and> cpu_type binary2 = cpu_type binary \<and> file_type binary2 = file_type binary"
  by (induction ds arbitrary: binary) (auto simp add: binary_remove_def split: option.splits)

section \<open>Facts about the removal set\<close>

lemma distinct_set_emplace: "distinct s \<Longrightarrow> distinct (set_emplace x s)"
  by (simp add: set_emplace_def distinct_insort)

lemma remove_dylib_set_loop_Inr:
  "remove_dylib_set_loop ol ds acc = Inr rds \<Longrightarrow>
   set rds = set acc \<union> set ds \<and> set ds \<subseteq> fst ` set ol \<and> (distinct acc \<longrightarrow> distinct rds)"
proof (induction ds arbitrary: acc)
  case Nil
  then show ?case by simp
next
  case (Cons d ds)
  from Cons.prems have c: "map_contains ol d"
    and r: "remove_dylib_set_loop ol ds (set_emplace d acc) = Inr rds"
    by (auto split: if_splits)
  from Cons.IH [OF r] c show ?case
    by (auto simp add: set_set_emplace map_contains_iff distinct_set_emplace)
qed

lemma auto_remove_loop_set:
  "set (auto_remove_loop env l acc) = set acc \<union> {n \<in> fst ` set l. \<not> dylib_exists env n}
   \<and> (distinct acc \<longrightarrow> distinct (auto_remove_loop env l acc))"
  by (induction l arbitrary: acc) (auto simp add: set_set_emplace distinct_set_emplace)

lemma remove_dylib_set_of_Inr:
  assumes "remove_dylib_set_of env args ol = Inr rds"
  shows "set rds \<subseteq> fst ` set ol \<and> distinct rds \<and> set (remove_dylibs args) \<subseteq> set rds"
proof -
  from assms obtain rds0 where
    l: "remove_dylib_set_loop ol (remove_dylibs args) [] = Inr rds0" and
    r: "rds = (if auto_remove_dylibs args then auto_remove_loop env ol rds0 else rds0)"
    by (auto simp add: remove_dylib_set_of_def split: sum.splits)
  from remove_dylib_set_loop_Inr [OF l]
  have s: "set rds0 = set (remove_dylibs args)" "set rds0 \<subseteq> fst ` set ol" "distinct rds0"
    by auto
  with auto_remove_loop_set [of env ol rds0] r show ?thesis by auto
qed


section \<open>Facts about the old-to-new map\<close>

lemma map_index_fst:
  "fst (map_index m k) = (case map_of m k of Some w \<Rightarrow> w | None \<Rightarrow> 0)"
  by (simp add: map_index_def split: option.splits)

lemma map_index_snd:
  "map_of (snd (map_index m k)) = (if map_of m k = None then (map_of m)(k \<mapsto> 0) else map_of m)"
  using map_of_map_index [of m k "fst (map_index m k)" "snd (map_index m k)"] by simp

lemma orig_to_new_loop_Cons:
  "orig_to_new_loop ((orig_lib, orig_ord) # rest) rds stub nm acc =
     (if map_contains nm orig_lib \<or> orig_lib \<in> set rds
      then orig_to_new_loop rest rds stub
             (snd (map_index nm (if map_contains nm orig_lib then orig_lib else stub)))
             (map_emplace orig_ord (assigned_ordinal stub nm orig_lib) acc)
      else Inl AssertionFailed)"
  by (simp add: Let_def case_prod_beta map_index_fst assigned_ordinal_def map_contains_def
      split: option.splits)

lemma assigned_ordinal_map_index:
  "assigned_ordinal stub (snd (map_index nm (if map_contains nm x then x else stub))) n
     = assigned_ordinal stub nm n"
  by (auto simp add: assigned_ordinal_def map_index_snd map_contains_def split: option.splits)

lemma map_contains_map_index:
  "map_contains nm y \<Longrightarrow> map_contains (snd (map_index nm k)) y"
  by (auto simp add: map_contains_def map_index_snd)

lemma map_of_orig_to_new_loop:
  "orig_to_new_loop entries rds stub nm acc = Inr (nm', o2n) \<Longrightarrow>
   map_of o2n k =
     (case map_of acc k of
        Some v \<Rightarrow> Some v
      | None \<Rightarrow> map_option (\<lambda>e. assigned_ordinal stub nm (fst e))
                  (List.find (\<lambda>e. snd e = k) entries))"
proof (induction entries arbitrary: nm acc)
  case Nil
  then show ?case by (simp split: option.splits)
next
  case (Cons e entries)
  obtain orig_lib orig_ord where e: "e = (orig_lib, orig_ord)" by (cases e)
  let ?nm1 = "snd (map_index nm (if map_contains nm orig_lib then orig_lib else stub))"
  let ?acc1 = "map_emplace orig_ord (assigned_ordinal stub nm orig_lib) acc"
  from Cons.prems have r: "orig_to_new_loop entries rds stub ?nm1 ?acc1 = Inr (nm', o2n)"
    by (simp add: e orig_to_new_loop_Cons del: orig_to_new_loop.simps(2) split: if_splits)
  have a: "(\<lambda>e. assigned_ordinal stub ?nm1 (fst e)) = (\<lambda>e. assigned_ordinal stub nm (fst e))"
    by (rule ext) (rule assigned_ordinal_map_index)
  from Cons.IH [OF r] have
    "map_of o2n k =
       (case map_of ?acc1 k of
          Some v \<Rightarrow> Some v
        | None \<Rightarrow> map_option (\<lambda>e. assigned_ordinal stub nm (fst e))
                    (List.find (\<lambda>e. snd e = k) entries))"
    by (simp only: a)
  then show ?case
    by (auto simp add: e map_of_map_emplace split: option.splits)
qed

lemma orig_to_new_loop_succeeds:
  "\<forall>e \<in> set entries. map_contains nm (fst e) \<or> fst e \<in> set rds \<Longrightarrow>
   \<exists>nm' o2n. orig_to_new_loop entries rds stub nm acc = Inr (nm', o2n)"
proof (induction entries arbitrary: nm acc)
  case Nil
  then show ?case by simp
next
  case (Cons e entries)
  obtain orig_lib orig_ord where e: "e = (orig_lib, orig_ord)" by (cases e)
  let ?nm1 = "snd (map_index nm (if map_contains nm orig_lib then orig_lib else stub))"
  from Cons.prems
  have "\<forall>e \<in> set entries. map_contains ?nm1 (fst e) \<or> fst e \<in> set rds"
    by (auto intro: map_contains_map_index)
  from Cons.IH [OF this] Cons.prems show ?case
    by (simp add: e orig_to_new_loop_Cons del: orig_to_new_loop.simps(2))
qed

lemma find_ordinal_map:
  assumes "distinct (dependency_names libs)" and "(n, k) \<in> set (ordinal_map libs)"
  shows "List.find (\<lambda>e. snd e = k) (ordinal_map libs) = Some (n, k)"
proof -
  from assms(2) have "\<exists>e \<in> set (ordinal_map libs). snd e = k" by force
  then obtain e where f: "List.find (\<lambda>e. snd e = k) (ordinal_map libs) = Some e"
    by (cases "List.find (\<lambda>e. snd e = k) (ordinal_map libs)") (auto simp add: find_None_iff)
  then have m: "e \<in> set (ordinal_map libs)" and s: "snd e = k"
    by (auto simp add: find_Some_iff)
  obtain n' where e: "e = (n', k)" using s by (cases e) simp
  from m e have n': "n' \<in> set (dependency_names libs)"
    and k': "k = 1 + int (length (takeWhile (\<lambda>x. x \<noteq> n') (dependency_names libs)))"
    by (simp_all add: in_ordinal_map_iff)
  from assms(2) have n: "n \<in> set (dependency_names libs)"
    and k: "k = 1 + int (length (takeWhile (\<lambda>x. x \<noteq> n) (dependency_names libs)))"
    by (simp_all add: in_ordinal_map_iff)
  from k k' have "length (takeWhile (\<lambda>x. x \<noteq> n) (dependency_names libs))
      = length (takeWhile (\<lambda>x. x \<noteq> n') (dependency_names libs))" by simp
  with nth_length_takeWhile_neq [OF n] nth_length_takeWhile_neq [OF n'] have "n = n'"
    by metis
  with f e show ?thesis by simp
qed

lemma takeWhile_filter_commute:
  "n \<notin> R \<Longrightarrow>
   takeWhile (\<lambda>x. x \<noteq> n) (filter (\<lambda>x. x \<notin> R) xs) = filter (\<lambda>x. x \<notin> R) (takeWhile (\<lambda>x. x \<noteq> n) xs)"
  by (induction xs) auto

lemma length_filter_not_in:
  "int (length (filter (\<lambda>x. x \<notin> R) ys)) = int (length ys) - int (length (filter (\<lambda>x. x \<in> R) ys))"
  using sum_length_filter_compl [of "\<lambda>x. x \<in> R" ys] by simp

lemma survivor_ordinal:
  assumes "n \<notin> R" and "map_of (ordinal_map libs) n = Some k"
    and "dependency_names libs' = filter (\<lambda>x. x \<notin> R) (dependency_names libs)"
  shows "map_of (ordinal_map libs') n =
           Some (k - int (length (filter (\<lambda>x. x \<in> R) (take (nat (k - 1)) (dependency_names libs)))))"
proof -
  let ?names = "dependency_names libs"
  let ?tw = "takeWhile (\<lambda>x. x \<noteq> n) ?names"
  from assms(2) have n: "n \<in> set ?names" and k: "k = 1 + int (length ?tw)"
    by (auto simp add: map_of_ordinal_map split: if_splits)
  have t: "take (length ?tw) ?names = ?tw"
    by (rule takeWhile_eq_take [symmetric])
  from n assms(1) have "n \<in> set (dependency_names libs')" by (simp add: assms(3))
  then have "map_of (ordinal_map libs') n
      = Some (1 + int (length (filter (\<lambda>x. x \<notin> R) ?tw)))"
    by (simp add: map_of_ordinal_map assms(3) takeWhile_filter_commute [OF assms(1)])
  then show ?thesis by (simp add: t k length_filter_not_in)
qed

section \<open>Sentinel ordinals\<close>

lemma add_stub_preserves:
  "add_stub args remove_sym_set stub_path binary = (stub_path', binary3) \<Longrightarrow>
   dyld_info binary3 = dyld_info binary \<and> symbols binary3 = symbols binary
   \<and> cpu_type binary3 = cpu_type binary \<and> file_type binary3 = file_type binary"
  by (auto simp add: add_stub_def binary_add_def split: if_splits)

lemma remap_binary_bindings:
  assumes "remap_binary env args stub_path binary = Inr (out, stub_path', remove_sym_set)"
  shows "\<exists>rds nm nm' o2n bindings bindings'.
           orig_to_new_loop (ordinal_map (libraries binary)) rds stub_path' nm [] = Inr (nm', o2n)
           \<and> dyld_info binary = Some bindings
           \<and> update_bindings o2n bindings = Inr bindings'
           \<and> dyld_info out = Some bindings'
           \<and> update_symtab o2n (symbols binary) = Inr (symbols out)"
proof -
  from remap_binary_Inr [OF assms] obtain remove_dylib_set binary2 binary3 where
    rl: "remove_loop (orig_libraries_loop (libraries binary) []) remove_dylib_set
                (binary_add (id_dylib (new_dylib_path args)) (binary\<lparr>file_type := MH_DYLIB\<rparr>))
               = Inr binary2"
    and st: "add_stub args remove_sym_set stub_path binary2 = (stub_path', binary3)"
    and rw: "rewrite_ordinals (ordinal_map (libraries binary)) remove_dylib_set stub_path' binary3
               = Inr out"
    by blast
  from remove_loop_preserves [OF rl] add_stub_preserves [OF st]
  have p: "dyld_info binary3 = dyld_info binary" "symbols binary3 = symbols binary"
    by (simp_all add: binary_add_def)
  from rewrite_ordinals_Inr [OF rw] obtain nm' o2n bindings bindings' syms' where
    "orig_to_new_loop (ordinal_map (libraries binary)) remove_dylib_set stub_path'
       (ordinal_map (libraries binary3)) [] = Inr (nm', o2n)"
    "dyld_info binary3 = Some bindings"
    "update_bindings o2n bindings = Inr bindings'"
    "update_symtab o2n (symbols binary3) = Inr syms'"
    "out = binary3\<lparr>dyld_info := Some bindings', symbols := syms'\<rparr>"
    by blast
  with p show ?thesis by (intro exI [of _ remove_dylib_set] exI conjI) simp_all
qed

lemma sentinel_binding_never_completes:
  assumes "dyld_info binary = Some bindings" and "info \<in> set bindings"
    and "binding_sentinel (library_ordinal info)"
  shows "remap_binary env args stub_path binary \<noteq> Inr r"
proof
  assume c: "remap_binary env args stub_path binary = Inr r"
  obtain out stub_path' remove_sym_set where r: "r = (out, stub_path', remove_sym_set)"
    by (cases r)
  from remap_binary_bindings [OF c [unfolded r]] assms(1) obtain rds nm nm' o2n bindings' where
    l: "orig_to_new_loop (ordinal_map (libraries binary)) rds stub_path' nm [] = Inr (nm', o2n)"
    and u: "update_bindings o2n bindings = Inr bindings'"
    by auto
  from update_bindings_Inr [OF u] assms(2)
  have "map_of o2n (library_ordinal info) \<noteq> None" by blast
  then have "library_ordinal info \<in> fst ` set o2n"
    by (metis map_of_eq_None_iff)
  with keys_orig_to_new_loop [OF l] have "library_ordinal info \<in> snd ` set (ordinal_map (libraries binary))"
    by simp
  with ordinal_map_values [of "libraries binary"] have "1 \<le> library_ordinal info" by auto
  with assms(3) show False by (auto simp add: binding_sentinel_def)
qed

text \<open>
  Claim C2. The loop over the legacy symbols leaves a descriptor with a sentinel
  ordinal as it is, but the loop over the binding records has no such test: it
  looks every ordinal up. On an image with one dependency and one binding
  record bound to the image itself (the sentinel 0), with nothing to remove,
  the lookup fails, the remapping ends with the out-of-range failure and the
  conversion writes nothing.
\<close>

theorem sentinel_binding_looked_up:
  "binding_sentinel 0
   \<and> dyld_info self_bound = Some [\<lparr>library_ordinal = 0, library = None\<rparr>]
   \<and> remap_binary env remove_none stub_path self_bound = Inl OrdinalOutOfRange
   \<and> dylibify env remove_none stub_path [self_bound] = ([], Inl OrdinalOutOfRange)"
proof -
  have "dylibify_binary env remove_none (stub_path, []) self_bound = ([], Inl OrdinalOutOfRange)"
    by (simp add: dylibify_binary_def run_self)
  then have "dylibify env remove_none stub_path [self_bound] = ([], Inl OrdinalOutOfRange)"
    by (simp add: dylibify_def)
  moreover have "dyld_info self_bound = Some [\<lparr>library_ordinal = 0, library = None\<rparr>]"
    by (simp add: self_bound_def)
  ultimately show ?thesis by (simp add: binding_sentinel_def run_self)
qed

section \<open>The edited table\<close>

lemma pruned_libraries:
  assumes "distinct (dependency_names (libraries binary))"
    and "remove_dylib_set_of env args (orig_libraries_loop (libraries binary) []) = Inr rds"
  shows "remove_loop (orig_libraries_loop (libraries binary) []) rds
           (binary_add (id_dylib p) (binary\<lparr>file_type := MH_DYLIB\<rparr>))
         = Inr (binary\<lparr>file_type := MH_DYLIB,
                       libraries :=
                         filter (\<lambda>x. command x = LC_ID_DYLIB \<or> name x \<notin> set rds) (libraries binary)
                           @ [id_dylib p]\<rparr>)"
proof -
  let ?ol = "orig_libraries_loop (libraries binary) []"
  let ?b1 = "binary_add (id_dylib p) (binary\<lparr>file_type := MH_DYLIB\<rparr>)"
  have l1: "libraries ?b1 = libraries binary @ [id_dylib p]"
    by (simp add: binary_add_def)
  have d1: "distinct (dependency_names (libraries ?b1))"
    using assms(1) by (simp add: l1 dependency_names_append dependency_names_id_dylib)
  from remove_dylib_set_of_Inr [OF assms(2)] have sub: "set rds \<subseteq> fst ` set ?ol" by simp
  have u: "\<forall>d \<in> set rds. \<exists>c. map_of ?ol d = Some c \<and> command c \<noteq> LC_ID_DYLIB \<and> name c = d
           \<and> (\<forall>x \<in> set (libraries ?b1). command x \<noteq> LC_ID_DYLIB \<and> name x = d \<longrightarrow> x = c)"
  proof
    fix d assume "d \<in> set rds"
    with sub have "d \<in> fst ` set ?ol" by blast
    then obtain c where c: "map_of ?ol d = Some c"
      by (metis map_of_eq_None_iff not_None_eq)
    from orig_libraries_entry [OF c]
    have e: "c \<in> set (libraries binary)" "command c \<noteq> LC_ID_DYLIB" "name c = d" by simp_all
    have "x = c" if "x \<in> set (libraries ?b1)" "command x \<noteq> LC_ID_DYLIB" "name x = d" for x
    proof -
      from that(1,2) have "x \<in> set (libraries binary)"
        unfolding l1 by (auto simp add: id_dylib_def)
      from unique_entry_of_name [OF assms(1) this that(2) e(1) e(2)] that(3) e(3)
      show ?thesis by simp
    qed
    with c e show "\<exists>c. map_of ?ol d = Some c \<and> command c \<noteq> LC_ID_DYLIB \<and> name c = d
           \<and> (\<forall>x \<in> set (libraries ?b1). command x \<noteq> LC_ID_DYLIB \<and> name x = d \<longrightarrow> x = c)"
      by blast
  qed
  from remove_loop_libraries [OF d1 u] show ?thesis
    by (simp add: binary_add_def id_dylib_def)
qed

lemma length_filter_removed:
  assumes "distinct xs" "distinct R" "set R \<subseteq> set xs"
  shows "int (length (filter (\<lambda>x. x \<notin> set R) xs)) = int (length xs) - int (length R)"
proof -
  have "set (filter (\<lambda>x. x \<in> set R) xs) = set R" using assms(3) by auto
  moreover have "distinct (filter (\<lambda>x. x \<in> set R) xs)" using assms(1) by simp
  ultimately have "length (filter (\<lambda>x. x \<in> set R) xs) = length R"
    using assms(2) by (metis distinct_card)
  then show ?thesis by (simp add: length_filter_not_in)
qed

lemma rewrite_ordinals_succeeds:
  assumes "\<forall>e \<in> set entries. map_contains (ordinal_map (libraries binary)) (fst e) \<or> fst e \<in> set rds"
    and "dyld_info binary = Some bindings"
    and "\<forall>info \<in> set bindings. library_ordinal info \<in> snd ` set entries"
    and "\<forall>s \<in> set (symbols binary). origin s = SYM_ORIGIN_LC_SYMTAB \<longrightarrow>
           symtab_sentinel (get_library_ordinal (description s))
           \<or> uint (get_library_ordinal (description s)) \<in> snd ` set entries"
  shows "\<exists>out. rewrite_ordinals entries rds stub binary = Inr out
           \<and> libraries out = libraries binary"
proof -
  from orig_to_new_loop_succeeds [OF assms(1)] obtain nm' o2n where
    l: "orig_to_new_loop entries rds stub (ordinal_map (libraries binary)) [] = Inr (nm', o2n)"
    by blast
  from keys_orig_to_new_loop [OF l] have k: "fst ` set o2n = snd ` set entries" by simp
  have m: "map_of o2n x \<noteq> None" if "x \<in> snd ` set entries" for x
    using that k by (metis map_of_eq_None_iff)
  from assms(3) m have "\<forall>info \<in> set bindings. map_of o2n (library_ordinal info) \<noteq> None"
    by blast
  from update_bindings_ok [OF this] obtain bindings' where
    ub: "update_bindings o2n bindings = Inr bindings'" by blast
  have "\<forall>s \<in> set (symbols binary). \<exists>s'. update_symbol o2n s = Inr s'"
  proof
    fix s assume s: "s \<in> set (symbols binary)"
    show "\<exists>s'. update_symbol o2n s = Inr s'"
    proof (cases "origin s \<noteq> SYM_ORIGIN_LC_SYMTAB
                  \<or> symtab_sentinel (get_library_ordinal (description s))")
      case True
      from update_symbol_unchanged [OF this] show ?thesis by blast
    next
      case False
      then have o: "origin s = SYM_ORIGIN_LC_SYMTAB"
        and n: "\<not> symtab_sentinel (get_library_ordinal (description s))" by simp_all
      from assms(4) s o n have "uint (get_library_ordinal (description s)) \<in> snd ` set entries"
        by blast
      from m [OF this] obtain v where
        "map_of o2n (uint (get_library_ordinal (description s))) = Some v" by blast
      with update_symbol_rewrite [OF o n, of o2n] show ?thesis by simp
    qed
  qed
  from update_symtab_ok [OF this] obtain syms' where
    us: "update_symtab o2n (symbols binary) = Inr syms'" by blast
  from l assms(2) ub us show ?thesis by (simp add: rewrite_ordinals_def)
qed


lemma remapped_ordinal:
  assumes "orig_to_new_loop (ordinal_map libs) rds stub nm [] = Inr (nm', o2n)"
    and "distinct (dependency_names libs)"
    and "map_of (ordinal_map libs) n = Some k"
  shows "map_of o2n k = Some (assigned_ordinal stub nm n)"
proof -
  from map_of_SomeD [OF assms(3)] have "(n, k) \<in> set (ordinal_map libs)" .
  from find_ordinal_map [OF assms(2) this] map_of_orig_to_new_loop [OF assms(1), of k]
  show ?thesis by simp
qed

lemma resolves_iff_value:
  "distinct (dependency_names libs) \<Longrightarrow>
   resolves libs k \<longleftrightarrow> k \<in> snd ` set (ordinal_map libs)"
  using values_onto_iff_distinct [of libs] by (simp add: resolves_def)

text \<open>
  Claim C5, amended. Take an executable image with a binding table whose
  dependency names are pairwise distinct, a removal set \<open>rds\<close> computed from
  names that are all in the table, no symbol that comes from a removed
  dependency, and binding records and legacy descriptors whose ordinals resolve
  in the original table (a legacy descriptor may also hold a sentinel). Then the
  remapping succeeds, the conversion of the image writes it, no stub entry is
  added (the table is the old one without the removed entries, followed by the
  new self-identity entry), the table has one entry fewer per removed
  dependency, and the new ordinal of every surviving dependency, in the table
  and in the binding records bound to it, is its old ordinal minus the number
  of removed entries declared before it.
\<close>

theorem unreferenced_removal:
  assumes "file_type binary = MH_EXECUTE"
    and "remove_dylib_set_of env args (orig_libraries_loop (libraries binary) []) = Inr rds"
    and "remove_sym_set_loop rds (syms_to_libs_loop binary (symbols binary) []) [] = []"
    and "distinct (dependency_names (libraries binary))"
    and "dyld_info binary = Some bindings"
    and "\<forall>info \<in> set bindings. resolves (libraries binary) (library_ordinal info)"
    and "\<forall>s \<in> set (symbols binary). origin s = SYM_ORIGIN_LC_SYMTAB \<longrightarrow>
           symtab_sentinel (get_library_ordinal (description s))
           \<or> resolves (libraries binary) (uint (get_library_ordinal (description s)))"
  shows "\<exists>out bindings'.
           remap_binary env args stub_path binary = Inr (out, stub_path, [])
         \<and> dylibify env args stub_path [binary] = ([WroteImage [out]], Inr ())
         \<and> libraries out =
             filter (\<lambda>c. command c = LC_ID_DYLIB \<or> name c \<notin> set rds) (libraries binary)
               @ [id_dylib (new_dylib_path args)]
         \<and> dependency_names (libraries out) =
             filter (\<lambda>n. n \<notin> set rds) (dependency_names (libraries binary))
         \<and> int (length (dependency_names (libraries out))) =
             int (length (dependency_names (libraries binary))) - int (length rds)
         \<and> (\<forall>n k. n \<notin> set rds \<and> map_of (ordinal_map (libraries binary)) n = Some k \<longrightarrow>
               map_of (ordinal_map (libraries out)) n =
                 Some (k - int (length (filter (\<lambda>m. m \<in> set rds)
                                  (take (nat (k - 1)) (dependency_names (libraries binary)))))))
         \<and> dyld_info out = Some bindings' \<and> length bindings' = length bindings
         \<and> (\<forall>i n. i < length bindings \<and> n \<notin> set rds
                  \<and> map_of (ordinal_map (libraries binary)) n = Some (library_ordinal (bindings ! i)) \<longrightarrow>
               library_ordinal (bindings' ! i) =
                 library_ordinal (bindings ! i)
                 - int (length (filter (\<lambda>m. m \<in> set rds)
                          (take (nat (library_ordinal (bindings ! i) - 1))
                             (dependency_names (libraries binary))))))"
proof -
  let ?names = "dependency_names (libraries binary)"
  let ?E = "ordinal_map (libraries binary)"
  let ?ol = "orig_libraries_loop (libraries binary) []"
  let ?libs2 = "filter (\<lambda>c. command c = LC_ID_DYLIB \<or> name c \<notin> set rds) (libraries binary)
                  @ [id_dylib (new_dylib_path args)]"
  let ?b2 = "binary\<lparr>file_type := MH_DYLIB, libraries := ?libs2\<rparr>"
  have rl: "remove_loop ?ol rds
              (binary_add (id_dylib (new_dylib_path args)) (binary\<lparr>file_type := MH_DYLIB\<rparr>))
            = Inr ?b2"
    by (rule pruned_libraries [OF assms(4) assms(2)])
  have st: "add_stub args [] stub_path ?b2 = (stub_path, ?b2)"
    by (simp add: add_stub_def)
  have n2: "dependency_names ?libs2 = filter (\<lambda>n. n \<notin> set rds) ?names"
    by (simp add: dependency_names_append dependency_names_id_dylib dependency_names_filter)
  from remove_dylib_set_of_Inr [OF assms(2)]
  have sub: "set rds \<subseteq> set ?names" and dr: "distinct rds"
    by (simp_all add: keys_orig_libraries)
  have c1: "\<forall>e \<in> set ?E. map_contains (ordinal_map (libraries ?b2)) (fst e) \<or> fst e \<in> set rds"
  proof
    fix e assume "e \<in> set ?E"
    then have "fst e \<in> set ?names" using keys_ordinal_map [of "libraries binary"] by force
    then show "map_contains (ordinal_map (libraries ?b2)) (fst e) \<or> fst e \<in> set rds"
      by (simp add: map_contains_iff keys_ordinal_map n2)
  qed
  have c2: "dyld_info ?b2 = Some bindings" using assms(5) by simp
  have c3: "\<forall>info \<in> set bindings. library_ordinal info \<in> snd ` set ?E"
    using assms(6) by (simp add: resolves_iff_value [OF assms(4)])
  have c4: "\<forall>s \<in> set (symbols ?b2). origin s = SYM_ORIGIN_LC_SYMTAB \<longrightarrow>
           symtab_sentinel (get_library_ordinal (description s))
           \<or> uint (get_library_ordinal (description s)) \<in> snd ` set ?E"
    using assms(7) by (simp add: resolves_iff_value [OF assms(4)])
  from rewrite_ordinals_succeeds [OF c1 c2 c3 c4, of stub_path] obtain out where
    rw: "rewrite_ordinals ?E rds stub_path ?b2 = Inr out" and lo: "libraries out = ?libs2"
    by auto
  have run: "remap_binary env args stub_path binary = Inr (out, stub_path, [])"
    using assms(1,2,3) rl st rw by (simp add: remap_binary_def Let_def)
  then have whole: "dylibify env args stub_path [binary] = ([WroteImage [out]], Inr ())"
    by (simp add: dylibify_def dylibify_binary_def)
  from rewrite_ordinals_Inr [OF rw] c2 obtain nm' o2n bindings' where
    l: "orig_to_new_loop ?E rds stub_path (ordinal_map ?libs2) [] = Inr (nm', o2n)"
    and ub: "update_bindings o2n bindings = Inr bindings'"
    and ob: "dyld_info out = Some bindings'"
    by auto
  from update_bindings_Inr [OF ub]
  have bm: "bindings' = map (\<lambda>info. info\<lparr>library_ordinal :=
                                  the (map_of o2n (library_ordinal info))\<rparr>) bindings"
    by simp
  have len: "int (length (dependency_names (libraries out))) = int (length ?names) - int (length rds)"
    by (simp add: lo n2 length_filter_removed [OF assms(4) dr sub])
  have tab: "map_of (ordinal_map (libraries out)) n =
                 Some (k - int (length (filter (\<lambda>m. m \<in> set rds) (take (nat (k - 1)) ?names))))"
    if "n \<notin> set rds" "map_of ?E n = Some k" for n k
    by (rule survivor_ordinal [OF that]) (simp add: lo n2)
  have bnd: "library_ordinal (bindings' ! i) =
                 library_ordinal (bindings ! i)
                 - int (length (filter (\<lambda>m. m \<in> set rds)
                          (take (nat (library_ordinal (bindings ! i) - 1)) ?names)))"
    if "i < length bindings" "n \<notin> set rds" "map_of ?E n = Some (library_ordinal (bindings ! i))"
    for i n
  proof -
    from remapped_ordinal [OF l assms(4) that(3)]
    have "map_of o2n (library_ordinal (bindings ! i)) = Some (assigned_ordinal stub_path (ordinal_map ?libs2) n)" .
    moreover from tab [OF that(2,3)]
    have "assigned_ordinal stub_path (ordinal_map ?libs2) n =
            library_ordinal (bindings ! i)
                 - int (length (filter (\<lambda>m. m \<in> set rds)
                          (take (nat (library_ordinal (bindings ! i) - 1)) ?names)))"
      by (simp add: assigned_ordinal_def lo)
    ultimately show ?thesis using that(1) by (simp add: bm)
  qed
  from run whole lo n2 len tab ob bm bnd show ?thesis
    by (intro exI [of _ out] exI [of _ bindings'] conjI allI impI) (simp_all, blast+)
qed


lemma removal_set_A:
  "remove_dylib_set_of quiet_host remove_libA (orig_libraries_loop (libraries scenario_A) [])
     = Inr [''libA'']"
  by (simp add: remap_eval quiet_host_def remove_libA_def remove_none_def scenario_A_def)

lemma orphans_A:
  "remove_sym_set_loop [''libA''] (syms_to_libs_loop scenario_A (symbols scenario_A) []) [] = []"
  by (simp add: remap_eval scenario_A_def)

theorem unreferenced_removal_witness:
  "file_type scenario_A = MH_EXECUTE
   \<and> remove_dylib_set_of quiet_host remove_libA (orig_libraries_loop (libraries scenario_A) [])
       = Inr [''libA'']
   \<and> remove_sym_set_loop [''libA''] (syms_to_libs_loop scenario_A (symbols scenario_A) []) [] = []
   \<and> distinct (dependency_names (libraries scenario_A))
   \<and> dyld_info scenario_A = Some [\<lparr>library_ordinal = 2, library = Some (load_dylib ''libB'')\<rparr>]
   \<and> resolves (libraries scenario_A) 2
   \<and> remap_binary quiet_host remove_libA [] scenario_A = Inr (scenario_A_out, [], [])
   \<and> dylibify quiet_host remove_libA [] [scenario_A] = ([WroteImage [scenario_A_out]], Inr ())
   \<and> dependency_names (libraries scenario_A_out) = [''libB'']
   \<and> map_of (ordinal_map (libraries scenario_A)) ''libB'' = Some 2
   \<and> map_of (ordinal_map (libraries scenario_A_out)) ''libB'' = Some 1"
proof -
  have n: "dependency_names (libraries scenario_A) = [''libA'', ''libB'']"
    by (simp add: scenario_A_def dependency_names_def load_dylib_def)
  have h1: "file_type scenario_A = MH_EXECUTE" by (simp add: scenario_A_def)
  have h4: "distinct (dependency_names (libraries scenario_A))" by (simp add: n)
  have h5: "dyld_info scenario_A = Some [\<lparr>library_ordinal = 2, library = Some (load_dylib ''libB'')\<rparr>]"
    by (simp add: scenario_A_def)
  have r2: "resolves (libraries scenario_A) 2" by (simp add: resolves_def n)
  then have h6: "\<forall>info \<in> set [\<lparr>library_ordinal = 2, library = Some (load_dylib ''libB'')\<rparr>].
      resolves (libraries scenario_A) (library_ordinal info)" by simp
  have h7: "\<forall>s \<in> set (symbols scenario_A). origin s = SYM_ORIGIN_LC_SYMTAB \<longrightarrow>
           symtab_sentinel (get_library_ordinal (description s))
           \<or> resolves (libraries scenario_A) (uint (get_library_ordinal (description s)))"
    by (simp add: scenario_A_def resolves_def n [unfolded scenario_A_def, simplified]
        get_library_ordinal_def)
  have o: "map_of (ordinal_map (libraries scenario_A)) ''libB'' = Some 2"
    by (simp add: map_of_ordinal_map n)
  from unreferenced_removal [OF h1 removal_set_A orphans_A h4 h5 h6 h7, of "[]"]
  obtain out where
    a: "remap_binary quiet_host remove_libA [] scenario_A = Inr (out, [], [])" and
    b: "dylibify quiet_host remove_libA [] [scenario_A] = ([WroteImage [out]], Inr ())" and
    c: "dependency_names (libraries out) = filter (\<lambda>n. n \<notin> set [''libA''])
          (dependency_names (libraries scenario_A))" and
    d: "\<forall>n k. n \<notin> set [''libA''] \<and> map_of (ordinal_map (libraries scenario_A)) n = Some k \<longrightarrow>
               map_of (ordinal_map (libraries out)) n =
                 Some (k - int (length (filter (\<lambda>m. m \<in> set [''libA''])
                                  (take (nat (k - 1)) (dependency_names (libraries scenario_A))))))"
    by blast
  from a run_A have e: "out = scenario_A_out" by simp
  from d [rule_format, of "''libB''" 2] o
  have "map_of (ordinal_map (libraries out)) ''libB'' = Some 1" by (simp add: n)
  with a b c e h1 removal_set_A orphans_A h4 h5 r2 o show ?thesis by (simp add: n)
qed

text \<open>
  As first stated, for every input with no symbol from a removed dependency,
  the claim fails: here \<open>libA\<close> is removed, no symbol comes from it, and the
  conversion stops at a binding record whose ordinal is not in the table.
\<close>

theorem unreferenced_removal_counterexample:
  "remove_dylib_set_of quiet_host remove_libA (orig_libraries_loop (libraries wild_ordinal) [])
     = Inr [''libA'']
   \<and> remove_sym_set_loop [''libA'']
        (syms_to_libs_loop wild_ordinal (symbols wild_ordinal) []) [] = []
   \<and> remap_binary quiet_host remove_libA [] wild_ordinal = Inl OrdinalOutOfRange
   \<and> dylibify quiet_host remove_libA [] [wild_ordinal] = ([], Inl OrdinalOutOfRange)"
proof -
  have r: "remap_binary quiet_host remove_libA [] wild_ordinal = Inl OrdinalOutOfRange"
    by (simp add: remap_eval quiet_host_def remove_libA_def remove_none_def wild_ordinal_def)
  then have "dylibify quiet_host remove_libA [] [wild_ordinal] = ([], Inl OrdinalOutOfRange)"
    by (simp add: dylibify_def dylibify_binary_def)
  moreover have "remove_dylib_set_of quiet_host remove_libA
      (orig_libraries_loop (libraries wild_ordinal) []) = Inr [''libA'']"
    by (simp add: remap_eval quiet_host_def remove_libA_def remove_none_def wild_ordinal_def)
  moreover have "remove_sym_set_loop [''libA'']
        (syms_to_libs_loop wild_ordinal (symbols wild_ordinal) []) [] = []"
    by (simp add: wild_ordinal_def)
  ultimately show ?thesis using r by simp
qed

lemma run_mixed:
  "remap_binary quiet_host remove_libA [] mixed =
     Inr (mixed_out, ''@executable_path/dylibify-stubs.dylib'', [''_foo''])"
  by (simp add: remap_eval quiet_host_def remove_libA_def remove_none_def mixed_def mixed_out_def)

lemma run_dup:
  "remap_binary quiet_host remove_libA [] dup_image =
     Inr (dup_image_out, ''@executable_path/dylibify-stubs.dylib'', [''_foo''])"
  by (simp add: remap_eval quiet_host_def remove_libA_def remove_none_def dup_image_def
      dup_image_out_def)


lemma dependency_names_id_Cons: "dependency_names (id_dylib p # libs) = dependency_names libs"
  by (simp add: dependency_names_Cons id_dylib_def)

lemma dependency_names_load_Cons:
  "dependency_names (load_dylib p # libs) = p # dependency_names libs"
  by (simp add: dependency_names_Cons load_dylib_def)

lemma stub_ordinal_last:
  assumes "stub \<notin> set (dependency_names libs)"
  shows "map_of (ordinal_map (libs @ [load_dylib stub])) stub
           = Some (int (length (dependency_names (libs @ [load_dylib stub]))))"
proof -
  have n: "dependency_names (libs @ [load_dylib stub]) = dependency_names libs @ [stub]"
    by (simp add: dependency_names_append dependency_names_load_dylib)
  have "takeWhile (\<lambda>x. x \<noteq> stub) (dependency_names libs @ [stub])
          = dependency_names libs @ takeWhile (\<lambda>x. x \<noteq> stub) [stub]"
    by (rule takeWhile_append2) (use assms in auto)
  then show ?thesis by (simp add: map_of_ordinal_map n)
qed

section \<open>The orphan set and the stub entry\<close>

lemma sym_library_Some:
  "sym_library binary s = Some l \<longleftrightarrow>
     (\<exists>info lib. sym_binding_info binary s = Some info \<and> library info = Some lib \<and> name lib = l)"
  by (auto simp add: sym_library_def split: option.splits)

lemma syms_to_libs_loop_step:
  "syms_to_libs_loop binary (s # rest) m =
     (case sym_library binary s of
        None \<Rightarrow> syms_to_libs_loop binary rest m
      | Some l \<Rightarrow> syms_to_libs_loop binary rest (map_emplace (symbol_name s) l m))"
  by (simp add: sym_library_def split: option.splits)

lemma syms_to_libs_loop_keys:
  "fst ` set (syms_to_libs_loop binary syms m)
     = fst ` set m \<union> {symbol_name s | s. s \<in> set syms \<and> sym_library binary s \<noteq> None}"
proof (induction syms arbitrary: m)
  case Nil
  then show ?case by simp
next
  case (Cons s rest)
  show ?case
  proof (cases "sym_library binary s")
    case None
    with Cons [of m] show ?thesis
      by (auto simp add: syms_to_libs_loop_step simp del: syms_to_libs_loop.simps)
  next
    case (Some l)
    with Cons [of "map_emplace (symbol_name s) l m"] show ?thesis
      by (auto simp add: syms_to_libs_loop_step keys_map_emplace simp del: syms_to_libs_loop.simps)
  qed
qed

lemma syms_to_libs_loop_entries:
  "(n, l) \<in> set (syms_to_libs_loop binary syms m) \<Longrightarrow>
   (n, l) \<in> set m \<or> (\<exists>s \<in> set syms. symbol_name s = n \<and> sym_library binary s = Some l)"
proof (induction syms arbitrary: m)
  case Nil
  then show ?case by simp
next
  case (Cons s rest)
  show ?case
  proof (cases "sym_library binary s")
    case None
    with Cons.prems have "(n, l) \<in> set (syms_to_libs_loop binary rest m)"
      by (simp add: syms_to_libs_loop_step del: syms_to_libs_loop.simps)
    from Cons.IH [OF this] show ?thesis by auto
  next
    case (Some l')
    with Cons.prems
    have "(n, l) \<in> set (syms_to_libs_loop binary rest (map_emplace (symbol_name s) l' m))"
      by (simp add: syms_to_libs_loop_step del: syms_to_libs_loop.simps)
    from Cons.IH [OF this] set_map_emplace_subset [of "symbol_name s" l' m] Some
    show ?thesis by auto
  qed
qed

lemma set_remove_sym_set_loop:
  "set (remove_sym_set_loop rds stl acc) = set acc \<union> {fst p | p. p \<in> set stl \<and> snd p \<in> set rds}"
  by (induction stl arbitrary: acc) (auto simp add: set_set_emplace)

lemma remove_sym_set_nonempty_iff:
  "remove_sym_set_loop rds stl [] \<noteq> [] \<longleftrightarrow> (\<exists>p \<in> set stl. snd p \<in> set rds)"
proof -
  have "remove_sym_set_loop rds stl [] \<noteq> [] \<longleftrightarrow> set (remove_sym_set_loop rds stl []) \<noteq> {}"
    by simp
  also have "\<dots> \<longleftrightarrow> (\<exists>p \<in> set stl. snd p \<in> set rds)"
    unfolding set_remove_sym_set_loop by force
  finally show ?thesis .
qed

lemma ordinal_map_inj:
  assumes "map_of (ordinal_map libs) n = Some k" and "map_of (ordinal_map libs) n' = Some k"
  shows "n = n'"
proof -
  let ?names = "dependency_names libs"
  from assms have m: "n \<in> set ?names" "n' \<in> set ?names"
    and e: "length (takeWhile (\<lambda>x. x \<noteq> n) ?names) = length (takeWhile (\<lambda>x. x \<noteq> n') ?names)"
    by (auto simp add: map_of_ordinal_map split: if_splits)
  from nth_length_takeWhile_neq [OF m(1)] nth_length_takeWhile_neq [OF m(2)] e
  show ?thesis by metis
qed

lemma orphaned_binding:
  assumes "s \<in> set (symbols binary)" and "orphaned binary rds s"
    and "descriptor_bound binary s"
  shows "\<exists>info. sym_binding_info binary s = Some info
           \<and> removed_ordinal binary rds (library_ordinal info)"
  using assms(2,3) unfolding orphaned_def descriptor_bound_def
  by (auto split: option.splits)

lemma orphaned_library:
  assumes "sym_binding_info binary s = Some info"
    and "removed_ordinal binary rds (library_ordinal info)"
    and "library_resolved binary s"
  shows "\<exists>n \<in> set rds. sym_library binary s = Some n"
proof -
  from assms(2) obtain n where n: "n \<in> set rds"
    and k: "map_of (ordinal_map (libraries binary)) n = Some (library_ordinal info)"
    unfolding removed_ordinal_def by blast
  from k have "(n, library_ordinal info) \<in> set (ordinal_map (libraries binary))"
    by (rule map_of_SomeD)
  then have r: "library_ordinal info \<in> snd ` set (ordinal_map (libraries binary))"
    by force
  show ?thesis
  proof (cases "library info")
    case None
    with assms(1,3) r show ?thesis by (simp add: library_resolved_def)
  next
    case (Some lib)
    with assms(1,3)
    have "map_of (ordinal_map (libraries binary)) (name lib) = Some (library_ordinal info)"
      by (simp add: library_resolved_def)
    from ordinal_map_inj [OF this k] have "name lib = n" .
    with Some assms(1) have "sym_library binary s = Some n" by (simp add: sym_library_def)
    with n show ?thesis by blast
  qed
qed

lemma library_orphaned:
  assumes "sym_library binary s = Some l" and "l \<in> set rds" and "library_resolved binary s"
  shows "orphaned binary rds s"
proof -
  from assms(1) obtain info lib where i: "sym_binding_info binary s = Some info"
    and l: "library info = Some lib" "name lib = l"
    by (auto simp add: sym_library_Some)
  with assms(3)
  have "map_of (ordinal_map (libraries binary)) l = Some (library_ordinal info)"
    by (simp add: library_resolved_def)
  with assms(2) have "removed_ordinal binary rds (library_ordinal info)"
    unfolding removed_ordinal_def by blast
  with i show ?thesis by (simp add: orphaned_def)
qed

lemma marked_iff_orphaned:
  assumes "\<forall>s \<in> set (symbols binary). library_resolved binary s"
    and "\<forall>s \<in> set (symbols binary). descriptor_bound binary s"
    and "one_library_per_name binary"
  shows "remove_sym_set_loop rds (syms_to_libs_loop binary (symbols binary) []) [] \<noteq> []
           \<longleftrightarrow> orphan_set binary rds \<noteq> []"
proof
  let ?stl = "syms_to_libs_loop binary (symbols binary) []"
  assume "remove_sym_set_loop rds ?stl [] \<noteq> []"
  then obtain n l where p: "(n, l) \<in> set ?stl" and r: "l \<in> set rds"
    unfolding remove_sym_set_nonempty_iff by auto
  from syms_to_libs_loop_entries [OF p] obtain s where s: "s \<in> set (symbols binary)"
    and sl: "sym_library binary s = Some l"
    by auto
  from library_orphaned [OF sl r] assms(1) s have "orphaned binary rds s" by blast
  with s show "orphan_set binary rds \<noteq> []"
    by (auto simp add: orphan_set_def filter_empty_conv)
next
  let ?stl = "syms_to_libs_loop binary (symbols binary) []"
  assume "orphan_set binary rds \<noteq> []"
  then obtain s where s: "s \<in> set (symbols binary)" and o: "orphaned binary rds s"
    by (auto simp add: orphan_set_def filter_empty_conv)
  from orphaned_binding [OF s o] assms(2) s obtain info where
    i: "sym_binding_info binary s = Some info"
    and k: "removed_ordinal binary rds (library_ordinal info)"
    by blast
  from orphaned_library [OF i k] assms(1) s obtain n where n: "n \<in> set rds"
    and sl: "sym_library binary s = Some n"
    by blast
  from s sl have "symbol_name s \<in> fst ` set ?stl"
    unfolding syms_to_libs_loop_keys by auto
  then obtain l' where p: "(symbol_name s, l') \<in> set ?stl" by force
  from syms_to_libs_loop_entries [OF p] obtain s' where s': "s' \<in> set (symbols binary)"
    and e: "symbol_name s' = symbol_name s" and sl': "sym_library binary s' = Some l'"
    by auto
  from assms(3) s s' e sl sl' have "l' = n"
    unfolding one_library_per_name_def by (metis option.distinct(1) option.inject)
  with p n have "\<exists>p \<in> set ?stl. snd p \<in> set rds" by force
  then show "remove_sym_set_loop rds ?stl [] \<noteq> []"
    unfolding remove_sym_set_nonempty_iff .
qed


lemma update_symbol_binding_info:
  "update_symbol o2n s = Inr s' \<Longrightarrow> binding_info s' = binding_info s"
  unfolding update_symbol_def Let_def by (auto split: if_splits option.splits)

lemma stub_for_marked_symbols:
  assumes "remap_binary env args stub_path binary = Inr (out, stub_path', remove_sym_set)"
    and "remove_dylib_set_of env args (orig_libraries_loop (libraries binary) []) = Inr rds"
    and "distinct (dependency_names (libraries binary))"
    and "new_stub_path args \<notin> set (dependency_names (libraries binary))"
  shows "libraries out =
           filter (\<lambda>c. command c = LC_ID_DYLIB \<or> name c \<notin> set rds) (libraries binary)
             @ [id_dylib (new_dylib_path args)]
             @ (if remove_sym_set = [] then [] else [load_dylib (new_stub_path args)])
       \<and> length (filter (\<lambda>c. c = load_dylib (new_stub_path args)) (libraries out))
           = (if remove_sym_set = [] then 0 else 1)
       \<and> (remove_sym_set \<noteq> [] \<longrightarrow>
            map_of (ordinal_map (libraries out)) (new_stub_path args)
              = Some (int (length (dependency_names (libraries out))))
          \<and> (\<exists>bindings bindings'.
                dyld_info binary = Some bindings \<and> dyld_info out = Some bindings'
              \<and> length bindings' = length bindings
              \<and> (\<forall>i n. i < length bindings \<and> n \<in> set rds
                     \<and> map_of (ordinal_map (libraries binary)) n
                         = Some (library_ordinal (bindings ! i)) \<longrightarrow>
                   library_ordinal (bindings' ! i) = int (length (dependency_names (libraries out)))))
          \<and> length (symbols out) = length (symbols binary)
          \<and> (\<forall>j < length (symbols binary).
                binding_info (symbols out ! j) = binding_info (symbols binary ! j))
          \<and> (\<forall>j n. j < length (symbols binary)
                 \<and> origin (symbols binary ! j) = SYM_ORIGIN_LC_SYMTAB
                 \<and> \<not> symtab_sentinel (get_library_ordinal (description (symbols binary ! j)))
                 \<and> n \<in> set rds
                 \<and> map_of (ordinal_map (libraries binary)) n
                     = Some (uint (get_library_ordinal (description (symbols binary ! j)))) \<longrightarrow>
               get_library_ordinal (description (symbols out ! j))
                 = word_of_int (int (length (dependency_names (libraries out))))))"
proof -
  let ?names = "dependency_names (libraries binary)"
  let ?E = "ordinal_map (libraries binary)"
  let ?stub = "new_stub_path args"
  let ?kept = "filter (\<lambda>c. command c = LC_ID_DYLIB \<or> name c \<notin> set rds) (libraries binary)"
  let ?libs2 = "?kept @ [id_dylib (new_dylib_path args)]"
  let ?b2 = "binary\<lparr>file_type := MH_DYLIB, libraries := ?libs2\<rparr>"
  from remap_binary_Inr [OF assms(1)] assms(2) obtain binary2 binary3 where
    rl: "remove_loop (orig_libraries_loop (libraries binary) []) rds
                (binary_add (id_dylib (new_dylib_path args)) (binary\<lparr>file_type := MH_DYLIB\<rparr>))
               = Inr binary2"
    and st: "add_stub args remove_sym_set stub_path binary2 = (stub_path', binary3)"
    and rw: "rewrite_ordinals ?E rds stub_path' binary3 = Inr out"
    by auto
  from rl pruned_libraries [OF assms(3) assms(2), of "new_dylib_path args"]
  have b2: "binary2 = ?b2" by simp
  have n2: "dependency_names ?libs2 = filter (\<lambda>n. n \<notin> set rds) ?names"
    by (simp add: dependency_names_append dependency_names_id_dylib dependency_names_filter)
  have fresh2: "?stub \<notin> set (dependency_names ?libs2)"
    using assms(4) by (simp add: n2)
  from rewrite_ordinals_Inr [OF rw] obtain nm' o2n bindings bindings' syms' where
    l: "orig_to_new_loop ?E rds stub_path' (ordinal_map (libraries binary3)) [] = Inr (nm', o2n)"
    and di: "dyld_info binary3 = Some bindings"
    and ub: "update_bindings o2n bindings = Inr bindings'"
    and us: "update_symtab o2n (symbols binary3) = Inr syms'"
    and out: "out = binary3\<lparr>dyld_info := Some bindings', symbols := syms'\<rparr>"
    by blast
  have lo: "libraries out = libraries binary3" by (simp add: out)
  from add_stub_preserves [OF st] b2
  have p3: "dyld_info binary3 = dyld_info binary" "symbols binary3 = symbols binary"
    by simp_all
  have libs: "libraries out = ?kept @ [id_dylib (new_dylib_path args)]
             @ (if remove_sym_set = [] then [] else [load_dylib ?stub])"
    using st b2 by (auto simp add: lo add_stub_def binary_add_def split: if_splits)
  have no_stub: "filter (\<lambda>c. c = load_dylib ?stub) ?libs2 = []"
  proof -
    have "c \<noteq> load_dylib ?stub" if "c \<in> set ?libs2" for c
    proof
      assume e: "c = load_dylib ?stub"
      then have "command c \<noteq> LC_ID_DYLIB" "name c = ?stub" by (simp_all add: load_dylib_def)
      with name_in_dependency_names [OF that] fresh2 show False by simp
    qed
    then show ?thesis unfolding filter_empty_conv by blast
  qed
  have libs': "libraries out = ?libs2 @ (if remove_sym_set = [] then [] else [load_dylib ?stub])"
    by (simp add: libs)
  have "filter (\<lambda>c. c = load_dylib ?stub) (libraries out)
          = filter (\<lambda>c. c = load_dylib ?stub) ?libs2
            @ filter (\<lambda>c. c = load_dylib ?stub)
                (if remove_sym_set = [] then [] else [load_dylib ?stub])"
    by (simp only: libs' filter_append)
  also have "\<dots> = filter (\<lambda>c. c = load_dylib ?stub)
                (if remove_sym_set = [] then [] else [load_dylib ?stub])"
    by (simp only: no_stub append_Nil)
  finally have count: "length (filter (\<lambda>c. c = load_dylib ?stub) (libraries out))
           = (if remove_sym_set = [] then 0 else 1)"
    by simp
  have stubbed: "map_of (ordinal_map (libraries out)) ?stub
              = Some (int (length (dependency_names (libraries out))))
          \<and> (\<exists>bindings bindings'.
                dyld_info binary = Some bindings \<and> dyld_info out = Some bindings'
              \<and> length bindings' = length bindings
              \<and> (\<forall>i n. i < length bindings \<and> n \<in> set rds
                     \<and> map_of ?E n = Some (library_ordinal (bindings ! i)) \<longrightarrow>
                   library_ordinal (bindings' ! i) = int (length (dependency_names (libraries out)))))
          \<and> length (symbols out) = length (symbols binary)
          \<and> (\<forall>j < length (symbols binary).
                binding_info (symbols out ! j) = binding_info (symbols binary ! j))
          \<and> (\<forall>j n. j < length (symbols binary)
                 \<and> origin (symbols binary ! j) = SYM_ORIGIN_LC_SYMTAB
                 \<and> \<not> symtab_sentinel (get_library_ordinal (description (symbols binary ! j)))
                 \<and> n \<in> set rds
                 \<and> map_of ?E n
                     = Some (uint (get_library_ordinal (description (symbols binary ! j)))) \<longrightarrow>
               get_library_ordinal (description (symbols out ! j))
                 = word_of_int (int (length (dependency_names (libraries out)))))"
    if ne: "remove_sym_set \<noteq> []"
  proof -
    let ?M = "int (length (dependency_names (libraries out)))"
    from ne st b2 have sp: "stub_path' = ?stub" and l3: "libraries binary3 = ?libs2 @ [load_dylib ?stub]"
      by (auto simp add: add_stub_def binary_add_def)
    have lo3: "libraries out = ?libs2 @ [load_dylib ?stub]" by (simp add: lo l3)
    have so: "map_of (ordinal_map (libraries out)) ?stub = Some ?M"
      unfolding lo3 by (rule stub_ordinal_last [OF fresh2])
    have n3: "dependency_names (libraries out) = filter (\<lambda>n. n \<notin> set rds) ?names @ [?stub]"
      by (simp add: lo3 dependency_names_append dependency_names_load_Cons
          dependency_names_id_Cons dependency_names_Nil dependency_names_filter)
    have removed: "map_of o2n k = Some ?M" if "n \<in> set rds" "map_of ?E n = Some k" for n k
    proof -
      from that(2) have "n \<in> set ?names"
        by (auto simp add: map_of_ordinal_map split: if_splits)
      with assms(4) that(1) have "n \<notin> set (dependency_names (libraries out))"
        by (auto simp add: n3)
      then have "map_of (ordinal_map (libraries out)) n = None"
        by (simp add: map_of_ordinal_map)
      with so have "assigned_ordinal ?stub (ordinal_map (libraries out)) n = ?M"
        by (simp add: assigned_ordinal_def)
      with remapped_ordinal [OF l assms(3) that(2)] show ?thesis
        by (simp add: sp lo)
    qed
    from update_bindings_Inr [OF ub]
    have bm: "bindings' = map (\<lambda>info. info\<lparr>library_ordinal :=
                                  the (map_of o2n (library_ordinal info))\<rparr>) bindings"
      by simp
    have b: "library_ordinal (bindings' ! i) = ?M"
      if "i < length bindings" "n \<in> set rds"
         "map_of ?E n = Some (library_ordinal (bindings ! i))" for i n
      using removed [OF that(2,3)] that(1) by (simp add: bm)
    from update_symtab_Inr [OF us] p3(2)
    have sl: "length syms' = length (symbols binary)"
      and su: "\<And>j. j < length (symbols binary) \<Longrightarrow>
                 update_symbol o2n (symbols binary ! j) = Inr (syms' ! j)"
      by simp_all
    have s: "get_library_ordinal (description (symbols out ! j)) = word_of_int ?M"
      if "j < length (symbols binary)" "origin (symbols binary ! j) = SYM_ORIGIN_LC_SYMTAB"
        "\<not> symtab_sentinel (get_library_ordinal (description (symbols binary ! j)))"
        "n \<in> set rds"
        "map_of ?E n = Some (uint (get_library_ordinal (description (symbols binary ! j))))"
      for j n
    proof -
      from removed [OF that(4,5)] update_symbol_rewrite [OF that(2,3), of o2n] su [OF that(1)]
      have "syms' ! j = (symbols binary ! j)\<lparr>description :=
              set_library_ordinal (description (symbols binary ! j)) (word_of_int ?M)\<rparr>"
        by simp
      then show ?thesis by (simp add: out get_set_library_ordinal)
    qed
    have d: "dyld_info binary = Some bindings" using di p3(1) by simp
    have d': "dyld_info out = Some bindings'" by (simp add: out)
    have len: "length bindings' = length bindings" by (simp add: bm)
    have slen: "length (symbols out) = length (symbols binary)" by (simp add: out sl)
    have bi: "binding_info (symbols out ! j) = binding_info (symbols binary ! j)"
      if "j < length (symbols binary)" for j
      using update_symbol_binding_info [OF su [OF that]] by (simp add: out)
    from b have b': "\<forall>i n. i < length bindings \<and> n \<in> set rds
                     \<and> map_of ?E n = Some (library_ordinal (bindings ! i)) \<longrightarrow>
                   library_ordinal (bindings' ! i) = ?M"
      by blast
    from s have s': "\<forall>j n. j < length (symbols binary)
                 \<and> origin (symbols binary ! j) = SYM_ORIGIN_LC_SYMTAB
                 \<and> \<not> symtab_sentinel (get_library_ordinal (description (symbols binary ! j)))
                 \<and> n \<in> set rds
                 \<and> map_of ?E n
                     = Some (uint (get_library_ordinal (description (symbols binary ! j)))) \<longrightarrow>
               get_library_ordinal (description (symbols out ! j)) = word_of_int ?M"
      by blast
    from bi have bi': "\<forall>j < length (symbols binary).
                binding_info (symbols out ! j) = binding_info (symbols binary ! j)"
      by blast
    from d d' len b' have e: "\<exists>bindings bindings'.
                dyld_info binary = Some bindings \<and> dyld_info out = Some bindings'
              \<and> length bindings' = length bindings
              \<and> (\<forall>i n. i < length bindings \<and> n \<in> set rds
                     \<and> map_of ?E n = Some (library_ordinal (bindings ! i)) \<longrightarrow>
                   library_ordinal (bindings' ! i) = ?M)"
      by blast
    from so e slen bi' s' show ?thesis by (intro conjI)
  qed
  from libs count stubbed show ?thesis by blast
qed




lemma sym_binding_info_out:
  assumes "sym_binding_info binary s = Some info"
    and "dyld_info binary = Some bindings" and "dyld_info out = Some bindings'"
    and "length bindings' = length bindings" and "binding_info s' = binding_info s"
  shows "\<exists>i. i < length bindings \<and> info = bindings ! i
           \<and> sym_binding_info out s' = Some (bindings' ! i)"
  using assms by (auto simp add: sym_binding_info_def split: option.splits if_splits)

lemmas orphan_eval =
  orphan_set_def orphaned_def removed_ordinal_def library_resolved_def descriptor_bound_def
  one_library_per_name_def sym_library_def symtab_sentinel_def sym_binding_info_def
  ordinal_map_def map_emplace_def map_contains_def load_dylib_def get_library_ordinal_def
  SELF_LIBRARY_ORDINAL_def DYNAMIC_LOOKUP_ORDINAL_def EXECUTABLE_ORDINAL_def

text \<open>
  Claim C4, amended. Take an image whose dependency names are pairwise distinct
  and do not include the stub path, whose symbols are bound consistently (the
  entry of each symbol's binding record is the one its ordinal names, each
  descriptor ordinal that is not a sentinel is also the ordinal of the symbol's
  binding record, and symbols of one name are bound to one dependency), and on
  which the remapping completes with the removal set \<open>rds\<close>. The new table is
  the old one without the removed entries, followed by the new self-identity
  entry and, exactly when the orphan set is not empty, by one stub entry; the
  table then holds the stub entry once, otherwise not at all. When the orphan
  set is not empty the stub entry has the last ordinal \<open>M\<close> of the new table.
  Every reference of a symbol that names a removed dependency is rewritten to
  the stub's ordinal: the symbol's binding record has ordinal \<open>M\<close> in the
  output, and its legacy descriptor holds \<open>M\<close> narrowed to eight bits.
\<close>

theorem single_stub:
  assumes "remap_binary env args stub_path binary = Inr (out, stub_path', remove_sym_set)"
    and "remove_dylib_set_of env args (orig_libraries_loop (libraries binary) []) = Inr rds"
    and "distinct (dependency_names (libraries binary))"
    and "new_stub_path args \<notin> set (dependency_names (libraries binary))"
    and "\<forall>s \<in> set (symbols binary). library_resolved binary s"
    and "\<forall>s \<in> set (symbols binary). descriptor_bound binary s"
    and "one_library_per_name binary"
  shows "libraries out =
           filter (\<lambda>c. command c = LC_ID_DYLIB \<or> name c \<notin> set rds) (libraries binary)
             @ [id_dylib (new_dylib_path args)]
             @ (if orphan_set binary rds = [] then [] else [load_dylib (new_stub_path args)])
       \<and> length (filter (\<lambda>c. c = load_dylib (new_stub_path args)) (libraries out))
           = (if orphan_set binary rds = [] then 0 else 1)
       \<and> (orphan_set binary rds \<noteq> [] \<longrightarrow>
            map_of (ordinal_map (libraries out)) (new_stub_path args)
              = Some (int (length (dependency_names (libraries out)))))
       \<and> (\<forall>j < length (symbols binary).
            (\<forall>info. sym_binding_info binary (symbols binary ! j) = Some info
                 \<and> removed_ordinal binary rds (library_ordinal info) \<longrightarrow>
               (\<exists>info'. sym_binding_info out (symbols out ! j) = Some info'
                  \<and> library_ordinal info' = int (length (dependency_names (libraries out)))))
          \<and> (origin (symbols binary ! j) = SYM_ORIGIN_LC_SYMTAB
                \<and> \<not> symtab_sentinel (get_library_ordinal (description (symbols binary ! j)))
                \<and> removed_ordinal binary rds
                     (uint (get_library_ordinal (description (symbols binary ! j)))) \<longrightarrow>
              get_library_ordinal (description (symbols out ! j))
                = word_of_int (int (length (dependency_names (libraries out))))))"
proof -
  let ?M = "int (length (dependency_names (libraries out)))"
  let ?E = "ordinal_map (libraries binary)"
  note h = stub_for_marked_symbols [OF assms(1-4)]
  note h1 = h [THEN conjunct1]
  note h2 = h [THEN conjunct2, THEN conjunct1]
  note h3 = h [THEN conjunct2, THEN conjunct2, rule_format]
  from remap_binary_Inr [OF assms(1)] assms(2)
  have "remove_sym_set = remove_sym_set_loop rds (syms_to_libs_loop binary (symbols binary) []) []"
    by auto
  with marked_iff_orphaned [OF assms(5-7), of rds]
  have m: "remove_sym_set = [] \<longleftrightarrow> orphan_set binary rds = []" by simp
  have libs: "libraries out =
           filter (\<lambda>c. command c = LC_ID_DYLIB \<or> name c \<notin> set rds) (libraries binary)
             @ [id_dylib (new_dylib_path args)]
             @ (if orphan_set binary rds = [] then [] else [load_dylib (new_stub_path args)])"
    using h1 unfolding m .
  have count: "length (filter (\<lambda>c. c = load_dylib (new_stub_path args)) (libraries out))
           = (if orphan_set binary rds = [] then 0 else 1)"
    using h2 unfolding m .
  have so: "orphan_set binary rds \<noteq> [] \<longrightarrow>
            map_of (ordinal_map (libraries out)) (new_stub_path args) = Some ?M"
    using h3 [THEN conjunct1] m by blast
  have refs: "(\<forall>info. sym_binding_info binary (symbols binary ! j) = Some info
                 \<and> removed_ordinal binary rds (library_ordinal info) \<longrightarrow>
               (\<exists>info'. sym_binding_info out (symbols out ! j) = Some info'
                  \<and> library_ordinal info' = ?M))
          \<and> (origin (symbols binary ! j) = SYM_ORIGIN_LC_SYMTAB
                \<and> \<not> symtab_sentinel (get_library_ordinal (description (symbols binary ! j)))
                \<and> removed_ordinal binary rds
                     (uint (get_library_ordinal (description (symbols binary ! j)))) \<longrightarrow>
              get_library_ordinal (description (symbols out ! j)) = word_of_int ?M)"
    if j: "j < length (symbols binary)" for j
  proof (intro conjI allI impI)
    fix info
    assume a: "sym_binding_info binary (symbols binary ! j) = Some info
                 \<and> removed_ordinal binary rds (library_ordinal info)"
    from j have mem: "symbols binary ! j \<in> set (symbols binary)" by simp
    from a have "orphaned binary rds (symbols binary ! j)" by (simp add: orphaned_def)
    with mem have "orphan_set binary rds \<noteq> []"
      by (auto simp add: orphan_set_def filter_empty_conv)
    with m have ne: "remove_sym_set \<noteq> []" by simp
    from h3 [OF ne, THEN conjunct2] obtain bindings bindings' where
      d: "dyld_info binary = Some bindings" and d': "dyld_info out = Some bindings'"
      and len: "length bindings' = length bindings"
      and b: "\<And>i n. i < length bindings \<Longrightarrow> n \<in> set rds \<Longrightarrow>
                 map_of ?E n = Some (library_ordinal (bindings ! i)) \<Longrightarrow>
                 library_ordinal (bindings' ! i) = ?M"
      and bi: "\<forall>j < length (symbols binary).
                 binding_info (symbols out ! j) = binding_info (symbols binary ! j)"
      by blast
    from bi j have "binding_info (symbols out ! j) = binding_info (symbols binary ! j)" by blast
    from sym_binding_info_out [OF a [THEN conjunct1] d d' len this] obtain i where
      i: "i < length bindings" "info = bindings ! i"
      and o: "sym_binding_info out (symbols out ! j) = Some (bindings' ! i)"
      by blast
    from a obtain n where n: "n \<in> set rds" "map_of ?E n = Some (library_ordinal info)"
      unfolding removed_ordinal_def by blast
    from b [OF i(1) n(1)] n(2) i(2) have "library_ordinal (bindings' ! i) = ?M" by simp
    with o show "\<exists>info'. sym_binding_info out (symbols out ! j) = Some info'
                  \<and> library_ordinal info' = ?M"
      by blast
  next
    assume a: "origin (symbols binary ! j) = SYM_ORIGIN_LC_SYMTAB
                \<and> \<not> symtab_sentinel (get_library_ordinal (description (symbols binary ! j)))
                \<and> removed_ordinal binary rds
                     (uint (get_library_ordinal (description (symbols binary ! j))))"
    from j have mem: "symbols binary ! j \<in> set (symbols binary)" by simp
    from a have "orphaned binary rds (symbols binary ! j)" by (simp add: orphaned_def)
    with mem have "orphan_set binary rds \<noteq> []"
      by (auto simp add: orphan_set_def filter_empty_conv)
    with m have ne: "remove_sym_set \<noteq> []" by simp
    from h3 [OF ne, THEN conjunct2] have s: "\<forall>j n. j < length (symbols binary)
                 \<and> origin (symbols binary ! j) = SYM_ORIGIN_LC_SYMTAB
                 \<and> \<not> symtab_sentinel (get_library_ordinal (description (symbols binary ! j)))
                 \<and> n \<in> set rds
                 \<and> map_of ?E n
                     = Some (uint (get_library_ordinal (description (symbols binary ! j)))) \<longrightarrow>
               get_library_ordinal (description (symbols out ! j)) = word_of_int ?M"
      by blast
    from a obtain n where n: "n \<in> set rds"
      "map_of ?E n = Some (uint (get_library_ordinal (description (symbols binary ! j))))"
      unfolding removed_ordinal_def by blast
    from s j a n show "get_library_ordinal (description (symbols out ! j)) = word_of_int ?M"
      by blast
  qed
  from libs count so refs show ?thesis by blast
qed


theorem single_stub_witness:
  "remap_binary quiet_host remove_libA [] mixed =
     Inr (mixed_out, ''@executable_path/dylibify-stubs.dylib'', [''_foo''])
   \<and> remove_dylib_set_of quiet_host remove_libA (orig_libraries_loop (libraries mixed) [])
       = Inr [''libA'']
   \<and> distinct (dependency_names (libraries mixed))
   \<and> new_stub_path remove_libA \<notin> set (dependency_names (libraries mixed))
   \<and> library_resolved mixed (symbols mixed ! 0) \<and> library_resolved mixed (symbols mixed ! 1)
   \<and> descriptor_bound mixed (symbols mixed ! 0) \<and> descriptor_bound mixed (symbols mixed ! 1)
   \<and> one_library_per_name mixed
   \<and> orphan_set mixed [''libA''] = [symbols mixed ! 0]
   \<and> libraries mixed_out =
       [load_dylib ''libB'', id_dylib (new_dylib_path remove_libA),
        load_dylib (new_stub_path remove_libA)]
   \<and> length (filter (\<lambda>c. c = load_dylib (new_stub_path remove_libA)) (libraries mixed_out)) = 1
   \<and> map_of (ordinal_map (libraries mixed_out)) (new_stub_path remove_libA) = Some 2
   \<and> sym_binding_info mixed (symbols mixed ! 0)
       = Some \<lparr>library_ordinal = 1, library = Some (load_dylib ''libA'')\<rparr>
   \<and> (\<exists>info'. sym_binding_info mixed_out (symbols mixed_out ! 0) = Some info'
          \<and> library_ordinal info' = 2)
   \<and> get_library_ordinal (description (symbols mixed ! 0)) = 1
   \<and> get_library_ordinal (description (symbols mixed_out ! 0)) = 2"
proof -
  have sy: "set (symbols mixed) = {symbols mixed ! 0, symbols mixed ! 1}"
    by (simp add: mixed_def)
  have n: "dependency_names (libraries mixed) = [''libA'', ''libB'']"
    by (simp add: mixed_def dependency_names_def load_dylib_def)
  have no: "dependency_names (libraries mixed_out)
              = [''libB'', ''@executable_path/dylibify-stubs.dylib'']"
    by (simp add: mixed_out_def dependency_names_def load_dylib_def id_dylib_def)
  have b0: "sym_binding_info mixed (symbols mixed ! 0)
              = Some \<lparr>library_ordinal = 1, library = Some (load_dylib ''libA'')\<rparr>"
    by (simp add: sym_binding_info_def mixed_def)
  have g0: "get_library_ordinal (description (symbols mixed ! 0)) = 1"
    by (simp add: get_library_ordinal_def mixed_def)
  have r: "remove_dylib_set_of quiet_host remove_libA (orig_libraries_loop (libraries mixed) [])
       = Inr [''libA'']"
    by (simp add: remap_eval quiet_host_def remove_libA_def remove_none_def mixed_def)
  have d: "distinct (dependency_names (libraries mixed))" by (simp add: n)
  have f: "new_stub_path remove_libA \<notin> set (dependency_names (libraries mixed))"
    by (simp add: n remove_libA_def remove_none_def)
  have lr0: "library_resolved mixed (symbols mixed ! 0)"
    and lr1: "library_resolved mixed (symbols mixed ! 1)"
    by (simp_all add: orphan_eval mixed_def)
  have db0: "descriptor_bound mixed (symbols mixed ! 0)"
    and db1: "descriptor_bound mixed (symbols mixed ! 1)"
    by (simp_all add: orphan_eval mixed_def)
  have ol: "one_library_per_name mixed"
    by (simp add: orphan_eval mixed_def)
  have lr: "\<forall>s \<in> set (symbols mixed). library_resolved mixed s"
    using lr0 lr1 unfolding sy by blast
  have db: "\<forall>s \<in> set (symbols mixed). descriptor_bound mixed s"
    using db0 db1 unfolding sy by blast
  have ro: "removed_ordinal mixed [''libA''] 1"
    by (simp add: orphan_eval mixed_def)
  have ss: "\<not> symtab_sentinel 1"
    by (simp add: orphan_eval)
  have os: "orphan_set mixed [''libA''] = [symbols mixed ! 0]"
    by (simp add: orphan_eval mixed_def)
  then have ne: "orphan_set mixed [''libA''] \<noteq> []" by simp
  have o0: "origin (symbols mixed ! 0) = SYM_ORIGIN_LC_SYMTAB" by (simp add: mixed_def)
  note t = single_stub [OF run_mixed r d f lr db ol]
  from t [THEN conjunct1] ne have "libraries mixed_out =
       filter (\<lambda>c. command c = LC_ID_DYLIB \<or> name c \<notin> set [''libA'']) (libraries mixed)
         @ [id_dylib (new_dylib_path remove_libA)] @ [load_dylib (new_stub_path remove_libA)]"
    by (simp only: if_False)
  then have l: "libraries mixed_out =
       [load_dylib ''libB'', id_dylib (new_dylib_path remove_libA),
        load_dylib (new_stub_path remove_libA)]"
    by (simp add: mixed_def load_dylib_def)
  from t [THEN conjunct2, THEN conjunct1] ne
  have c: "length (filter (\<lambda>c. c = load_dylib (new_stub_path remove_libA))
      (libraries mixed_out)) = 1"
    by (simp only: if_False)
  from t [THEN conjunct2, THEN conjunct2, THEN conjunct1] ne
  have s: "map_of (ordinal_map (libraries mixed_out)) (new_stub_path remove_libA) = Some 2"
    by (simp add: no)
  note u = t [THEN conjunct2, THEN conjunct2, THEN conjunct2, rule_format, of 0]
  have j: "0 < length (symbols mixed)" by (simp add: mixed_def)
  from u [OF j, THEN conjunct1, rule_format,
      of "\<lparr>library_ordinal = 1, library = Some (load_dylib ''libA'')\<rparr>"] b0 ro
  have b: "\<exists>info'. sym_binding_info mixed_out (symbols mixed_out ! 0) = Some info'
          \<and> library_ordinal info' = 2"
    by (simp add: no)
  from u [OF j, THEN conjunct2] o0 g0 ss ro
  have g: "get_library_ordinal (description (symbols mixed_out ! 0)) = 2"
    by (simp add: no)
  from run_mixed r d f lr0 lr1 db0 db1 ol os l c s b0 b g0 g show ?thesis
    by (intro conjI)
qed

text \<open>
  As first stated, for every input, the claim fails where a name is declared
  twice: the symbol is orphaned, the first \<open>libA\<close> entry is removed and one stub
  entry is added with ordinal 2, but the name is still in the new table, so the
  binding record of the symbol keeps ordinal 1.
\<close>

theorem single_stub_counterexample:
  "remap_binary quiet_host remove_libA [] dup_image =
     Inr (dup_image_out, ''@executable_path/dylibify-stubs.dylib'', [''_foo''])
   \<and> remove_dylib_set_of quiet_host remove_libA (orig_libraries_loop (libraries dup_image) [])
       = Inr [''libA'']
   \<and> orphan_set dup_image [''libA''] = [symbols dup_image ! 0]
   \<and> sym_binding_info dup_image (symbols dup_image ! 0)
       = Some \<lparr>library_ordinal = 1, library = Some (load_dylib ''libA'')\<rparr>
   \<and> removed_ordinal dup_image [''libA''] 1
   \<and> sym_binding_info dup_image_out (symbols dup_image_out ! 0)
       = Some \<lparr>library_ordinal = 1, library = Some (load_dylib ''libA'')\<rparr>
   \<and> map_of (ordinal_map (libraries dup_image_out)) ''@executable_path/dylibify-stubs.dylib''
       = Some 2
   \<and> map_of (ordinal_map (libraries dup_image_out)) ''@executable_path/dylibify-stubs.dylib''
       \<noteq> Some (library_ordinal \<lparr>library_ordinal = 1, library = Some (load_dylib ''libA'')\<rparr>)"
proof -
  have r: "remove_dylib_set_of quiet_host remove_libA (orig_libraries_loop (libraries dup_image) [])
       = Inr [''libA'']"
    by (simp add: remap_eval quiet_host_def remove_libA_def remove_none_def dup_image_def)
  have b: "sym_binding_info dup_image (symbols dup_image ! 0)
       = Some \<lparr>library_ordinal = 1, library = Some (load_dylib ''libA'')\<rparr>"
    by (simp add: sym_binding_info_def dup_image_def)
  have ro: "removed_ordinal dup_image [''libA''] 1"
    by (simp add: orphan_eval dup_image_def)
  have os: "orphan_set dup_image [''libA''] = [symbols dup_image ! 0]"
    by (simp add: orphan_eval dup_image_def)
  have b': "sym_binding_info dup_image_out (symbols dup_image_out ! 0)
       = Some \<lparr>library_ordinal = 1, library = Some (load_dylib ''libA'')\<rparr>"
    by (simp add: sym_binding_info_def dup_image_out_def)
  have s: "map_of (ordinal_map (libraries dup_image_out)) ''@executable_path/dylibify-stubs.dylib''
       = Some 2"
    by (simp add: dup_image_out_def ordinal_map_def map_emplace_def map_contains_def
        load_dylib_def id_dylib_def)
  from run_dup r os b ro b' s show ?thesis by simp
qed

text \<open>
  The hypotheses on the symbols cannot be left out. When two symbols have one
  name and the first is bound to a dependency that stays, the program does not
  see that the second is bound to a removed one; and it does not see a symbol
  whose only reference is its legacy descriptor. In both runs the orphan set is
  not empty, \<^verbatim>\<open>remove_sym_set\<close> is empty, no stub entry is added, and the
  reference to the removed dependency is rewritten to 0, the value that
  \<^verbatim>\<open>new_ordinal_map[*stub_path]\<close> inserts.
\<close>

lemma run_shadowed:
  "remap_binary quiet_host remove_libA [] shadowed = Inr (shadowed_out, [], [])
   \<and> orphan_set shadowed [''libA''] = [symbols shadowed ! 1]
   \<and> \<not> one_library_per_name shadowed"
proof -
  have r: "remap_binary quiet_host remove_libA [] shadowed = Inr (shadowed_out, [], [])"
    by (simp add: remap_eval quiet_host_def remove_libA_def remove_none_def shadowed_def
        shadowed_out_def)
  have os: "orphan_set shadowed [''libA''] = [symbols shadowed ! 1]"
    by (simp add: orphan_eval shadowed_def)
  have "\<not> one_library_per_name shadowed"
    by (simp add: orphan_eval shadowed_def)
  with r os show ?thesis by simp
qed

lemma run_legacy_only:
  "remap_binary quiet_host remove_libA [] legacy_only = Inr (legacy_only_out, [], [])
   \<and> orphan_set legacy_only [''libA''] = [symbols legacy_only ! 0]
   \<and> \<not> descriptor_bound legacy_only (symbols legacy_only ! 0)
   \<and> get_library_ordinal (description (symbols legacy_only_out ! 0)) = 0"
proof -
  have r: "remap_binary quiet_host remove_libA [] legacy_only = Inr (legacy_only_out, [], [])"
    by (simp add: remap_eval quiet_host_def remove_libA_def remove_none_def legacy_only_def
        legacy_only_out_def)
  have os: "orphan_set legacy_only [''libA''] = [symbols legacy_only ! 0]"
    by (simp add: orphan_eval legacy_only_def)
  have db: "\<not> descriptor_bound legacy_only (symbols legacy_only ! 0)"
    by (simp add: orphan_eval legacy_only_def)
  have g: "get_library_ordinal (description (symbols legacy_only_out ! 0)) = 0"
    by (simp add: legacy_only_out_def get_library_ordinal_def)
  from r os db g show ?thesis by simp
qed

end
